(* ===== verification/Vault_Prelude.thy ===== *)
theory Vault_Prelude
  imports Main
begin

text \<open>
  Shared vocabulary of the development: the exceptions a C++ function of the server can let
  escape, the result type that carries them, the range-checked arithmetic of \<open>int\<close>, the
  collections of rewrite rules the component theories fill, and generic lemmas on lists.
\<close>

section \<open>Exceptions and results\<close>

text \<open>
  The server is compiled with exceptions and catches almost none of them.  A function that may
  throw returns a sum: \<open>Inl\<close> is the exception that leaves the function, \<open>Inr\<close> its value.
  Signed overflow of an \<open>int\<close> has no defined result in C++; it is a constructor of its own, so
  that a computation which runs into it has no ordinary value.  So is a data race of two threads, and
  the signal \<open>SIGPIPE\<close>, which ends the process as an exception that nobody catches does.
\<close>

datatype cpp_exn =
    Std_invalid_argument
  | Std_out_of_range
  | Json_LogicError
  | Json_RuntimeError
  | Mysqlx_Error
  | Signed_overflow
  | Sigpipe
  | Data_race

type_synonym 'a result = "cpp_exn + 'a"

definition rbind :: "'e + 'a \<Rightarrow> ('a \<Rightarrow> 'e + 'b) \<Rightarrow> 'e + 'b" where
  "rbind m f = (case m of Inl e \<Rightarrow> Inl e | Inr x \<Rightarrow> f x)"

named_theorems result_simps \<open>inversion of results that went through a sequence of calls\<close>

lemma rbind_Inl [simp]: "rbind (Inl e) f = Inl e"
  by (simp add: rbind_def)

lemma rbind_Inr [simp]: "rbind (Inr x) f = f x"
  by (simp add: rbind_def)

lemma rbind_eq_Inr [result_simps]:
  "rbind m f = Inr y \<longleftrightarrow> (\<exists>x. m = Inr x \<and> f x = Inr y)"
  by (cases m) simp_all

lemma rbind_eq_Inl [result_simps]:
  "rbind m f = Inl e \<longleftrightarrow> m = Inl e \<or> (\<exists>x. m = Inr x \<and> f x = Inl e)"
  by (cases m) simp_all

lemma rbind_cong [fundef_cong]:
  "\<lbrakk>m = m'; \<And>x. m' = Inr x \<Longrightarrow> f x = f' x\<rbrakk> \<Longrightarrow> rbind m f = rbind m' f'"
  by (cases m') simp_all

text \<open>A property of the value of a result, if it has one; it passes through sequencing and branching.\<close>

definition on_value :: "('a \<Rightarrow> bool) \<Rightarrow> 'e + 'a \<Rightarrow> bool" where
  "on_value P m \<longleftrightarrow> (case m of Inl _ \<Rightarrow> True | Inr x \<Rightarrow> P x)"

named_theorems on_value_intros \<open>how a property of values passes through a computation\<close>

lemma on_value_Inr [on_value_intros]: "P x \<Longrightarrow> on_value P (Inr x)"
  by (simp add: on_value_def)

lemma on_value_rbind [on_value_intros]: "(\<And>x. m = Inr x \<Longrightarrow> on_value P (f x)) \<Longrightarrow> on_value P (rbind m f)"
  by (cases m) (simp_all add: on_value_def)

lemma on_value_if [on_value_intros]:
  "\<lbrakk>c \<Longrightarrow> on_value P m; \<not> c \<Longrightarrow> on_value P n\<rbrakk> \<Longrightarrow> on_value P (if c then m else n)"
  by simp

lemma on_value_option [on_value_intros]:
  "\<lbrakk>on_value P m; \<And>x. on_value P (f x)\<rbrakk> \<Longrightarrow> on_value P (case v of None \<Rightarrow> m | Some x \<Rightarrow> f x)"
  by (cases v) simp_all

lemma on_value_sum [on_value_intros]:
  "\<lbrakk>\<And>e. on_value P (f e); \<And>x. on_value P (g x)\<rbrakk> \<Longrightarrow> on_value P (case v of Inl e \<Rightarrow> f e | Inr x \<Rightarrow> g x)"
  by (cases v) simp_all

lemma on_valueD: "\<lbrakk>on_value P m; m = Inr x\<rbrakk> \<Longrightarrow> P x"
  by (simp add: on_value_def)

section \<open>The type int\<close>

text \<open>
  An \<open>int\<close> of the program is a HOL \<open>int\<close> inside the 32-bit two's complement range.  The
  operators check the range and are undefined outside it, as the C++ ones are.
\<close>

abbreviation INT_MAX :: int where "INT_MAX \<equiv> 2147483647"
abbreviation INT_MIN :: int where "INT_MIN \<equiv> - 2147483648"

definition in_int32 :: "int \<Rightarrow> bool" where
  "in_int32 n \<longleftrightarrow> INT_MIN \<le> n \<and> n \<le> INT_MAX"

definition int32_check :: "int \<Rightarrow> int result" where
  "int32_check n = (if in_int32 n then Inr n else Inl Signed_overflow)"

definition int32_add :: "int \<Rightarrow> int \<Rightarrow> int result" where
  "int32_add a b = int32_check (a + b)"

definition int32_sub :: "int \<Rightarrow> int \<Rightarrow> int result" where
  "int32_sub a b = int32_check (a - b)"

definition int32_neg :: "int \<Rightarrow> int result" where
  "int32_neg a = int32_check (- a)"

lemma int32_check_Inr [result_simps]: "int32_check n = Inr m \<longleftrightarrow> m = n \<and> in_int32 n"
  by (auto simp: int32_check_def)

lemma int32_check_ok [simp]: "in_int32 n \<Longrightarrow> int32_check n = Inr n"
  by (simp add: int32_check_def)

lemma int32_add_Inr [result_simps]: "int32_add a b = Inr m \<longleftrightarrow> m = a + b \<and> in_int32 (a + b)"
  by (simp add: int32_add_def result_simps)

lemma int32_sub_Inr [result_simps]: "int32_sub a b = Inr m \<longleftrightarrow> m = a - b \<and> in_int32 (a - b)"
  by (simp add: int32_sub_def result_simps)

lemma int32_neg_Inr [result_simps]: "int32_neg a = Inr m \<longleftrightarrow> m = - a \<and> in_int32 (- a)"
  by (simp add: int32_neg_def result_simps)

lemma in_int32_neg: "\<lbrakk>0 < n; in_int32 n\<rbrakk> \<Longrightarrow> in_int32 (- n)"
  by (simp add: in_int32_def)

section \<open>Lists\<close>

lemma in_singleton_list: "\<lbrakk>xs = [] \<or> (\<exists>r. xs = [r]); x \<in> set xs\<rbrakk> \<Longrightarrow> xs = [x]"
  by auto

section \<open>Options\<close>

lemma option_guardI:
  assumes "\<And>c. x' = Some c \<longleftrightarrow> x = Some c \<and> P c"
  shows "x' = (case x of None \<Rightarrow> None | Some c \<Rightarrow> if P c then Some c else None)"
proof (cases x')
  case None
  then have "\<not> P c" if "x = Some c" for c using assms[of c] that by simp
  with None show ?thesis by (simp split: option.split)
next
  case (Some c)
  with assms[of c] show ?thesis by simp
qed

end
