(* ===== verification/Cpp_Text.thy ===== *)
theory Cpp_Text
  imports Vault_Prelude
begin

text \<open>
  The part of the C and C++ standard library that the sources use on text: character classes
  of the \<open>"C"\<close> locale, the decimal conversions \<open>std::to_string\<close>, \<open>std::stoi\<close> and \<open>atoi\<close>,
  case conversion with \<open>std::transform\<close>, and C strings inside a byte buffer.  A
  \<open>std::string\<close> is a HOL \<open>string\<close>: a list of 8-bit characters.
\<close>

section \<open>Characters\<close>

definition c_isspace :: "char \<Rightarrow> bool" where
  "c_isspace c \<longleftrightarrow> (let n = (of_char c :: nat) in n = 32 \<or> (9 \<le> n \<and> n \<le> 13))"

definition c_isdigit :: "char \<Rightarrow> bool" where
  "c_isdigit c \<longleftrightarrow> (let n = (of_char c :: nat) in 48 \<le> n \<and> n \<le> 57)"

definition digit_val :: "char \<Rightarrow> nat" where
  "digit_val c = of_char c - 48"

definition digit_char :: "nat \<Rightarrow> char" where
  "digit_char d = char_of (48 + d)"

definition c_toupper :: "char \<Rightarrow> char" where
  "c_toupper c = (let n = (of_char c :: nat) in if 97 \<le> n \<and> n \<le> 122 then char_of (n - 32) else c)"

definition c_tolower :: "char \<Rightarrow> char" where
  "c_tolower c = (let n = (of_char c :: nat) in if 65 \<le> n \<and> n \<le> 90 then char_of (n + 32) else c)"

lemma of_char_digit_char: "d < 10 \<Longrightarrow> (of_char (digit_char d) :: nat) = 48 + d"
  by (simp add: digit_char_def)

lemma c_isdigit_digit_char [simp]: "d < 10 \<Longrightarrow> c_isdigit (digit_char d)"
  by (simp add: c_isdigit_def of_char_digit_char Let_def)

lemma digit_val_digit_char [simp]: "d < 10 \<Longrightarrow> digit_val (digit_char d) = d"
  by (simp add: digit_val_def of_char_digit_char)

lemma c_isdigit_not_space: "c_isdigit c \<Longrightarrow> \<not> c_isspace c"
  by (auto simp: c_isdigit_def c_isspace_def Let_def)

lemma c_isdigit_not_sign: "c_isdigit c \<Longrightarrow> c \<noteq> CHR ''-'' \<and> c \<noteq> CHR ''+''"
  by (auto simp: c_isdigit_def Let_def)

definition newline :: string where "newline = [CHR 0x0A]"

section \<open>Decimal text\<close>

fun nat_digits :: "nat \<Rightarrow> string" where
  "nat_digits n =
     (if n < 10 then [digit_char n] else nat_digits (n div 10) @ [digit_char (n mod 10)])"

declare nat_digits.simps [simp del]

text \<open>\<open>std::to_string(int)\<close>, and what \<open>operator<<\<close> prints for an \<open>int\<close>.\<close>

definition to_string :: "int \<Rightarrow> string" where
  "to_string i = (if i < 0 then CHR ''-'' # nat_digits (nat (- i)) else nat_digits (nat i))"

definition digits_val :: "string \<Rightarrow> nat" where
  "digits_val ds = foldl (\<lambda>a c. 10 * a + digit_val c) 0 ds"

text \<open>
  The subject sequence of \<open>strtol\<close> in base 10: white space, an optional sign, the longest run
  of digits.  \<open>None\<close>: no digits, so no conversion is performed.
\<close>

definition strtol_value :: "string \<Rightarrow> int option" where
  "strtol_value s =
     (let s1 = dropWhile c_isspace s;
          neg = (s1 \<noteq> [] \<and> hd s1 = CHR ''-'');
          s2 = (if s1 \<noteq> [] \<and> (hd s1 = CHR ''-'' \<or> hd s1 = CHR ''+'') then tl s1 else s1);
          ds = takeWhile c_isdigit s2
      in if ds = [] then None
         else Some (if neg then - int (digits_val ds) else int (digits_val ds)))"

definition stoi :: "string \<Rightarrow> int result" where
  "stoi s =
     (case strtol_value s of
        None \<Rightarrow> Inl Std_invalid_argument
      | Some n \<Rightarrow> if in_int32 n then Inr n else Inl Std_out_of_range)"

text \<open>
  \<open>atoi\<close> of the platform's C library: \<open>strtol\<close> saturates at the bounds of a 64-bit
  \<open>long\<close> and the cast to \<open>int\<close> keeps the low 32 bits.
\<close>

definition clamp_long :: "int \<Rightarrow> int" where
  "clamp_long n = max (- (2 ^ 63)) (min (2 ^ 63 - 1) n)"

definition cast_int :: "int \<Rightarrow> int" where
  "cast_int n = (n + 2 ^ 31) mod 2 ^ 32 - 2 ^ 31"

definition atoi :: "string \<Rightarrow> int" where
  "atoi s = (case strtol_value s of None \<Rightarrow> 0 | Some n \<Rightarrow> cast_int (clamp_long n))"

lemma nat_digits_nonempty: "nat_digits n \<noteq> []"
  by (subst nat_digits.simps) simp

lemma nat_digits_all_digits: "list_all c_isdigit (nat_digits n)"
proof (induction n rule: nat_digits.induct)
  case (1 n)
  then show ?case by (subst nat_digits.simps) auto
qed

lemma digits_val_append: "digits_val (ds @ [c]) = 10 * digits_val ds + digit_val c"
  by (simp add: digits_val_def)

lemma digits_val_nat_digits [simp]: "digits_val (nat_digits n) = n"
proof (induction n rule: nat_digits.induct)
  case (1 n)
  show ?case
  proof (cases "n < 10")
    case True
    then show ?thesis by (subst nat_digits.simps) (simp add: digits_val_def)
  next
    case False
    with 1 have "digits_val (nat_digits (n div 10)) = n div 10" by simp
    with False show ?thesis by (subst nat_digits.simps) (simp add: digits_val_append)
  qed
qed

lemma takeWhile_nat_digits [simp]: "takeWhile c_isdigit (nat_digits n) = nat_digits n"
  using nat_digits_all_digits[of n] by (simp add: takeWhile_eq_all_conv list_all_iff)

lemma hd_nat_digits: "c_isdigit (hd (nat_digits n))"
  using nat_digits_all_digits[of n] nat_digits_nonempty[of n]
  by (cases "nat_digits n") auto

lemma dropWhile_hd: "\<lbrakk>s \<noteq> []; \<not> P (hd s)\<rbrakk> \<Longrightarrow> dropWhile P s = s"
  by (cases s) auto

lemma strtol_value_to_string [simp]: "strtol_value (to_string i) = Some i"
proof (cases "i < 0")
  case True
  have "\<not> c_isspace CHR ''-''" by (simp add: c_isspace_def)
  with True show ?thesis
    by (simp add: strtol_value_def to_string_def Let_def nat_digits_nonempty)
next
  case False
  note d = hd_nat_digits[of "nat i"]
  have "dropWhile c_isspace (nat_digits (nat i)) = nat_digits (nat i)"
    using d by (intro dropWhile_hd) (auto simp: nat_digits_nonempty dest: c_isdigit_not_space)
  with False d show ?thesis
    by (auto simp: strtol_value_def to_string_def Let_def nat_digits_nonempty
        dest: c_isdigit_not_sign)
qed

lemma to_string_nonempty [simp]: "to_string i \<noteq> []"
  by (simp add: to_string_def nat_digits_nonempty)

lemma stoi_to_string: "in_int32 n \<Longrightarrow> stoi (to_string n) = Inr n"
  by (simp add: stoi_def)

lemma stoi_in_int32: "stoi s = Inr n \<Longrightarrow> in_int32 n"
  by (auto simp: stoi_def split: option.splits if_splits)

lemma stoi_exceptions: "stoi s = Inl e \<Longrightarrow> e = Std_invalid_argument \<or> e = Std_out_of_range"
  by (auto simp: stoi_def split: option.splits if_splits)

lemma cast_int_id: "in_int32 n \<Longrightarrow> cast_int n = n"
  by (simp add: cast_int_def in_int32_def)

lemma in_int32_cast_int: "in_int32 (cast_int n)"
proof -
  have "0 \<le> (n + 2 ^ 31) mod 2 ^ 32" "(n + 2 ^ 31) mod 2 ^ 32 < (2::int) ^ 32"
    by (rule pos_mod_sign pos_mod_bound, simp)+
  then show ?thesis by (simp add: cast_int_def in_int32_def)
qed

lemma in_int32_atoi: "in_int32 (atoi s)"
  by (auto simp: atoi_def in_int32_cast_int in_int32_def[of 0] split: option.splits)

lemma atoi_to_string: "in_int32 n \<Longrightarrow> atoi (to_string n) = n"
  by (simp add: atoi_def clamp_long_def in_int32_def cast_int_id max_def min_def)

text \<open>Where \<open>std::stoi\<close> returns, \<open>atoi\<close> returns the same number.\<close>

lemma atoi_stoi: "stoi s = Inr n \<Longrightarrow> atoi s = n"
  by (auto simp: stoi_def atoi_def clamp_long_def in_int32_def cast_int_id max_def min_def
      split: option.splits if_splits)

lemma strtol_value_no_digit:
  "\<lbrakk>s \<noteq> []; \<not> c_isspace (hd s); \<not> c_isdigit (hd s); hd s \<noteq> CHR ''-''; hd s \<noteq> CHR ''+''\<rbrakk>
   \<Longrightarrow> strtol_value s = None"
  by (cases s) (auto simp: strtol_value_def Let_def)

lemma atoi_brace: "s \<noteq> [] \<Longrightarrow> hd s = CHR ''{'' \<Longrightarrow> atoi s = 0"
  by (simp add: atoi_def strtol_value_no_digit c_isspace_def c_isdigit_def)

section \<open>Buffers\<close>

text \<open>
  A receive fills a zeroed buffer of \<open>size\<close> bytes with at most \<open>size - 1\<close> bytes; the code
  then reads the buffer as a C string, up to the first NUL.
\<close>

definition c_str :: "string \<Rightarrow> string" where
  "c_str bytes = takeWhile (\<lambda>c. c \<noteq> CHR 0x00) bytes"

definition recv_buffer :: "nat \<Rightarrow> string \<Rightarrow> string" where
  "recv_buffer sz data = c_str (take (sz - 1) data)"

lemma length_takeWhile_take: "length (takeWhile P (take n xs)) \<le> n"
  by (rule order_trans[OF length_takeWhile_le]) simp

lemma length_recv_buffer: "0 < sz \<Longrightarrow> length (recv_buffer sz data) < sz"
proof -
  assume "0 < sz"
  moreover have "length (recv_buffer sz data) \<le> sz - 1"
    unfolding recv_buffer_def c_str_def by (rule length_takeWhile_take)
  ultimately show ?thesis by simp
qed

lemma recv_buffer_no_nul: "CHR 0x00 \<notin> set (recv_buffer sz data)"
  by (auto simp: recv_buffer_def c_str_def dest: set_takeWhileD)

end
