(* ===== verification/Ordered_Map.thy ===== *)
theory Ordered_Map
  imports Vault_Prelude
begin

text \<open>
  \<open>std::map<int, V>\<close> as the server uses it: lookup, assignment through \<open>operator[]\<close>, erasure and
  iteration in ascending key order.  The model keeps the entries as a list sorted by key.  The
  locale states the interface the client tables rely on; it is interpreted on the model below.
\<close>

section \<open>The interface\<close>

text \<open>
  \<open>for (auto& pair : m) if (P(pair.second)) return &pair.second;\<close> is a scan of the entries in
  iteration order.
\<close>

fun first_value :: "('v \<Rightarrow> bool) \<Rightarrow> (int \<times> 'v) list \<Rightarrow> 'v option" where
  "first_value P [] = None"
| "first_value P ((k, v) # es) = (if P v then Some v else first_value P es)"

lemma first_value_SomeD: "first_value P es = Some v \<Longrightarrow> P v \<and> (\<exists>k. (k, v) \<in> set es)"
  by (induction P es rule: first_value.induct) (auto split: if_splits)

lemma first_value_NoneD: "\<lbrakk>first_value P es = None; (k, v) \<in> set es\<rbrakk> \<Longrightarrow> \<not> P v"
  by (induction P es rule: first_value.induct) (auto split: if_splits)

locale ordered_map =
  fixes find :: "'m \<Rightarrow> int \<Rightarrow> 'v option"
    and assign :: "int \<Rightarrow> 'v \<Rightarrow> 'm \<Rightarrow> 'm"
    and erase :: "int \<Rightarrow> 'm \<Rightarrow> 'm"
    and entries :: "'m \<Rightarrow> (int \<times> 'v) list"
    and ok :: "'m \<Rightarrow> bool"
  assumes entries_sorted: "ok m \<Longrightarrow> sorted_wrt (<) (map fst (entries m))"
    and entries_find: "ok m \<Longrightarrow> (k, v) \<in> set (entries m) \<longleftrightarrow> find m k = Some v"
    and find_assign: "ok m \<Longrightarrow> find (assign k v m) k' = (if k' = k then Some v else find m k')"
    and find_erase: "ok m \<Longrightarrow> find (erase k m) k' = (if k' = k then None else find m k')"
    and ok_assign: "ok m \<Longrightarrow> ok (assign k v m)"
    and ok_erase: "ok m \<Longrightarrow> ok (erase k m)"
begin

lemma scan_sound:
  "\<lbrakk>ok m; first_value P (entries m) = Some v\<rbrakk> \<Longrightarrow> \<exists>k. find m k = Some v \<and> P v"
  by (blast dest: first_value_SomeD entries_find[THEN iffD1])

lemma scan_None:
  assumes "ok m"
  shows "first_value P (entries m) = None \<longleftrightarrow> (\<forall>k v. find m k = Some v \<longrightarrow> \<not> P v)"
proof
  assume "first_value P (entries m) = None"
  then show "\<forall>k v. find m k = Some v \<longrightarrow> \<not> P v"
    using assms by (blast dest: first_value_NoneD entries_find[THEN iffD2])
next
  assume none: "\<forall>k v. find m k = Some v \<longrightarrow> \<not> P v"
  show "first_value P (entries m) = None"
  proof (cases "first_value P (entries m)")
    case (Some v)
    with assms none scan_sound show ?thesis by blast
  qed
qed

lemma scan_unique:
  assumes "ok m" and "find m k = Some v" and "P v"
    and "\<And>k' v'. \<lbrakk>find m k' = Some v'; P v'\<rbrakk> \<Longrightarrow> v' = v"
  shows "first_value P (entries m) = Some v"
proof (cases "first_value P (entries m)")
  case None
  then have "\<not> P v" using scan_None[OF assms(1)] assms(2) by blast
  with assms(3) show ?thesis by contradiction
next
  case (Some w)
  then obtain k' where "find m k' = Some w" "P w" using scan_sound[OF assms(1)] by blast
  then have "w = v" by (rule assms(4))
  with Some show ?thesis by simp
qed

lemma distinct_entries: "ok m \<Longrightarrow> distinct (entries m)"
  using entries_sorted[of m] by (auto simp: strict_sorted_iff distinct_map)

lemma size_assign_new:
  assumes "ok m" and "find m k = None"
  shows "length (entries (assign k v m)) = Suc (length (entries m))"
proof -
  have eq: "set (entries (assign k v m)) = insert (k, v) (set (entries m))"
    using assms by (auto simp: entries_find find_assign ok_assign split: if_splits)
  have "(k, v) \<notin> set (entries m)"
    using assms by (simp add: entries_find)
  then have "card (set (entries (assign k v m))) = Suc (card (set (entries m)))"
    by (simp add: eq)
  then show ?thesis
    using assms by (simp add: distinct_card distinct_entries ok_assign)
qed

end

section \<open>The model\<close>

definition om_ok :: "(int \<times> 'v) list \<Rightarrow> bool" where
  "om_ok m \<longleftrightarrow> sorted_wrt (<) (map fst m)"

fun om_assign :: "int \<Rightarrow> 'v \<Rightarrow> (int \<times> 'v) list \<Rightarrow> (int \<times> 'v) list" where
  "om_assign k v [] = [(k, v)]"
| "om_assign k v (e # m) =
     (if fst e < k then e # om_assign k v m else if fst e = k then (k, v) # m else (k, v) # e # m)"

definition om_erase :: "int \<Rightarrow> (int \<times> 'v) list \<Rightarrow> (int \<times> 'v) list" where
  "om_erase k m = filter (\<lambda>e. fst e \<noteq> k) m"

lemma om_ok_Nil [simp]: "om_ok []"
  by (simp add: om_ok_def)

lemma om_ok_Cons: "om_ok (e # m) \<longleftrightarrow> (\<forall>e' \<in> set m. fst e < fst e') \<and> om_ok m"
  by (simp add: om_ok_def)

lemma om_ok_filter: "om_ok m \<Longrightarrow> om_ok (filter P m)"
  by (induction m) (auto simp: om_ok_Cons)

lemma set_om_assign: "e \<in> set (om_assign k v m) \<Longrightarrow> e = (k, v) \<or> e \<in> set m"
  by (induction m) (auto split: if_splits)

lemma om_ok_assign: "om_ok m \<Longrightarrow> om_ok (om_assign k v m)"
proof (induction m)
  case (Cons e m)
  then show ?case by (fastforce simp: om_ok_Cons dest: set_om_assign)
qed (simp add: om_ok_def)

lemma map_of_om_assign:
  "om_ok m \<Longrightarrow> map_of (om_assign k v m) k' = (if k' = k then Some v else map_of m k')"
proof (induction m)
  case (Cons e m)
  then show ?case by (cases e) (auto simp: om_ok_Cons)
qed simp

lemma map_of_filter_key: "map_of (filter (\<lambda>e. fst e \<noteq> k) m) k' = (if k' = k then None else map_of m k')"
  by (induction m) auto

lemma distinct_keys_om_ok: "om_ok m \<Longrightarrow> distinct (map fst m)"
  by (simp add: om_ok_def strict_sorted_iff)

interpretation om: ordered_map map_of om_assign om_erase "\<lambda>m. m" om_ok
proof unfold_locales
  fix m :: "(int \<times> 'a) list" and k k' :: int and v :: 'a
  assume ok: "om_ok m"
  show "sorted_wrt (<) (map fst m)"
    using ok by (simp add: om_ok_def)
  show "((k, v) \<in> set m) = (map_of m k = Some v)"
    using ok by (simp add: distinct_keys_om_ok)
  show "map_of (om_assign k v m) k' = (if k' = k then Some v else map_of m k')"
    using ok by (rule map_of_om_assign)
  show "map_of (om_erase k m) k' = (if k' = k then None else map_of m k')"
    by (simp add: om_erase_def map_of_filter_key)
  show "om_ok (om_assign k v m)"
    using ok by (rule om_ok_assign)
  show "om_ok (om_erase k m)"
    using ok by (simp add: om_erase_def om_ok_filter)
qed

lemma map_of_filter_value:
  "om_ok m \<Longrightarrow> map_of (filter (\<lambda>e. P (snd e)) m) k =
     (case map_of m k of None \<Rightarrow> None | Some v \<Rightarrow> if P v then Some v else None)"
proof (induction m)
  case (Cons e m)
  have "map_of m (fst e) = None"
    using Cons.prems by (auto simp: om_ok_Cons map_of_eq_None_iff)
  with Cons show ?case by (cases e) (auto simp: om_ok_Cons split: option.splits)
qed simp

end
