(* ===== verification/Client_Registry.thy ===== *)
theory Client_Registry
  imports Cpp_Text Ordered_Map "HOL-Library.Word"
begin

text \<open>
  The client tables of \<open>server.cpp\<close>: the two maps from process ids to clients, the counters that
  number the clients, registration, lookup by number, the removal of inactive UDP clients and the
  listing.  The invariant says that the numbers of a table are distinct and within bounds.
\<close>

section \<open>Data\<close>

text \<open>
  The fields of \<open>sockaddr_in\<close> the server reads: the address in network order, as \<open>inet_ntoa\<close> prints
  it, and the port.
\<close>

record sockaddr_in =
  sin_addr :: "32 word"
  sin_port :: "16 word"

definition octet :: "nat \<Rightarrow> 32 word \<Rightarrow> 8 word" where
  "octet i a = ucast (drop_bit (8 * (3 - i)) a)"

definition inet_ntoa :: "32 word \<Rightarrow> string" where
  "inet_ntoa a = to_string (uint (octet 0 a)) @ ''.'' @ to_string (uint (octet 1 a)) @ ''.'' @
     to_string (uint (octet 2 a)) @ ''.'' @ to_string (uint (octet 3 a))"

text \<open>\<open>last_seen\<close> and the current time are readings of the steady clock, in nanoseconds.\<close>

record client_info =
  client_id :: int
  socket_fd :: int
  addr :: sockaddr_in
  ip_address :: string
  protocol :: string
  last_seen :: int

type_synonym client_map = "(int \<times> client_info) list"

record registry =
  clientMapUdp :: client_map
  clientMapTcp :: client_map
  nextClientId_udp :: int
  nextClientId_tcp :: int

definition empty_registry :: registry where
  "empty_registry = \<lparr>clientMapUdp = [], clientMapTcp = [], nextClientId_udp = 1, nextClientId_tcp = 1\<rparr>"

definition MAX_CLIENTS_ID :: int where "MAX_CLIENTS_ID = 10000"

section \<open>Operations\<close>

definition findClientById :: "int \<Rightarrow> string \<Rightarrow> registry \<Rightarrow> client_info option" where
  "findClientById clientId proto R =
     (let proto_upper = map c_toupper proto
      in if proto_upper = ''UDP'' then first_value (\<lambda>c. client_id c = clientId) (clientMapUdp R)
         else if proto_upper = ''TCP'' then first_value (\<lambda>c. client_id c = clientId) (clientMapTcp R)
         else None)"

definition registerClient ::
  "int \<Rightarrow> string \<Rightarrow> sockaddr_in \<Rightarrow> int \<Rightarrow> int \<Rightarrow> registry \<Rightarrow> (int \<times> registry) result" where
  "registerClient pid proto address fd now R =
     (if proto \<noteq> ''UDP'' \<and> proto \<noteq> ''TCP'' then Inr (- 1, R)
      else if (proto = ''UDP'' \<and> map_of (clientMapUdp R) pid \<noteq> None) \<or>
              (proto = ''TCP'' \<and> map_of (clientMapTcp R) pid \<noteq> None) then Inr (- 1, R)
      else
      rbind (if proto = ''UDP'' then
               rbind (int32_add (nextClientId_udp R) 1) (\<lambda>n.
               Inr (nextClientId_udp R, R\<lparr>nextClientId_udp := n\<rparr>))
             else
               rbind (int32_add (nextClientId_tcp R) 1) (\<lambda>n.
               Inr (nextClientId_tcp R, R\<lparr>nextClientId_tcp := n\<rparr>))) (\<lambda>(cid, R).
      if MAX_CLIENTS_ID < cid then Inr (- 1, R)
      else
        let info = \<lparr>client_id = cid, socket_fd = fd, addr = address,
                    ip_address = inet_ntoa (sin_addr address), protocol = proto, last_seen = now\<rparr>
        in if proto = ''UDP''
           then Inr (cid, R\<lparr>clientMapUdp := om_assign pid info (clientMapUdp R)\<rparr>)
           else Inr (cid, R\<lparr>clientMapTcp := om_assign pid info (clientMapTcp R)\<rparr>)))"

text \<open>The loop erases at the iterator or advances it; the entries are visited in order.\<close>

fun erase_inactive :: "int \<Rightarrow> int \<Rightarrow> client_map \<Rightarrow> client_map" where
  "erase_inactive now timeout [] = []"
| "erase_inactive now timeout (e # es) =
     (if timeout < now - last_seen (snd e) then erase_inactive now timeout es
      else e # erase_inactive now timeout es)"

definition NANOS_PER_SECOND :: int where "NANOS_PER_SECOND = 1000000000"

definition cleanupInactiveUdpClients :: "int \<Rightarrow> int \<Rightarrow> registry \<Rightarrow> registry" where
  "cleanupInactiveUdpClients timeout_s now R =
     R\<lparr>clientMapUdp := erase_inactive now (timeout_s * NANOS_PER_SECOND) (clientMapUdp R)\<rparr>"

text \<open>\<open>clientMapTcp.erase(client_pid)\<close> when a connection ends.\<close>

definition erase_tcp :: "int \<Rightarrow> registry \<Rightarrow> registry" where
  "erase_tcp pid R = R\<lparr>clientMapTcp := om_erase pid (clientMapTcp R)\<rparr>"

section \<open>The listing\<close>

definition client_line :: "int \<times> client_info \<Rightarrow> string" where
  "client_line e = ''  Client #'' @ to_string (client_id (snd e)) @ '' PID: '' @ to_string (fst e) @
     '' IP: '' @ ip_address (snd e) @ newline"

text \<open>The text that \<open>listConnectedClients\<close> prints.\<close>

definition listConnectedClients :: "registry \<Rightarrow> string" where
  "listConnectedClients R =
     newline @ ''----- Connected Clients -----'' @ newline @
     ''UDP Clients: '' @ to_string (int (length (clientMapUdp R))) @ newline @
     concat (map client_line (clientMapUdp R)) @
     ''TCP Clients: '' @ to_string (int (length (clientMapTcp R))) @ newline @
     concat (map client_line (clientMapTcp R)) @
     ''----------------------------'' @ newline @ newline"

section \<open>The invariant\<close>

definition table_ok :: "string \<Rightarrow> client_map \<Rightarrow> int \<Rightarrow> bool" where
  "table_ok proto m nextId \<longleftrightarrow> om_ok m \<and> 1 \<le> nextId \<and> in_int32 nextId
     \<and> (\<forall>k c. map_of m k = Some c \<longrightarrow>
          1 \<le> client_id c \<and> client_id c < nextId \<and> client_id c \<le> MAX_CLIENTS_ID \<and> protocol c = proto
        \<and> ip_address c = inet_ntoa (sin_addr (addr c)))
     \<and> (\<forall>k c k' c'. map_of m k = Some c \<and> map_of m k' = Some c' \<and> client_id c = client_id c' \<longrightarrow> k = k')"

definition registry_ok :: "registry \<Rightarrow> bool" where
  "registry_ok R \<longleftrightarrow> table_ok ''UDP'' (clientMapUdp R) (nextClientId_udp R)
     \<and> table_ok ''TCP'' (clientMapTcp R) (nextClientId_tcp R)"

lemma table_okD:
  assumes "table_ok proto m n"
  shows "om_ok m" and "1 \<le> n" and "in_int32 n"
    and "map_of m k = Some c \<Longrightarrow> 1 \<le> client_id c \<and> client_id c < n \<and> client_id c \<le> MAX_CLIENTS_ID
      \<and> protocol c = proto \<and> ip_address c = inet_ntoa (sin_addr (addr c))"
    and "\<lbrakk>map_of m k = Some c; map_of m k' = Some c'; client_id c = client_id c'\<rbrakk> \<Longrightarrow> k = k'"
  using assms unfolding table_ok_def by blast+

lemma table_ok_empty: "table_ok proto [] 1"
  by (simp add: table_ok_def in_int32_def)

text \<open>A new entry with the next number, a number given away for nothing, and removals.\<close>

lemma table_ok_assign:
  assumes t: "table_ok proto m n" and n: "n \<le> MAX_CLIENTS_ID"
    and c: "client_id c = n" "protocol c = proto" "ip_address c = inet_ntoa (sin_addr (addr c))"
  shows "table_ok proto (om_assign k c m) (n + 1)"
proof -
  note find = map_of_om_assign[OF table_okD(1)[OF t]]
  have range: "1 \<le> n" "in_int32 (n + 1)"
    using table_okD(2)[OF t] n by (simp_all add: in_int32_def MAX_CLIENTS_ID_def)
  have old: "client_id c' < n" if "map_of m k' = Some c'" for k' c'
    using table_okD(4)[OF t that] by blast
  have "1 \<le> client_id c' \<and> client_id c' < n + 1 \<and> client_id c' \<le> MAX_CLIENTS_ID \<and> protocol c' = proto
      \<and> ip_address c' = inet_ntoa (sin_addr (addr c'))"
    if "map_of (om_assign k c m) k' = Some c'" for k' c'
  proof (cases "k' = k")
    case True
    with that range n c show ?thesis by (simp add: find)
  next
    case False
    with that table_okD(4)[OF t, of k' c'] show ?thesis by (simp add: find)
  qed
  moreover have "k1 = k2"
    if "map_of (om_assign k c m) k1 = Some c1" "map_of (om_assign k c m) k2 = Some c2"
      "client_id c1 = client_id c2" for k1 c1 k2 c2
    using that old[of k1 c1] old[of k2 c2] table_okD(5)[OF t, of k1 c1 k2 c2] c(1)
    by (cases "k1 = k"; cases "k2 = k") (auto simp: find)
  ultimately show ?thesis
    using range om.ok_assign[OF table_okD(1)[OF t]] unfolding table_ok_def by auto
qed

lemma table_ok_skip: "\<lbrakk>table_ok proto m n; in_int32 (n + 1)\<rbrakk> \<Longrightarrow> table_ok proto m (n + 1)"
  unfolding table_ok_def by fastforce

lemma table_ok_submap:
  assumes "table_ok proto m n" and "om_ok m'" and "\<And>k c. map_of m' k = Some c \<Longrightarrow> map_of m k = Some c"
  shows "table_ok proto m' n"
  using assms unfolding table_ok_def by metis

lemma erase_inactive_filter:
  "erase_inactive now timeout m = filter (\<lambda>e. now - last_seen (snd e) \<le> timeout) m"
  by (induction m) auto

lemma map_of_erase_inactive:
  "om_ok m \<Longrightarrow> map_of (erase_inactive now timeout m) k =
     (case map_of m k of None \<Rightarrow> None | Some c \<Rightarrow> if now - last_seen c \<le> timeout then Some c else None)"
  unfolding erase_inactive_filter by (rule map_of_filter_value)

lemma table_ok_erase_inactive:
  assumes "table_ok proto m n"
  shows "table_ok proto (erase_inactive now timeout m) n"
proof (rule table_ok_submap[OF assms])
  show "om_ok (erase_inactive now timeout m)"
    by (simp add: erase_inactive_filter om_ok_filter table_okD(1)[OF assms])
  show "map_of m k = Some c" if "map_of (erase_inactive now timeout m) k = Some c" for k c
    using that by (simp add: map_of_erase_inactive[OF table_okD(1)[OF assms]] split: option.splits if_splits)
qed

lemma table_ok_erase: "table_ok proto m n \<Longrightarrow> table_ok proto (om_erase k m) n"
  by (rule table_ok_submap, assumption)
    (auto simp: om.ok_erase om.find_erase table_okD(1) split: if_splits)

lemma registry_ok_empty: "registry_ok empty_registry"
  by (simp add: registry_ok_def empty_registry_def table_ok_empty)

lemma registry_ok_cleanup: "registry_ok R \<Longrightarrow> registry_ok (cleanupInactiveUdpClients t now R)"
  by (simp add: registry_ok_def cleanupInactiveUdpClients_def table_ok_erase_inactive)

lemma registry_ok_erase_tcp: "registry_ok R \<Longrightarrow> registry_ok (erase_tcp pid R)"
  by (simp add: registry_ok_def erase_tcp_def table_ok_erase)

text \<open>The entry a registration writes.\<close>

abbreviation new_client :: "int \<Rightarrow> string \<Rightarrow> sockaddr_in \<Rightarrow> int \<Rightarrow> int \<Rightarrow> client_info" where
  "new_client cid proto address fd now \<equiv>
     \<lparr>client_id = cid, socket_fd = fd, addr = address, ip_address = inet_ntoa (sin_addr address),
      protocol = proto, last_seen = now\<rparr>"

text \<open>How a registration can end.\<close>

lemma registerClient_cases:
  assumes "registerClient pid proto address fd now R = Inr (cid, R')"
  obtains (unknown) "proto \<noteq> ''UDP''" "proto \<noteq> ''TCP''" "cid = - 1" "R' = R"
  | (duplicate_udp) "proto = ''UDP''" "map_of (clientMapUdp R) pid \<noteq> None" "cid = - 1" "R' = R"
  | (duplicate_tcp) "proto = ''TCP''" "map_of (clientMapTcp R) pid \<noteq> None" "cid = - 1" "R' = R"
  | (full_udp) "proto = ''UDP''" "map_of (clientMapUdp R) pid = None" "MAX_CLIENTS_ID < nextClientId_udp R"
      "in_int32 (nextClientId_udp R + 1)" "cid = - 1" "R' = R\<lparr>nextClientId_udp := nextClientId_udp R + 1\<rparr>"
  | (full_tcp) "proto = ''TCP''" "map_of (clientMapTcp R) pid = None" "MAX_CLIENTS_ID < nextClientId_tcp R"
      "in_int32 (nextClientId_tcp R + 1)" "cid = - 1" "R' = R\<lparr>nextClientId_tcp := nextClientId_tcp R + 1\<rparr>"
  | (udp) "proto = ''UDP''" "map_of (clientMapUdp R) pid = None" "nextClientId_udp R \<le> MAX_CLIENTS_ID"
      "cid = nextClientId_udp R"
      "R' = R\<lparr>nextClientId_udp := nextClientId_udp R + 1,
              clientMapUdp := om_assign pid (new_client cid proto address fd now) (clientMapUdp R)\<rparr>"
  | (tcp) "proto = ''TCP''" "map_of (clientMapTcp R) pid = None" "nextClientId_tcp R \<le> MAX_CLIENTS_ID"
      "cid = nextClientId_tcp R"
      "R' = R\<lparr>nextClientId_tcp := nextClientId_tcp R + 1,
              clientMapTcp := om_assign pid (new_client cid proto address fd now) (clientMapTcp R)\<rparr>"
proof -
  consider (other) "proto \<noteq> ''UDP''" "proto \<noteq> ''TCP''" | (udp) "proto = ''UDP''" | (tcp) "proto = ''TCP''"
    by blast
  then show ?thesis
  proof cases
    case other
    with assms show ?thesis by (intro unknown) (simp_all add: registerClient_def)
  next
    case p: udp
    show ?thesis
    proof (cases "map_of (clientMapUdp R) pid")
      case None
      with p assms show ?thesis
        by (cases "MAX_CLIENTS_ID < nextClientId_udp R")
          (auto simp: registerClient_def result_simps Let_def intro: full_udp udp)
    next
      case (Some c)
      with p assms show ?thesis by (intro duplicate_udp) (simp_all add: registerClient_def)
    qed
  next
    case p: tcp
    show ?thesis
    proof (cases "map_of (clientMapTcp R) pid")
      case None
      with p assms show ?thesis
        by (cases "MAX_CLIENTS_ID < nextClientId_tcp R")
          (auto simp: registerClient_def result_simps Let_def intro: full_tcp tcp)
    next
      case (Some c)
      with p assms show ?thesis by (intro duplicate_tcp) (simp_all add: registerClient_def)
    qed
  qed
qed

lemma registry_ok_register:
  assumes "registry_ok R" and "registerClient pid proto address fd now R = Inr (cid, R')"
  shows "registry_ok R'"
  using assms(2)
proof (cases rule: registerClient_cases)
  case udp
  have "table_ok ''UDP'' (om_assign pid (new_client cid ''UDP'' address fd now) (clientMapUdp R)) (cid + 1)"
    using assms(1) udp(3,4) by (intro table_ok_assign) (simp_all add: registry_ok_def)
  with assms(1) udp show ?thesis by (simp add: registry_ok_def)
next
  case tcp
  have "table_ok ''TCP'' (om_assign pid (new_client cid ''TCP'' address fd now) (clientMapTcp R)) (cid + 1)"
    using assms(1) tcp(3,4) by (intro table_ok_assign) (simp_all add: registry_ok_def)
  with assms(1) tcp show ?thesis by (simp add: registry_ok_def)
qed (use assms(1) in \<open>simp_all add: registry_ok_def table_ok_skip\<close>)

section \<open>Lookup\<close>

text \<open>The table and the counter of a protocol.\<close>

definition client_table :: "string \<Rightarrow> registry \<Rightarrow> client_map" where
  "client_table proto R = (if proto = ''UDP'' then clientMapUdp R else clientMapTcp R)"

definition next_id :: "string \<Rightarrow> registry \<Rightarrow> int" where
  "next_id proto R = (if proto = ''UDP'' then nextClientId_udp R else nextClientId_tcp R)"

definition known_protocol :: "string \<Rightarrow> bool" where
  "known_protocol proto \<longleftrightarrow> proto = ''UDP'' \<or> proto = ''TCP''"

lemma protocol_letters [simp]:
  "c_toupper CHR ''u'' = CHR ''U''" "c_toupper CHR ''d'' = CHR ''D''" "c_toupper CHR ''p'' = CHR ''P''"
  "c_toupper CHR ''t'' = CHR ''T''" "c_toupper CHR ''c'' = CHR ''C''"
  "c_toupper CHR ''U'' = CHR ''U''" "c_toupper CHR ''D'' = CHR ''D''" "c_toupper CHR ''P'' = CHR ''P''"
  "c_toupper CHR ''T'' = CHR ''T''" "c_toupper CHR ''C'' = CHR ''C''"
  "c_tolower CHR ''U'' = CHR ''u''" "c_tolower CHR ''D'' = CHR ''d''" "c_tolower CHR ''P'' = CHR ''p''"
  "c_tolower CHR ''T'' = CHR ''t''" "c_tolower CHR ''C'' = CHR ''c''"
  by code_simp+

lemma known_protocol_upper: "known_protocol proto \<Longrightarrow> map c_toupper proto = proto"
  by (auto simp: known_protocol_def)

lemma registry_okD: "\<lbrakk>registry_ok R; known_protocol proto\<rbrakk> \<Longrightarrow> table_ok proto (client_table proto R) (next_id proto R)"
  by (auto simp: registry_ok_def known_protocol_def client_table_def next_id_def)

lemma findClientById_scan:
  "findClientById i proto R = (let p = map c_toupper proto in
     if known_protocol p then first_value (\<lambda>c. client_id c = i) (client_table p R) else None)"
  by (auto simp: findClientById_def known_protocol_def client_table_def Let_def)

lemma findClientById_entry:
  assumes ok: "registry_ok R" and p: "known_protocol (map c_toupper proto)"
  shows "findClientById i proto R = Some c \<longleftrightarrow>
     (\<exists>k. map_of (client_table (map c_toupper proto) R) k = Some c \<and> client_id c = i)"
proof -
  let ?m = "client_table (map c_toupper proto) R"
  note t = registry_okD[OF ok p]
  have eq: "findClientById i proto R = first_value (\<lambda>c. client_id c = i) ?m"
    using p by (simp add: findClientById_scan)
  show ?thesis
  proof
    assume "findClientById i proto R = Some c"
    with om.scan_sound[OF table_okD(1)[OF t]]
    show "\<exists>k. map_of ?m k = Some c \<and> client_id c = i" by (auto simp: eq)
  next
    assume "\<exists>k. map_of ?m k = Some c \<and> client_id c = i"
    then obtain k where k: "map_of ?m k = Some c" "client_id c = i" by blast
    have "c' = c" if "map_of ?m k' = Some c'" "client_id c' = i" for k' c'
      using table_okD(5)[OF t that(1) k(1)] that k by simp
    then have "first_value (\<lambda>c. client_id c = i) ?m = Some c"
      by (intro om.scan_unique[OF table_okD(1)[OF t] k(1)]) (simp_all add: k(2))
    then show "findClientById i proto R = Some c" by (simp add: eq)
  qed
qed

lemma findClientById_None:
  assumes "registry_ok R" and "known_protocol (map c_toupper proto)"
    and "\<And>k c. map_of (client_table (map c_toupper proto) R) k = Some c \<Longrightarrow> client_id c \<noteq> i"
  shows "findClientById i proto R = None"
  using findClientById_entry[OF assms(1,2)] assms(3) by (metis not_None_eq)

text \<open>Two registries with the same entries for a number find the same client for it.\<close>

lemma findClientById_same:
  assumes "registry_ok R" and "registry_ok R'" and "known_protocol p"
    and "\<And>k c. client_id c = i \<Longrightarrow>
      map_of (client_table p R') k = Some c \<longleftrightarrow> map_of (client_table p R) k = Some c"
  shows "findClientById i p R' = findClientById i p R"
proof -
  have "findClientById i p R' = Some c \<longleftrightarrow> findClientById i p R = Some c" for c
    using assms by (auto simp: findClientById_entry known_protocol_upper)
  then show ?thesis by (metis not_None_eq)
qed

text \<open>A registration, table by table.\<close>

lemma registerClient_table:
  assumes "registry_ok R" and "known_protocol proto" and "next_id proto R < INT_MAX"
  shows "\<exists>cid R'. registerClient pid proto address fd now R = Inr (cid, R')
    \<and> (if map_of (client_table proto R) pid = None \<and> next_id proto R \<le> MAX_CLIENTS_ID
       then cid = next_id proto R
         \<and> (\<forall>p. known_protocol p \<longrightarrow> client_table p R' = (if p = proto
              then om_assign pid (new_client cid proto address fd now) (client_table p R) else client_table p R))
       else cid = - 1 \<and> (\<forall>p. client_table p R' = client_table p R))"
proof -
  have "in_int32 (next_id proto R + 1)"
    using assms(3) table_okD(2)[OF registry_okD[OF assms(1,2)]] by (simp add: in_int32_def)
  then show ?thesis
    using assms(2) unfolding known_protocol_def
    by (elim disjE; cases "map_of (client_table proto R) pid"; cases "next_id proto R \<le> MAX_CLIENTS_ID")
      (simp_all add: registerClient_def client_table_def next_id_def known_protocol_def int32_add_def Let_def)
qed

text \<open>A registration only adds an entry.\<close>

lemma registerClient_keeps_entries:
  assumes "registry_ok R" and "registerClient pid proto address fd now R = Inr (cid, R')"
    and "map_of (client_table p R) k = Some c"
  shows "map_of (client_table p R') k = Some c"
  using assms(2)
proof (cases rule: registerClient_cases)
  case udp
  have "om_ok (clientMapUdp R)" using assms(1) by (auto simp: registry_ok_def dest: table_okD(1))
  with udp assms(3) show ?thesis by (auto simp: client_table_def map_of_om_assign)
next
  case tcp
  have "om_ok (clientMapTcp R)" using assms(1) by (auto simp: registry_ok_def dest: table_okD(1))
  with tcp assms(3) show ?thesis by (auto simp: client_table_def map_of_om_assign)
qed (use assms(3) in \<open>auto simp: client_table_def split: if_splits\<close>)

lemma registerClient_keeps_client:
  assumes "registry_ok R" and "registerClient pid proto address fd now R = Inr (cid, R')"
    and "known_protocol p" and "findClientById i p R = Some c"
  shows "findClientById i p R' = Some c"
proof -
  have p: "known_protocol (map c_toupper p)" using assms(3) by (simp add: known_protocol_upper)
  from assms(4) obtain k where "map_of (client_table (map c_toupper p) R) k = Some c" "client_id c = i"
    by (auto simp: findClientById_entry[OF assms(1) p])
  with registerClient_keeps_entries[OF assms(1,2)] show ?thesis
    by (auto simp: findClientById_entry[OF registry_ok_register[OF assms(1,2)] p])
qed

lemma registerClient_other_tcp:
  assumes "registry_ok R" and "registerClient pid proto address fd now R = Inr (cid, R')"
    and "map_of (clientMapTcp R') k = Some c"
  shows "map_of (clientMapTcp R) k = Some c \<or> (proto = ''TCP'' \<and> k = pid \<and> socket_fd c = fd)"
  using assms(2)
proof (cases rule: registerClient_cases)
  case tcp
  have "om_ok (clientMapTcp R)" using assms(1) by (auto simp: registry_ok_def dest: table_okD(1))
  with tcp assms(3) show ?thesis by (auto simp: map_of_om_assign split: if_splits)
qed (use assms(3) in simp_all)

lemma cleanup_erases:
  assumes "registry_ok R" and "findClientById i ''UDP'' R = Some c"
    and "last_seen c + timeout_s * NANOS_PER_SECOND < now"
  shows "findClientById i ''UDP'' (cleanupInactiveUdpClients timeout_s now R) = None"
proof (rule findClientById_None[OF registry_ok_cleanup[OF assms(1)]])
  have up: "map c_toupper ''UDP'' = ''UDP''" and kp: "known_protocol ''UDP''" by (simp_all add: known_protocol_def)
  then show "known_protocol (map c_toupper ''UDP'')" by simp
  from assms(2) obtain k0 where k0: "map_of (clientMapUdp R) k0 = Some c" "client_id c = i"
    using findClientById_entry[OF assms(1), of "''UDP''" i c] kp by (auto simp: client_table_def)
  have t: "table_ok ''UDP'' (clientMapUdp R) (nextClientId_udp R)" using assms(1) by (simp add: registry_ok_def)
  fix k c' assume "map_of (client_table (map c_toupper ''UDP'') (cleanupInactiveUdpClients timeout_s now R)) k = Some c'"
  then have "map_of (erase_inactive now (timeout_s * NANOS_PER_SECOND) (clientMapUdp R)) k = Some c'"
    by (simp add: client_table_def cleanupInactiveUdpClients_def)
  then have c': "map_of (clientMapUdp R) k = Some c'" "now - last_seen c' \<le> timeout_s * NANOS_PER_SECOND"
    by (simp_all add: map_of_erase_inactive[OF table_okD(1)[OF t]] split: option.splits if_splits)
  show "client_id c' \<noteq> i"
  proof
    assume "client_id c' = i"
    with table_okD(5)[OF t c'(1) k0(1)] k0 c'(1) have "c' = c" by simp
    with c'(2) assms(3) show False by simp
  qed
qed

section \<open>Properties\<close>


text \<open>
  The clean-up removes exactly the UDP clients that registered more than the timeout ago, and no
  TCP client.
\<close>

theorem cleanup_removes_inactive:
  assumes "registry_ok R"
  shows "findClientById i ''UDP'' (cleanupInactiveUdpClients timeout_s now R) =
      (case findClientById i ''UDP'' R of None \<Rightarrow> None
       | Some c \<Rightarrow> if now - last_seen c \<le> timeout_s * 1000000000 then Some c else None)
    \<and> findClientById i ''TCP'' (cleanupInactiveUdpClients timeout_s now R) = findClientById i ''TCP'' R"
proof -
  let ?R = "cleanupInactiveUdpClients timeout_s now R"
  note ok = assms registry_ok_cleanup[OF assms, of timeout_s now]
  have "om_ok (clientMapUdp R)" using assms by (auto simp: registry_ok_def dest: table_okD(1))
  note tab = map_of_erase_inactive[OF this]
  have entry: "findClientById i ''UDP'' R0 = Some c \<longleftrightarrow> (\<exists>k. map_of (clientMapUdp R0) k = Some c \<and> client_id c = i)"
    if "registry_ok R0" for R0 c
    using findClientById_entry[OF that, of "''UDP''" i c] by (simp add: known_protocol_def client_table_def)
  have "findClientById i ''UDP'' ?R = Some c \<longleftrightarrow>
      findClientById i ''UDP'' R = Some c \<and> now - last_seen c \<le> timeout_s * 1000000000" for c
    unfolding entry[OF ok(1)] entry[OF ok(2)]
    by (auto simp: cleanupInactiveUdpClients_def NANOS_PER_SECOND_def tab split: option.splits if_splits)
  then have "findClientById i ''UDP'' ?R = (case findClientById i ''UDP'' R of None \<Rightarrow> None
       | Some c \<Rightarrow> if now - last_seen c \<le> timeout_s * 1000000000 then Some c else None)"
    by (rule option_guardI)
  moreover have "findClientById i ''TCP'' ?R = findClientById i ''TCP'' R"
    by (simp add: findClientById_def cleanupInactiveUdpClients_def)
  ultimately show ?thesis ..
qed

text \<open>Any sequence of the operations on the tables, with the numbers it gives away.\<close>

datatype registry_op =
    Register int string sockaddr_in int int
  | Cleanup int int
  | Disconnect int

fun run_registry :: "registry_op list \<Rightarrow> registry \<Rightarrow> ((string \<times> int) list \<times> registry) result" where
  "run_registry [] R = Inr ([], R)"
| "run_registry (Register pid proto address fd now # ops) R =
     rbind (registerClient pid proto address fd now R) (\<lambda>(cid, R).
     rbind (run_registry ops R) (\<lambda>(ids, R).
     Inr (if cid = - 1 then ids else (proto, cid) # ids, R)))"
| "run_registry (Cleanup timeout_s now # ops) R = run_registry ops (cleanupInactiveUdpClients timeout_s now R)"
| "run_registry (Disconnect pid # ops) R = run_registry ops (erase_tcp pid R)"

definition ids_of :: "string \<Rightarrow> (string \<times> int) list \<Rightarrow> int list" where
  "ids_of proto log = map snd (filter (\<lambda>e. fst e = proto) log)"

lemma next_id_removals [simp]:
  "next_id p (cleanupInactiveUdpClients t now R) = next_id p R" "next_id p (erase_tcp pid R) = next_id p R"
  by (simp_all add: next_id_def cleanupInactiveUdpClients_def erase_tcp_def)

lemma register_next_id:
  assumes "registry_ok R" and "registerClient pid proto address fd now R = Inr (cid, R')"
  shows "next_id p R \<le> next_id p R'"
    and "cid \<noteq> - 1 \<Longrightarrow> known_protocol proto \<and> cid = next_id proto R \<and> cid < next_id proto R' \<and> cid \<le> MAX_CLIENTS_ID"
  using assms(2) by (cases rule: registerClient_cases; simp add: next_id_def known_protocol_def)+

lemma run_registry_ids:
  assumes "registry_ok R" and "run_registry ops R = Inr (log, R')"
  shows "registry_ok R' \<and> sorted_wrt (<) (ids_of p log)
    \<and> (\<forall>i \<in> set (ids_of p log). next_id p R \<le> i \<and> i \<le> MAX_CLIENTS_ID)"
  using assms
proof (induction ops R arbitrary: log rule: run_registry.induct)
  case (2 pid proto address fd now ops R)
  from 2(3) obtain cid R1 log1 where reg: "registerClient pid proto address fd now R = Inr (cid, R1)"
    and run: "run_registry ops R1 = Inr (log1, R')" and log: "log = (if cid = - 1 then log1 else (proto, cid) # log1)"
    by (auto simp: rbind_eq_Inr)
  have ok: "registry_ok R1" by (rule registry_ok_register[OF 2(2) reg])
  have IH: "registry_ok R' \<and> sorted_wrt (<) (ids_of p log1)
      \<and> (\<forall>i \<in> set (ids_of p log1). next_id p R1 \<le> i \<and> i \<le> MAX_CLIENTS_ID)"
    using "2.IH"[OF reg refl ok run] .
  show ?case
  proof (cases "cid = - 1")
    case True
    with IH log register_next_id(1)[OF 2(2) reg, of p] show ?thesis by fastforce
  next
    case False
    note new = register_next_id(2)[OF 2(2) reg False]
    show ?thesis
    proof (cases "proto = p")
      case True
      then have ids: "ids_of p log = cid # ids_of p log1" using log False by (simp add: ids_of_def)
      from IH new True have "cid < i" if "i \<in> set (ids_of p log1)" for i using that by fastforce
      with IH new True show ?thesis unfolding ids by fastforce
    next
      case False
      then have "ids_of p log = ids_of p log1" using log by (simp add: ids_of_def)
      with IH register_next_id(1)[OF 2(2) reg, of p] show ?thesis by fastforce
    qed
  qed
qed (simp_all add: ids_of_def registry_ok_cleanup registry_ok_erase_tcp)

text \<open>
  C11: a number is never given away twice: over any sequence of registrations, clean-ups and
  disconnections the numbers of a protocol increase strictly from its counter and never exceed 10000.
  Once the counter has passed 10000 no registration succeeds any more, however many clients have
  left.
\<close>

theorem client_ids_never_reused:
  assumes "registry_ok R" and "run_registry ops R = Inr (log, R')"
  shows "registry_ok R' \<and> sorted_wrt (<) (ids_of p log)
    \<and> (\<forall>i \<in> set (ids_of p log). next_id p R \<le> i \<and> i \<le> 10000)
    \<and> (10000 < next_id p R \<longrightarrow> ids_of p log = [])"
proof -
  from run_registry_ids[OF assms, of p] have ids: "registry_ok R'" "sorted_wrt (<) (ids_of p log)"
    and range: "\<And>i. i \<in> set (ids_of p log) \<Longrightarrow> next_id p R \<le> i \<and> i \<le> 10000"
    by (auto simp: MAX_CLIENTS_ID_def)
  have "ids_of p log = []" if "10000 < next_id p R"
  proof (rule ccontr)
    assume "ids_of p log \<noteq> []"
    then have "hd (ids_of p log) \<in> set (ids_of p log)" by simp
    from range[OF this] that show False by simp
  qed
  with ids range show ?thesis by blast
qed

section \<open>Witnesses\<close>

definition sample_addr :: "nat \<Rightarrow> sockaddr_in" where
  "sample_addr port = \<lparr>sin_addr = word_of_nat 2130706433, sin_port = word_of_nat port\<rparr>"

definition sample_registry :: registry where
  "sample_registry = empty_registry
     \<lparr>clientMapUdp := [(77, new_client 1 ''UDP'' (sample_addr 5000) 0 5)], nextClientId_udp := 2\<rparr>"

lemma sample_registered:
  "registerClient 77 ''UDP'' (sample_addr 5000) 0 5 empty_registry = Inr (1, sample_registry)"
  by (simp add: registerClient_def empty_registry_def sample_registry_def int32_add_def in_int32_def
      MAX_CLIENTS_ID_def Let_def)

lemma sample_registry_ok: "registry_ok sample_registry"
  by (rule registry_ok_register[OF registry_ok_empty sample_registered])


theorem cleanup_removes_inactive_witness:
  "findClientById 1 ''UDP'' (cleanupInactiveUdpClients 60 60000000006 sample_registry) = None
   \<and> findClientById 1 ''UDP'' (cleanupInactiveUdpClients 60 60000000005 sample_registry) \<noteq> None"
proof -
  have "findClientById 1 ''UDP'' sample_registry = Some (new_client 1 ''UDP'' (sample_addr 5000) 0 5)"
    by (simp add: findClientById_def sample_registry_def)
  then show ?thesis
    using cleanup_removes_inactive[OF sample_registry_ok, of 1 60 60000000006]
      cleanup_removes_inactive[OF sample_registry_ok, of 1 60 60000000005] by simp
qed

theorem client_ids_never_reused_witness:
  "\<exists>log R'. run_registry [Cleanup 60 70000000000, Register 77 ''UDP'' (sample_addr 5000) 0 70000000001]
     sample_registry = Inr (log, R') \<and> (\<forall>i \<in> set (ids_of ''UDP'' log). 2 \<le> i) \<and> ids_of ''UDP'' log \<noteq> []"
proof -
  let ?ops = "[Cleanup 60 70000000000, Register 77 ''UDP'' (sample_addr 5000) 0 70000000001]"
  let ?run = "run_registry ?ops sample_registry"
  have "\<exists>log R'. ?run = Inr (log, R') \<and> ids_of ''UDP'' log \<noteq> []"
    by (simp add: cleanupInactiveUdpClients_def sample_registry_def empty_registry_def registerClient_def
        int32_add_def in_int32_def MAX_CLIENTS_ID_def NANOS_PER_SECOND_def ids_of_def Let_def)
  then obtain log R' where run: "?run = Inr (log, R')" "ids_of ''UDP'' log \<noteq> []" by blast
  from client_ids_never_reused[OF sample_registry_ok run(1), of "''UDP''"] run show ?thesis
    by (simp add: next_id_def sample_registry_def)
qed

end
