(* ===== verification/Json_Api.thy ===== *)
theory Json_Api
  imports Cpp_Text
begin

text \<open>
  JsonCpp is a package the sources link against, not part of them.  Its \<open>Json::Value\<close> is a type
  parameter \<open>'j\<close> and its operations are the fields of a record, a parameter of every definition
  that handles JSON.  \<open>jsoncpp_ok\<close> collects the documented behaviour the server relies on.
\<close>

section \<open>The operations the server calls\<close>

text \<open>
  \<open>jv_index\<close> is \<open>operator[]\<close> used for reading (null for a missing key, an exception on a value
  that is neither null nor an object); \<open>jv_assign v k x\<close> is the value of \<open>v\<close> after
  \<open>v[k] = x\<close>; \<open>jv_parse\<close> takes the \<open>collectComments\<close> setting and the text and may throw
  (nesting limit); \<open>jv_write\<close> takes the \<open>indentation\<close> setting, \<open>None\<close> being the default one.
\<close>

record 'j jsoncpp =
  jv_null :: 'j
  jv_int :: "int \<Rightarrow> 'j"
  jv_str :: "string \<Rightarrow> 'j"
  jv_index :: "'j \<Rightarrow> string \<Rightarrow> 'j result"
  jv_assign :: "'j \<Rightarrow> string \<Rightarrow> 'j \<Rightarrow> 'j result"
  jv_isNull :: "'j \<Rightarrow> bool"
  jv_isObject :: "'j \<Rightarrow> bool"
  jv_isMember :: "'j \<Rightarrow> string \<Rightarrow> bool result"
  jv_asString :: "'j \<Rightarrow> string result"
  jv_asInt :: "'j \<Rightarrow> int result"
  jv_parse :: "bool \<Rightarrow> string \<Rightarrow> 'j option result"
  jv_write :: "string option \<Rightarrow> 'j \<Rightarrow> string"

definition jsoncpp_ok :: "'j jsoncpp \<Rightarrow> bool" where
  "jsoncpp_ok J \<longleftrightarrow>
     jv_isNull J (jv_null J)
   \<and> (\<forall>k. jv_index J (jv_null J) k = Inr (jv_null J))
   \<and> jv_asString J (jv_null J) = Inr []
   \<and> (\<forall>s. jv_asString J (jv_str J s) = Inr s)
   \<and> (\<forall>n. in_int32 n \<longrightarrow> jv_asInt J (jv_int J n) = Inr n)
   \<and> (\<forall>v n. jv_asInt J v = Inr n \<longrightarrow> in_int32 n)
   \<and> (\<forall>v k x. jv_isNull J v \<or> jv_isObject J v \<longrightarrow>
        (\<exists>v'. jv_assign J v k x = Inr v' \<and> jv_isObject J v' \<and> jv_index J v' k = Inr x
            \<and> (\<forall>k'. k' \<noteq> k \<longrightarrow> jv_index J v' k' = jv_index J v k')))"

lemma jsoncpp_okD:
  assumes "jsoncpp_ok J"
  shows "jv_isNull J (jv_null J)"
    and "jv_index J (jv_null J) k = Inr (jv_null J)"
    and "jv_asString J (jv_null J) = Inr []"
    and "jv_asString J (jv_str J s) = Inr s"
    and "in_int32 n \<Longrightarrow> jv_asInt J (jv_int J n) = Inr n"
    and "jv_asInt J v = Inr m \<Longrightarrow> in_int32 m"
  using assms unfolding jsoncpp_ok_def by blast+

lemma jv_assign_ok:
  assumes "jsoncpp_ok J" and "jv_isNull J v \<or> jv_isObject J v"
  obtains v' where "jv_assign J v k x = Inr v'" and "jv_isObject J v'" and "jv_index J v' k = Inr x"
    and "\<And>k'. k' \<noteq> k \<Longrightarrow> jv_index J v' k' = jv_index J v k'"
  using assms unfolding jsoncpp_ok_def by blast

section \<open>Reading through a path\<close>

text \<open>\<open>v["a"]["b"].asString()\<close> is a chain of \<open>operator[]\<close> calls, any of which may throw.\<close>

fun json_path :: "'j jsoncpp \<Rightarrow> 'j \<Rightarrow> string list \<Rightarrow> 'j result" where
  "json_path J v [] = Inr v"
| "json_path J v (k # ks) = rbind (jv_index J v k) (\<lambda>w. json_path J w ks)"

definition json_string :: "'j jsoncpp \<Rightarrow> 'j \<Rightarrow> string list \<Rightarrow> string result" where
  "json_string J v ks = rbind (json_path J v ks) (jv_asString J)"

definition json_int :: "'j jsoncpp \<Rightarrow> 'j \<Rightarrow> string list \<Rightarrow> int result" where
  "json_int J v ks = rbind (json_path J v ks) (jv_asInt J)"

lemma json_path_append:
  "json_path J v (ks @ ls) = rbind (json_path J v ks) (\<lambda>w. json_path J w ls)"
proof (induction ks arbitrary: v)
  case (Cons k ks)
  then show ?case by (cases "jv_index J v k") simp_all
qed simp

text \<open>One step of a path of at least two keys; the last step stays folded.\<close>

lemma json_string_step: "json_string J v (k # k' # ks) = rbind (jv_index J v k) (\<lambda>w. json_string J w (k' # ks))"
  by (cases "jv_index J v k") (simp_all add: json_string_def)

lemma json_int_step: "json_int J v (k # k' # ks) = rbind (jv_index J v k) (\<lambda>w. json_int J w (k' # ks))"
  by (cases "jv_index J v k") (simp_all add: json_int_def)

lemmas json_steps = json_string_step json_int_step

lemma json_int_range: "\<lbrakk>jsoncpp_ok J; json_int J v ks = Inr n\<rbrakk> \<Longrightarrow> in_int32 n"
  by (auto simp: json_int_def result_simps dest: jsoncpp_okD(6))

lemma json_path_null: "jsoncpp_ok J \<Longrightarrow> json_path J (jv_null J) ks = Inr (jv_null J)"
  by (induction ks) (simp_all add: jsoncpp_okD)

lemma json_string_null: "jsoncpp_ok J \<Longrightarrow> json_string J (jv_null J) ks = Inr []"
  by (simp add: json_string_def json_path_null jsoncpp_okD)

section \<open>Orders\<close>

text \<open>
  The fields of a request in the format of \<open>config/request_format.json\<close> that the server reads.
  \<open>order_reads J root o\<close>: every read the server makes of \<open>root\<close> succeeds and yields the fields of
  \<open>o\<close>; the location is a number whose text \<open>std::stoi\<close> reads back.
\<close>

record order =
  o_source_type :: string
  o_source_location :: int
  o_destination_type :: string
  o_destination_location :: int
  o_action_type :: string
  o_product_id :: string
  o_product_name :: string
  o_quantity :: int

abbreviation p_source :: "string \<Rightarrow> string list" where
  "p_source f \<equiv> [''general_info'', ''source'', f]"
abbreviation p_destination :: "string \<Rightarrow> string list" where
  "p_destination f \<equiv> [''general_info'', ''destination'', f]"
abbreviation p_action :: "string \<Rightarrow> string list" where
  "p_action f \<equiv> [''general_info'', ''action'', f]"
abbreviation p_product :: "string \<Rightarrow> string list" where
  "p_product f \<equiv> [''general_info'', ''action'', ''product'', f]"
abbreviation p_metadata :: "string \<Rightarrow> string list" where
  "p_metadata f \<equiv> [''general_info'', ''metadata'', f]"

definition present :: "'j jsoncpp \<Rightarrow> 'j \<Rightarrow> string list \<Rightarrow> bool" where
  "present J root ks \<longleftrightarrow> (case json_path J root ks of Inl _ \<Rightarrow> False | Inr v \<Rightarrow> \<not> jv_isNull J v)"

definition order_reads :: "'j jsoncpp \<Rightarrow> 'j \<Rightarrow> order \<Rightarrow> bool" where
  "order_reads J root r \<longleftrightarrow>
     present J root [''general_info'']
   \<and> present J root [''general_info'', ''destination'']
   \<and> present J root [''general_info'', ''action'']
   \<and> present J root [''general_info'', ''action'', ''product'']
   \<and> rbind (json_path J root [''general_info'', ''action'']) (\<lambda>a. jv_isMember J a ''product'') = Inr True
   \<and> json_string J root (p_source ''type'') = Inr (o_source_type r)
   \<and> json_int J root (p_source ''location'') = Inr (o_source_location r)
   \<and> json_string J root (p_source ''location'') = Inr (to_string (o_source_location r))
   \<and> json_string J root (p_destination ''type'') = Inr (o_destination_type r)
   \<and> json_int J root (p_destination ''location'') = Inr (o_destination_location r)
   \<and> json_string J root (p_action ''type'') = Inr (o_action_type r)
   \<and> json_string J root (p_product ''id'') = Inr (o_product_id r)
   \<and> json_string J root (p_product ''name'') = Inr (o_product_name r)
   \<and> json_int J root (p_product ''quantity'') = Inr (o_quantity r)
   \<and> in_int32 (o_source_location r) \<and> in_int32 (o_destination_location r) \<and> in_int32 (o_quantity r)"

lemma order_readsD:
  assumes "order_reads J root r"
  shows "json_string J root (p_source ''type'') = Inr (o_source_type r)"
    and "json_int J root (p_source ''location'') = Inr (o_source_location r)"
    and "json_string J root (p_source ''location'') = Inr (to_string (o_source_location r))"
    and "json_string J root (p_destination ''type'') = Inr (o_destination_type r)"
    and "json_int J root (p_destination ''location'') = Inr (o_destination_location r)"
    and "json_string J root (p_action ''type'') = Inr (o_action_type r)"
    and "json_string J root (p_product ''id'') = Inr (o_product_id r)"
    and "json_string J root (p_product ''name'') = Inr (o_product_name r)"
    and "json_int J root (p_product ''quantity'') = Inr (o_quantity r)"
    and "in_int32 (o_source_location r)"
    and "in_int32 (o_destination_location r)"
    and "in_int32 (o_quantity r)"
  using assms unfolding order_reads_def by blast+

lemma order_reads_nodes:
  assumes "order_reads J root r"
  obtains g s d a p where "jv_index J root ''general_info'' = Inr g" "\<not> jv_isNull J g"
    and "jv_index J g ''source'' = Inr s"
    and "jv_index J g ''destination'' = Inr d" "\<not> jv_isNull J d"
    and "jv_index J g ''action'' = Inr a" "\<not> jv_isNull J a"
    and "jv_index J a ''product'' = Inr p" "\<not> jv_isNull J p"
    and "jv_isMember J a ''product'' = Inr True"
proof -
  from assms have r: "present J root [''general_info'']"
    "present J root [''general_info'', ''destination'']"
    "present J root [''general_info'', ''action'']"
    "present J root [''general_info'', ''action'', ''product'']"
    "rbind (json_path J root [''general_info'', ''action'']) (\<lambda>a. jv_isMember J a ''product'') = Inr True"
    "json_string J root (p_source ''type'') = Inr (o_source_type r)"
    unfolding order_reads_def by blast+
  show ?thesis
    using r that by (auto simp: present_def json_string_def rbind_eq_Inr split: sum.splits)
qed

end
