(* ===== verification/Json_Sample.thy ===== *)
theory Json_Sample
  imports Json_Api
begin

text \<open>
  A concrete value for the JsonCpp parameter, on which the hypotheses about it are evaluated in
  the witnesses.  Documents are trees; the parser knows a finite list of texts.
\<close>

datatype sample_json =
    SNull
  | SInt int
  | SStr string
  | SObj "(string \<times> sample_json) list"

fun sample_index :: "sample_json \<Rightarrow> string \<Rightarrow> sample_json result" where
  "sample_index SNull k = Inr SNull"
| "sample_index (SObj ms) k = (case map_of ms k of None \<Rightarrow> Inr SNull | Some v \<Rightarrow> Inr v)"
| "sample_index _ k = Inl Json_LogicError"

fun sample_assign :: "sample_json \<Rightarrow> string \<Rightarrow> sample_json \<Rightarrow> sample_json result" where
  "sample_assign SNull k x = Inr (SObj [(k, x)])"
| "sample_assign (SObj ms) k x = Inr (SObj ((k, x) # ms))"
| "sample_assign _ k x = Inl Json_LogicError"

fun sample_isMember :: "sample_json \<Rightarrow> string \<Rightarrow> bool result" where
  "sample_isMember SNull k = Inr False"
| "sample_isMember (SObj ms) k = Inr (map_of ms k \<noteq> None)"
| "sample_isMember _ k = Inl Json_LogicError"

fun sample_asString :: "sample_json \<Rightarrow> string result" where
  "sample_asString SNull = Inr []"
| "sample_asString (SInt n) = Inr (to_string n)"
| "sample_asString (SStr s) = Inr s"
| "sample_asString (SObj _) = Inl Json_LogicError"

fun sample_asInt :: "sample_json \<Rightarrow> int result" where
  "sample_asInt SNull = Inr 0"
| "sample_asInt (SInt n) = (if in_int32 n then Inr n else Inl Json_LogicError)"
| "sample_asInt _ = Inl Json_LogicError"

fun sample_write :: "sample_json \<Rightarrow> string" where
  "sample_write SNull = ''null''"
| "sample_write (SInt n) = to_string n"
| "sample_write (SStr s) = ''\"'' @ s @ ''\"''"
| "sample_write (SObj ms) =
     ''{'' @ concat (map (\<lambda>(k, v). ''\"'' @ k @ ''\":'' @ sample_write v @ '','') ms) @ ''}''"

definition sample :: "(string \<times> sample_json) list \<Rightarrow> sample_json jsoncpp" where
  "sample docs = \<lparr>
     jv_null = SNull, jv_int = SInt, jv_str = SStr,
     jv_index = sample_index, jv_assign = sample_assign,
     jv_isNull = (\<lambda>v. v = SNull), jv_isObject = (\<lambda>v. case v of SObj _ \<Rightarrow> True | _ \<Rightarrow> False),
     jv_isMember = sample_isMember, jv_asString = sample_asString, jv_asInt = sample_asInt,
     jv_parse = (\<lambda>_ s. Inr (map_of docs s)), jv_write = (\<lambda>_. sample_write)\<rparr>"

lemma sample_ops [simp]:
  "jv_null (sample docs) = SNull" "jv_int (sample docs) = SInt" "jv_str (sample docs) = SStr"
  "jv_index (sample docs) = sample_index" "jv_assign (sample docs) = sample_assign"
  "jv_isNull (sample docs) v \<longleftrightarrow> v = SNull"
  "jv_isObject (sample docs) v \<longleftrightarrow> (case v of SObj _ \<Rightarrow> True | _ \<Rightarrow> False)"
  "jv_isMember (sample docs) = sample_isMember" "jv_asString (sample docs) = sample_asString"
  "jv_asInt (sample docs) = sample_asInt" "jv_parse (sample docs) c s = Inr (map_of docs s)"
  "jv_write (sample docs) i = sample_write"
  by (simp_all add: sample_def)

lemma sample_asInt_range: "sample_asInt v = Inr n \<Longrightarrow> in_int32 n"
  by (cases v) (auto simp: in_int32_def[of 0] split: if_splits)

lemma sample_assign_ok:
  "v = SNull \<or> (case v of SObj _ \<Rightarrow> True | _ \<Rightarrow> False) \<Longrightarrow>
   \<exists>v'. sample_assign v k x = Inr v' \<and> (case v' of SObj _ \<Rightarrow> True | _ \<Rightarrow> False)
      \<and> sample_index v' k = Inr x \<and> (\<forall>k'. k' \<noteq> k \<longrightarrow> sample_index v' k' = sample_index v k')"
  by (cases v) auto

lemma jsoncpp_ok_sample: "jsoncpp_ok (sample docs)"
  unfolding jsoncpp_ok_def sample_ops using sample_asInt_range sample_assign_ok by auto

text \<open>A request with the keys of \<open>config/request_format.json\<close>.\<close>

definition sample_order :: "string \<Rightarrow> int \<Rightarrow> string \<Rightarrow> int \<Rightarrow> string \<Rightarrow> string \<Rightarrow> string \<Rightarrow> int \<Rightarrow> sample_json" where
  "sample_order st sl dt dl act pid name q =
     SObj [(''general_info'', SObj
       [(''id'', SStr ''0''),
        (''source'', SObj [(''type'', SStr st), (''location'', SInt sl)]),
        (''destination'', SObj [(''type'', SStr dt), (''location'', SInt dl)]),
        (''action'', SObj
          [(''type'', SStr act),
           (''product'', SObj [(''id'', SStr pid), (''name'', SStr name), (''quantity'', SInt q)])]),
        (''metadata'', SObj
          [(''date'', SStr ''01-05-2025''), (''message'', SStr ''m''),
           (''priority'', SStr ''high''), (''protocol'', SStr ''TCP'')])])]"

definition sample_order_fields :: "string \<Rightarrow> int \<Rightarrow> string \<Rightarrow> int \<Rightarrow> string \<Rightarrow> string \<Rightarrow> string \<Rightarrow> int \<Rightarrow> order" where
  "sample_order_fields st sl dt dl act pid name q =
     \<lparr>o_source_type = st, o_source_location = sl, o_destination_type = dt,
      o_destination_location = dl, o_action_type = act, o_product_id = pid,
      o_product_name = name, o_quantity = q\<rparr>"

lemma order_reads_sample:
  "\<lbrakk>in_int32 sl; in_int32 dl; in_int32 q\<rbrakk> \<Longrightarrow>
   order_reads (sample docs) (sample_order st sl dt dl act pid name q)
     (sample_order_fields st sl dt dl act pid name q)"
  by (simp add: order_reads_def present_def json_string_def json_int_def sample_order_def
      sample_order_fields_def)

end
