(* ===== verification/Order_Storage.thy ===== *)
theory Order_Storage
  imports Json_Sample "HOL-Library.AList" "HOL-Library.Multiset"
begin

text \<open>
  \<open>orderStorage.cpp\<close>: the texts of all orders the server received and the quantity ordered of each
  product.  The mutex makes every function atomic.  The specification of the second table is a sum
  over the first.
\<close>

section \<open>The store\<close>

text \<open>
  \<open>productQuantities\<close> is an \<open>unordered_map\<close>: an association list with one entry per key, whose
  order means nothing.  Where the code iterates over it, the model takes the iteration order as an
  argument, a function that permutes the entries.
\<close>

record order_store =
  storedOrders :: "string list"
  productQuantities :: "(string \<times> int) list"

type_synonym iteration = "(string \<times> int) list \<Rightarrow> (string \<times> int) list"

definition iteration_ok :: "iteration \<Rightarrow> bool" where
  "iteration_ok iter \<longleftrightarrow> (\<forall>m. mset (iter m) = mset m)"

definition empty_store :: order_store where
  "empty_store = \<lparr>storedOrders = [], productQuantities = []\<rparr>"

text \<open>\<open>productQuantities[p]\<close>; a missing key reads as 0.\<close>

definition quantity_of :: "order_store \<Rightarrow> string \<Rightarrow> int" where
  "quantity_of st p = (case map_of (productQuantities st) p of None \<Rightarrow> 0 | Some n \<Rightarrow> n)"

text \<open>
  The text is stored before it is parsed, so it stays in the store when parsing fails or throws.
\<close>

definition storeOrder :: "'j jsoncpp \<Rightarrow> string \<Rightarrow> order_store \<Rightarrow> unit result \<times> order_store" where
  "storeOrder J json_str st =
     (let st = st\<lparr>storedOrders := storedOrders st @ [json_str]\<rparr>
      in case jv_parse J False json_str of
           Inl e \<Rightarrow> (Inl e, st)
         | Inr None \<Rightarrow> (Inr (), st)
         | Inr (Some root) \<Rightarrow>
             (case rbind (json_path J root [''general_info'', ''action'', ''product'']) (\<lambda>product.
                   rbind (json_string J product [''name'']) (\<lambda>productName.
                   rbind (json_int J product [''quantity'']) (\<lambda>qty.
                   if productName \<noteq> [] \<and> 0 < qty then
                     rbind (int32_add (quantity_of st productName) qty) (\<lambda>total.
                     Inr (AList.update productName total (productQuantities st)))
                   else Inr (productQuantities st)))) of
                Inl e \<Rightarrow> (Inl e, st)
              | Inr quantities \<Rightarrow> (Inr (), st\<lparr>productQuantities := quantities\<rparr>)))"

definition clearStoredOrders :: "order_store \<Rightarrow> order_store" where
  "clearStoredOrders st = st\<lparr>storedOrders := [], productQuantities := []\<rparr>"

section \<open>Listings\<close>

text \<open>What the two functions print.\<close>

definition printAllOrders :: "order_store \<Rightarrow> string" where
  "printAllOrders st =
     (if storedOrders st = [] then ''No orders stored yet.'' @ newline
      else ''Stored Orders:'' @ newline @
        concat (map (\<lambda>i. ''['' @ to_string (int i + 1) @ ''] '' @ storedOrders st ! i @ newline)
          [0..<length (storedOrders st)]))"

definition quantity_line :: "string \<times> int \<Rightarrow> string" where
  "quantity_line e = ''- '' @ fst e @ '': '' @ to_string (snd e) @ newline"

definition printProductReport :: "iteration \<Rightarrow> order_store \<Rightarrow> string" where
  "printProductReport iter st =
     (if productQuantities st = [] then ''No product data stored yet.'' @ newline
      else ''Product Quantity Report:'' @ newline @
        concat (map quantity_line (iter (productQuantities st))))"

section \<open>The totals\<close>

text \<open>
  What a text says: the product and the positive quantity it orders, or neither; and what it
  contributes to the total of a product.
\<close>

definition order_line :: "'j jsoncpp \<Rightarrow> string \<Rightarrow> (string \<times> int) option result" where
  "order_line J json_str =
     rbind (jv_parse J False json_str) (\<lambda>doc.
     case doc of None \<Rightarrow> Inr None | Some root \<Rightarrow>
     rbind (json_string J root (p_product ''name'')) (\<lambda>p.
     rbind (json_int J root (p_product ''quantity'')) (\<lambda>q.
     Inr (if p \<noteq> [] \<and> 0 < q then Some (p, q) else None))))"

definition contribution :: "'j jsoncpp \<Rightarrow> string \<Rightarrow> string \<Rightarrow> int" where
  "contribution J p json_str =
     (case order_line J json_str of Inr (Some (n, q)) \<Rightarrow> if n = p then q else 0 | _ \<Rightarrow> 0)"

definition total_ordered :: "'j jsoncpp \<Rightarrow> string \<Rightarrow> string list \<Rightarrow> int" where
  "total_ordered J p texts = sum_list (map (contribution J p) texts)"

text \<open>The invariant: the table of quantities is what the stored texts add up to.\<close>

definition store_ok :: "'j jsoncpp \<Rightarrow> order_store \<Rightarrow> bool" where
  "store_ok J st \<longleftrightarrow> distinct (map fst (productQuantities st))
     \<and> (\<forall>p n. (p, n) \<in> set (productQuantities st) \<longrightarrow> 0 < n \<and> in_int32 n)
     \<and> (\<forall>p. quantity_of st p = total_ordered J p (storedOrders st))"

section \<open>What storing does\<close>

lemma product_reads:
  "json_string J root (p_product f) =
     rbind (json_path J root [''general_info'', ''action'', ''product'']) (\<lambda>v. json_string J v [f])"
  "json_int J root (p_product f) =
     rbind (json_path J root [''general_info'', ''action'', ''product'']) (\<lambda>v. json_int J v [f])"
  using json_path_append[of J root "[''general_info'', ''action'', ''product'']" "[f]"]
  by (cases "json_path J root [''general_info'', ''action'', ''product'']";
      simp add: json_string_def json_int_def)+

lemma storeOrder_stored: "storedOrders (snd (storeOrder J s st)) = storedOrders st @ [s]"
  by (simp add: storeOrder_def Let_def split: sum.splits option.splits)

text \<open>A call in terms of what the text says.\<close>

lemma storeOrder_line:
  "storeOrder J s st = (let st = st\<lparr>storedOrders := storedOrders st @ [s]\<rparr> in
     case order_line J s of
       Inl e \<Rightarrow> (Inl e, st)
     | Inr None \<Rightarrow> (Inr (), st)
     | Inr (Some (p, q)) \<Rightarrow>
         if in_int32 (quantity_of st p + q) then
           (Inr (), st\<lparr>productQuantities := AList.update p (quantity_of st p + q) (productQuantities st)\<rparr>)
         else (Inl Signed_overflow, st))"
  by (cases "json_path J (the (projr (jv_parse J False s))) [''general_info'', ''action'', ''product'']")
    (auto simp: storeOrder_def order_line_def product_reads rbind_def Let_def int32_add_def int32_check_def
      quantity_of_def split: sum.splits option.splits if_splits)

lemma order_line_pos: "order_line J s = Inr (Some (p, q)) \<Longrightarrow> p \<noteq> [] \<and> 0 < q"
  by (auto simp: order_line_def rbind_eq_Inr split: option.splits if_splits)

lemma total_ordered_append: "total_ordered J p (xs @ ys) = total_ordered J p xs + total_ordered J p ys"
  by (simp add: total_ordered_def)

lemma contribution_nonneg: "0 \<le> contribution J p s"
  by (auto simp: contribution_def dest: order_line_pos split: sum.splits option.splits)

lemma total_ordered_nonneg: "0 \<le> total_ordered J p texts"
  unfolding total_ordered_def by (rule sum_list_nonneg) (auto simp: contribution_nonneg)

lemma set_alist_update: "e \<in> set (AList.update k v m) \<Longrightarrow> e = (k, v) \<or> e \<in> set m"
  by (induction m) (auto split: if_splits)

lemma store_ok_step:
  assumes ok: "store_ok J st" and run: "storeOrder J s st = (Inr (), st')"
  shows "store_ok J st'"
proof (cases "order_line J s")
  case (Inl e)
  with run show ?thesis by (simp add: storeOrder_line Let_def)
next
  case (Inr line)
  show ?thesis
  proof (cases line)
    case None
    with Inr run ok show ?thesis
      by (auto simp: storeOrder_line Let_def store_ok_def total_ordered_def contribution_def quantity_of_def)
  next
    case (Some e)
    obtain p q where e: "e = (p, q)" by (cases e)
    have q: "0 < q" using Inr Some e by (auto dest: order_line_pos)
    have pos: "0 \<le> quantity_of st p" using ok total_ordered_nonneg[of J p] by (simp add: store_ok_def)
    from run Inr Some e have fits: "in_int32 (quantity_of st p + q)"
      and st': "st' = st\<lparr>storedOrders := storedOrders st @ [s],
         productQuantities := AList.update p (quantity_of st p + q) (productQuantities st)\<rparr>"
      by (auto simp: storeOrder_line Let_def quantity_of_def split: if_splits)
    have "quantity_of st' x = quantity_of st x + contribution J x s" for x
      using Inr Some e by (simp add: st' quantity_of_def update_conv' contribution_def)
    then show ?thesis
      using ok pos q fits
      by (auto simp: store_ok_def st' distinct_update total_ordered_append total_ordered_def
          dest!: set_alist_update)
  qed
qed

text \<open>A product is listed with a positive quantity, its total, and only then.\<close>

lemma store_ok_entries:
  assumes "store_ok J st"
  shows "(p, n) \<in> set (productQuantities st) \<longleftrightarrow> 0 < n \<and> n = total_ordered J p (storedOrders st)"
proof -
  have d: "distinct (map fst (productQuantities st))" and pos: "\<And>m. (p, m) \<in> set (productQuantities st) \<Longrightarrow> 0 < m"
    and tot: "total_ordered J p (storedOrders st) = quantity_of st p"
    using assms by (auto simp: store_ok_def)
  have "map_of (productQuantities st) p = Some n \<longleftrightarrow> (p, n) \<in> set (productQuantities st)"
    using d by simp
  then show ?thesis
    using pos unfolding tot quantity_of_def
    by (cases "map_of (productQuantities st) p") (auto dest: map_of_SomeD)
qed

lemma no_entries_iff:
  assumes "store_ok J st"
  shows "productQuantities st = [] \<longleftrightarrow> (\<forall>p. total_ordered J p (storedOrders st) \<le> 0)"
proof
  assume none: "productQuantities st = []"
  have "total_ordered J p (storedOrders st) \<le> 0" for p
    using store_ok_entries[OF assms, of p "total_ordered J p (storedOrders st)"] none by simp
  then show "\<forall>p. total_ordered J p (storedOrders st) \<le> 0" ..
next
  assume none: "\<forall>p. total_ordered J p (storedOrders st) \<le> 0"
  have "(p, n) \<notin> set (productQuantities st)" for p n
    using store_ok_entries[OF assms, of p n] none by (meson not_le)
  then show "productQuantities st = []" by (metis list.set_intros(1) neq_Nil_conv surj_pair)
qed

lemma iterated_entries:
  assumes "store_ok J st" and "iteration_ok iter"
  shows "distinct (map fst (iter (productQuantities st)))"
    and "(p, n) \<in> set (iter (productQuantities st)) \<longleftrightarrow> 0 < n \<and> n = total_ordered J p (storedOrders st)"
proof -
  have perm: "mset (iter (productQuantities st)) = mset (productQuantities st)"
    using assms(2) by (simp add: iteration_ok_def)
  then have "mset (map fst (iter (productQuantities st))) = mset (map fst (productQuantities st))"
    by (simp only: mset_map)
  from mset_eq_imp_distinct_iff[OF this] show "distinct (map fst (iter (productQuantities st)))"
    using assms(1) by (simp add: store_ok_def)
  show "(p, n) \<in> set (iter (productQuantities st)) \<longleftrightarrow> 0 < n \<and> n = total_ordered J p (storedOrders st)"
    using mset_eq_setD[OF perm] store_ok_entries[OF assms(1)] by simp
qed

section \<open>Properties\<close>

text \<open>Orders stored one after the other, up to the first exception.\<close>

fun store_all :: "'j jsoncpp \<Rightarrow> string list \<Rightarrow> order_store \<Rightarrow> unit result \<times> order_store" where
  "store_all J [] st = (Inr (), st)"
| "store_all J (s # texts) st =
     (case storeOrder J s st of
        (Inl e, st) \<Rightarrow> (Inl e, st)
      | (Inr _, st) \<Rightarrow> store_all J texts st)"

lemma store_all_ok:
  "\<lbrakk>store_ok J st; store_all J texts st = (Inr (), st')\<rbrakk> \<Longrightarrow>
   store_ok J st' \<and> storedOrders st' = storedOrders st @ texts"
proof (induction texts arbitrary: st)
  case (Cons s texts)
  obtain st1 where first: "storeOrder J s st = (Inr (), st1)"
    and rest: "store_all J texts st1 = (Inr (), st')"
    using Cons.prems(2) by (auto split: prod.splits sum.splits)
  have "storedOrders st1 = storedOrders st @ [s]" using storeOrder_stored[of J s st] first by simp
  with Cons.IH[OF store_ok_step[OF Cons.prems(1) first] rest] show ?case by simp
qed simp

lemma store_ok_empty: "store_ok J empty_store"
  by (simp add: store_ok_def empty_store_def quantity_of_def total_ordered_def)

text \<open>
  C9: after any sequence of orders that raised no exception, the store holds their texts in the order
  of arrival, and the table of quantities lists exactly the products with a positive total, once
  each, with the sum of the positive quantities of all orders for the product.
\<close>

theorem store_all_totals:
  assumes "store_all J texts empty_store = (Inr (), st)"
  shows "storedOrders st = texts \<and> distinct (map fst (productQuantities st))
    \<and> (\<forall>p n. (p, n) \<in> set (productQuantities st) \<longleftrightarrow> 0 < n \<and> n = total_ordered J p texts)"
proof -
  from store_all_ok[OF store_ok_empty assms]
  have ok: "store_ok J st" and texts: "storedOrders st = texts" by (simp_all add: empty_store_def)
  then show ?thesis
    using store_ok_entries[OF ok] unfolding store_ok_def by auto
qed

text \<open>
  an order for a positive quantity of a product can be stored exactly as long as the total of
  the product stays within an \<open>int\<close>; past that the addition overflows.  The text is stored all the
  same.
\<close>

theorem storeOrder_total_fits:
  assumes "store_ok J st" and "order_line J s = Inr (Some (p, q))"
  shows "fst (storeOrder J s st) =
      (if total_ordered J p (storedOrders st) + q \<le> INT_MAX then Inr () else Inl Signed_overflow)
    \<and> storedOrders (snd (storeOrder J s st)) = storedOrders st @ [s]"
proof -
  have "quantity_of st p = total_ordered J p (storedOrders st)" using assms(1) by (simp add: store_ok_def)
  then show ?thesis
    using order_line_pos[OF assms(2)] total_ordered_nonneg[of J p "storedOrders st"] storeOrder_stored[of J s st]
    by (auto simp: storeOrder_line assms(2) Let_def quantity_of_def in_int32_def)
qed

section \<open>Witnesses\<close>

text \<open>Two orders of water and one that is no JSON document, sent as the texts A, B and C.\<close>

definition sample_texts :: "int \<Rightarrow> int \<Rightarrow> (string \<times> sample_json) list" where
  "sample_texts m n =
     [(''A'', sample_order ''warehouse'' 1 ''hub'' 2 ''request'' ''2'' ''Water'' m),
      (''B'', sample_order ''warehouse'' 1 ''hub'' 2 ''request'' ''2'' ''Water'' n)]"

lemma sample_line:
  "in_int32 m \<Longrightarrow> in_int32 n \<Longrightarrow> order_line (sample (sample_texts m n)) ''B'' =
     Inr (if 0 < n then Some (''Water'', n) else None)"
  by (simp add: order_line_def sample_texts_def sample_order_def json_string_def json_int_def)

theorem store_all_totals_witness:
  "\<exists>st. store_all (sample (sample_texts 50 20)) [''A'', ''C'', ''B''] empty_store = (Inr (), st)
     \<and> (''Water'', 70) \<in> set (productQuantities st)"
proof -
  let ?J = "sample (sample_texts 50 20)"
  let ?run = "store_all ?J [''A'', ''C'', ''B''] empty_store"
  have "fst ?run = Inr ()" by code_simp
  then have run: "?run = (Inr (), snd ?run)" by (cases ?run) simp
  have "total_ordered ?J ''Water'' [''A'', ''C'', ''B''] = 70" by code_simp
  with store_all_totals[OF run] have "(''Water'', 70) \<in> set (productQuantities (snd ?run))" by simp
  with run show ?thesis by blast
qed

theorem storeOrder_total_fits_witness:
  "fst (storeOrder (sample (sample_texts INT_MAX 1)) ''B''
     (snd (storeOrder (sample (sample_texts INT_MAX 1)) ''A'' empty_store))) = Inl Signed_overflow"
proof -
  let ?J = "sample (sample_texts INT_MAX 1)"
  let ?run = "storeOrder ?J ''A'' empty_store"
  have "fst ?run = Inr ()" by code_simp
  then have "?run = (Inr (), snd ?run)" by (cases ?run) simp
  then have ok: "store_ok ?J (snd ?run)" by (rule store_ok_step[OF store_ok_empty])
  have line: "order_line ?J ''B'' = Inr (Some (''Water'', 1))"
    by (simp add: sample_line in_int32_def)
  have "total_ordered ?J ''Water'' (storedOrders (snd ?run)) = INT_MAX" by code_simp
  with storeOrder_total_fits[OF ok line] show ?thesis by simp
qed

end
