(* ===== verification/Error_Alert.thy ===== *)
theory Error_Alert
  imports Json_Api
begin

text \<open>
  \<open>errorHandler.cpp\<close> and \<open>alertHandler.cpp\<close>: the JSON texts the server sends for errors and
  stock alerts.  Each function builds a JSON value member by member and writes it out; the lemmas
  say that the text always exists and which fields a reader of the value finds.
\<close>

section \<open>ErrorHandler\<close>

datatype ErrorLevel = ERROR | WARNING

definition ERROR_CODE :: int where "ERROR_CODE = 500"

definition level_text :: "ErrorLevel \<Rightarrow> string" where
  "level_text level = (if level = ERROR then ''error'' else ''warning'')"

definition generateError ::
  "'j jsoncpp \<Rightarrow> int \<Rightarrow> string \<Rightarrow> string \<Rightarrow> ErrorLevel \<Rightarrow> string result" where
  "generateError J code message description level =
     rbind (jv_assign J (jv_null J) ''error_code'' (jv_int J code)) (\<lambda>errorJson.
     rbind (jv_assign J errorJson ''message'' (jv_str J message)) (\<lambda>errorJson.
     rbind (jv_assign J errorJson ''description'' (jv_str J description)) (\<lambda>errorJson.
     rbind (jv_assign J errorJson ''level'' (jv_str J (level_text level))) (\<lambda>errorJson.
     Inr (jv_write J (Some '''') errorJson)))))"

text \<open>\<open>what\<close> is the text of \<open>e.what()\<close>.\<close>

definition handleException :: "'j jsoncpp \<Rightarrow> string \<Rightarrow> string \<Rightarrow> string result" where
  "handleException J what context =
     rbind (jv_assign J (jv_null J) ''error_code'' (jv_int J ERROR_CODE)) (\<lambda>errorJson.
     rbind (jv_assign J errorJson ''message'' (jv_str J ''Exception occurred'')) (\<lambda>errorJson.
     rbind (jv_assign J errorJson ''description'' (jv_str J what)) (\<lambda>errorJson.
     rbind (jv_assign J errorJson ''context'' (jv_str J context)) (\<lambda>errorJson.
     rbind (jv_assign J errorJson ''level'' (jv_str J ''error'')) (\<lambda>errorJson.
     Inr (jv_write J (Some '''') errorJson))))))"

text \<open>\<open>error = ErrorHandler::generateError(..., ErrorLevel::ERROR); return false;\<close>\<close>

definition reject :: "'j jsoncpp \<Rightarrow> int \<Rightarrow> string \<Rightarrow> string \<Rightarrow> (bool \<times> string) result" where
  "reject J code message description =
     rbind (generateError J code message description ERROR) (\<lambda>e. Inr (False, e))"

section \<open>AlertHandler\<close>

text \<open>
  \<open>alertJson["alert"][key] = x\<close>: the member \<open>"alert"\<close> is created as null by the first access.
\<close>

definition assign_in :: "'j jsoncpp \<Rightarrow> 'j \<Rightarrow> string \<Rightarrow> string \<Rightarrow> 'j \<Rightarrow> 'j result" where
  "assign_in J v k key x =
     rbind (jv_index J v k) (\<lambda>inner.
     rbind (jv_assign J inner key x) (\<lambda>inner.
     jv_assign J v k inner))"

definition generateAlert ::
  "'j jsoncpp \<Rightarrow> string \<Rightarrow> string \<Rightarrow> int \<Rightarrow> string \<Rightarrow> string result" where
  "generateAlert J name message productId productName =
     rbind (assign_in J (jv_null J) ''alert'' ''name'' (jv_str J name)) (\<lambda>alertJson.
     rbind (assign_in J alertJson ''alert'' ''message'' (jv_str J message)) (\<lambda>alertJson.
     rbind (assign_in J alertJson ''alert'' ''product_id'' (jv_int J productId)) (\<lambda>alertJson.
     rbind (assign_in J alertJson ''alert'' ''product_name'' (jv_str J productName)) (\<lambda>alertJson.
     Inr (jv_write J None alertJson)))))"

section \<open>What a reader finds in the texts\<close>

definition error_text :: "'j jsoncpp \<Rightarrow> int \<Rightarrow> string \<Rightarrow> string \<Rightarrow> ErrorLevel \<Rightarrow> string \<Rightarrow> bool" where
  "error_text J code message description level t \<longleftrightarrow>
     (\<exists>v. t = jv_write J (Some '''') v
        \<and> jv_index J v ''error_code'' = Inr (jv_int J code)
        \<and> json_string J v [''message''] = Inr message
        \<and> json_string J v [''description''] = Inr description
        \<and> json_string J v [''level''] = Inr (level_text level))"

lemma generateError_text:
  assumes J: "jsoncpp_ok J"
  shows "\<exists>t. generateError J code m d l = Inr t \<and> error_text J code m d l t"
proof -
  obtain v1 where 1: "jv_assign J (jv_null J) ''error_code'' (jv_int J code) = Inr v1"
      "jv_isObject J v1" "jv_index J v1 ''error_code'' = Inr (jv_int J code)"
    by (rule jv_assign_ok[OF J disjI1[OF jsoncpp_okD(1)[OF J]]]) (rule that)
  obtain v2 where 2: "jv_assign J v1 ''message'' (jv_str J m) = Inr v2" "jv_isObject J v2"
      "jv_index J v2 ''message'' = Inr (jv_str J m)"
      "\<And>k. k \<noteq> ''message'' \<Longrightarrow> jv_index J v2 k = jv_index J v1 k"
    by (rule jv_assign_ok[OF J disjI2[OF 1(2)]]) (rule that)
  obtain v3 where 3: "jv_assign J v2 ''description'' (jv_str J d) = Inr v3" "jv_isObject J v3"
      "jv_index J v3 ''description'' = Inr (jv_str J d)"
      "\<And>k. k \<noteq> ''description'' \<Longrightarrow> jv_index J v3 k = jv_index J v2 k"
    by (rule jv_assign_ok[OF J disjI2[OF 2(2)]]) (rule that)
  obtain v4 where 4: "jv_assign J v3 ''level'' (jv_str J (level_text l)) = Inr v4"
      "jv_index J v4 ''level'' = Inr (jv_str J (level_text l))"
      "\<And>k. k \<noteq> ''level'' \<Longrightarrow> jv_index J v4 k = jv_index J v3 k"
    by (rule jv_assign_ok[OF J disjI2[OF 3(2)]]) (rule that)
  have "error_text J code m d l (jv_write J (Some '''') v4)"
    unfolding error_text_def json_string_def
    by (rule exI[of _ v4]) (simp add: 1 2 3 4 jsoncpp_okD(4)[OF J])
  then show ?thesis by (simp add: generateError_def 1 2 3 4)
qed

lemma reject_text:
  "jsoncpp_ok J \<Longrightarrow> \<exists>t. reject J code m d = Inr (False, t) \<and> error_text J code m d ERROR t"
  using generateError_text[of J code m d ERROR] by (auto simp: reject_def)

lemma reject_False [result_simps]: "reject J code m d = Inr (b, t) \<Longrightarrow> \<not> b"
  by (auto simp: reject_def result_simps)

lemma reject_not_True [simp]:
  "reject J c m d \<noteq> Inr (True, t)"
  "rbind (reject J c m d) (\<lambda>r. Inr (r, x)) \<noteq> Inr ((True, t), y)"
  by (auto simp: result_simps dest: reject_False)

text \<open>A positive verdict means that every guard in front of it was passed.\<close>

lemma reject_guard [result_simps]:
  "(if b then reject J c m d else X) = Inr (True, t) \<longleftrightarrow> \<not> b \<and> X = Inr (True, t)"
  "(if b then rbind (reject J c m d) (\<lambda>r. Inr (r, x)) else Y) = Inr ((True, t), y) \<longleftrightarrow>
     \<not> b \<and> Y = Inr ((True, t), y)"
  "(case w of Inl _ \<Rightarrow> rbind (reject J c m d) (\<lambda>r. Inr (r, x)) | Inr v \<Rightarrow> Z v) = Inr ((True, t), y) \<longleftrightarrow>
     (\<exists>v. w = Inr v \<and> Z v = Inr ((True, t), y))"
  by (auto split: sum.splits)

lemma assign_in_ok:
  assumes J: "jsoncpp_ok J" and v: "jv_isNull J v \<or> jv_isObject J v"
    and inner: "jv_index J v k = Inr i" "jv_isNull J i \<or> jv_isObject J i"
  obtains v' i' where "assign_in J v k key x = Inr v'" "jv_isObject J v'"
    "jv_index J v' k = Inr i'" "jv_isObject J i'" "jv_index J i' key = Inr x"
    "\<And>key'. key' \<noteq> key \<Longrightarrow> jv_index J i' key' = jv_index J i key'"
proof -
  obtain i' where i': "jv_assign J i key x = Inr i'" "jv_isObject J i'" "jv_index J i' key = Inr x"
      "\<And>key'. key' \<noteq> key \<Longrightarrow> jv_index J i' key' = jv_index J i key'"
    by (rule jv_assign_ok[OF J inner(2)]) (rule that)
  obtain v' where v': "jv_assign J v k i' = Inr v'" "jv_isObject J v'" "jv_index J v' k = Inr i'"
    by (rule jv_assign_ok[OF J v]) (rule that)
  show ?thesis
    by (rule that[of v' i']) (simp_all add: assign_in_def inner(1) i' v')
qed

definition alert_text :: "'j jsoncpp \<Rightarrow> string \<Rightarrow> string \<Rightarrow> int \<Rightarrow> string \<Rightarrow> string \<Rightarrow> bool" where
  "alert_text J name message productId productName t \<longleftrightarrow>
     (\<exists>v. t = jv_write J None v
        \<and> json_string J v [''alert'', ''name''] = Inr name
        \<and> json_string J v [''alert'', ''message''] = Inr message
        \<and> json_path J v [''alert'', ''product_id''] = Inr (jv_int J productId)
        \<and> json_string J v [''alert'', ''product_name''] = Inr productName)"

lemma generateAlert_text:
  assumes J: "jsoncpp_ok J"
  shows "\<exists>t. generateAlert J n m i p = Inr t \<and> alert_text J n m i p t"
proof -
  note null = jsoncpp_okD(1,2)[OF J]
  obtain v1 a1 where 1: "assign_in J (jv_null J) ''alert'' ''name'' (jv_str J n) = Inr v1"
      "jv_isObject J v1" "jv_index J v1 ''alert'' = Inr a1" "jv_isObject J a1"
      "jv_index J a1 ''name'' = Inr (jv_str J n)"
    by (rule assign_in_ok[OF J disjI1[OF null(1)] null(2) disjI1[OF null(1)]]) (rule that)
  obtain v2 a2 where 2: "assign_in J v1 ''alert'' ''message'' (jv_str J m) = Inr v2"
      "jv_isObject J v2" "jv_index J v2 ''alert'' = Inr a2" "jv_isObject J a2"
      "jv_index J a2 ''message'' = Inr (jv_str J m)"
      "\<And>k. k \<noteq> ''message'' \<Longrightarrow> jv_index J a2 k = jv_index J a1 k"
    by (rule assign_in_ok[OF J disjI2[OF 1(2)] 1(3) disjI2[OF 1(4)]]) (rule that)
  obtain v3 a3 where 3: "assign_in J v2 ''alert'' ''product_id'' (jv_int J i) = Inr v3"
      "jv_isObject J v3" "jv_index J v3 ''alert'' = Inr a3" "jv_isObject J a3"
      "jv_index J a3 ''product_id'' = Inr (jv_int J i)"
      "\<And>k. k \<noteq> ''product_id'' \<Longrightarrow> jv_index J a3 k = jv_index J a2 k"
    by (rule assign_in_ok[OF J disjI2[OF 2(2)] 2(3) disjI2[OF 2(4)]]) (rule that)
  obtain v4 a4 where 4: "assign_in J v3 ''alert'' ''product_name'' (jv_str J p) = Inr v4"
      "jv_index J v4 ''alert'' = Inr a4" "jv_index J a4 ''product_name'' = Inr (jv_str J p)"
      "\<And>k. k \<noteq> ''product_name'' \<Longrightarrow> jv_index J a4 k = jv_index J a3 k"
    by (rule assign_in_ok[OF J disjI2[OF 3(2)] 3(3) disjI2[OF 3(4)]]) (rule that)
  have "alert_text J n m i p (jv_write J None v4)"
    unfolding alert_text_def json_string_def
    by (rule exI[of _ v4]) (simp add: 1 2 3 4 jsoncpp_okD(4)[OF J])
  then show ?thesis by (simp add: generateAlert_def 1 2 3 4)
qed

end
