(* ===== verification/Inventory_Tables.thy ===== *)
theory Inventory_Tables
  imports Cpp_Text
begin

text \<open>
  \<open>database/database.sql\<close>: the tables \<open>hubs\<close> and \<open>warehouses\<close>, their first rows and the four
  stored procedures on them.  MySQL itself is not part of the sources: the comparison of strings
  under the column's collation, whether the affected-items count of an \<open>UPDATE\<close> counts the rows
  found or only the rows changed, and which calls fail, are the fields of a record, a parameter of
  the procedures.
\<close>

section \<open>Rows and the server's parameters\<close>

record mysql =
  my_collate_eq :: "string \<Rightarrow> string \<Rightarrow> bool"
  my_found_rows :: bool
  my_fault :: "nat \<Rightarrow> bool"

text \<open>All columns of both tables are nullable.\<close>

record inv_row =
  id_location :: "int option"
  id_product :: "int option"
  product_name :: "string option"
  available_quantity :: "int option"

text \<open>Documented: a collation compares strings by an equivalence relation.\<close>

definition collation_ok :: "mysql \<Rightarrow> bool" where
  "collation_ok M \<longleftrightarrow> equivp (my_collate_eq M)"

lemma collation_refl: "collation_ok M \<Longrightarrow> my_collate_eq M a a"
  by (simp add: collation_ok_def equivp_reflp)

lemma collation_sym: "\<lbrakk>collation_ok M; my_collate_eq M a b\<rbrakk> \<Longrightarrow> my_collate_eq M b a"
  unfolding collation_ok_def by (rule equivp_symp)

lemma collation_trans:
  "\<lbrakk>collation_ok M; my_collate_eq M a b; my_collate_eq M b c\<rbrakk> \<Longrightarrow> my_collate_eq M a c"
  unfolding collation_ok_def by (rule equivp_transp)

section \<open>The stored procedures\<close>

text \<open>\<open>product_name = p_product_name AND id_... = p_..._id\<close>; a comparison with NULL is not true.\<close>

definition row_matches :: "mysql \<Rightarrow> int \<Rightarrow> string \<Rightarrow> inv_row \<Rightarrow> bool" where
  "row_matches M loc p row \<longleftrightarrow> id_location row = Some loc \<and>
     (case product_name row of None \<Rightarrow> False | Some n \<Rightarrow> my_collate_eq M n p)"

definition sql_get :: "mysql \<Rightarrow> string \<Rightarrow> int \<Rightarrow> inv_row list \<Rightarrow> int option list" where
  "sql_get M p loc rows = map available_quantity (filter (row_matches M loc p) rows)"

definition update_hits :: "mysql \<Rightarrow> int \<Rightarrow> string \<Rightarrow> int \<Rightarrow> inv_row \<Rightarrow> bool" where
  "update_hits M loc p q row \<longleftrightarrow> row_matches M loc p row \<and>
     (case available_quantity row of None \<Rightarrow> False | Some a \<Rightarrow> 0 \<le> a + q)"

definition add_quantity :: "int \<Rightarrow> inv_row \<Rightarrow> inv_row" where
  "add_quantity q row = row\<lparr>available_quantity := map_option (\<lambda>a. a + q) (available_quantity row)\<rparr>"

text \<open>
  The \<open>UPDATE\<close> of the two update procedures.  A new value outside the column's \<open>INT\<close> is an error
  (strict mode, the default) and the statement changes nothing.
\<close>

definition too_large :: "inv_row \<Rightarrow> bool" where
  "too_large row \<longleftrightarrow> (case available_quantity row of None \<Rightarrow> False | Some a \<Rightarrow> INT_MAX < a)"

definition sql_update ::
  "mysql \<Rightarrow> int \<Rightarrow> string \<Rightarrow> int \<Rightarrow> inv_row list \<Rightarrow> (nat \<times> inv_row list) result" where
  "sql_update M loc p q rows =
     (if list_ex (\<lambda>row. update_hits M loc p q row \<and> too_large (add_quantity q row)) rows
      then Inl Mysqlx_Error
      else Inr (length (filter (\<lambda>row. update_hits M loc p q row \<and> (my_found_rows M \<or> q \<noteq> 0)) rows),
                map (\<lambda>row. if update_hits M loc p q row then add_quantity q row else row) rows))"

definition sql_updateHubInventory ::
  "mysql \<Rightarrow> int \<Rightarrow> string \<Rightarrow> int \<Rightarrow> inv_row list \<Rightarrow> (nat \<times> inv_row list) result" where
  "sql_updateHubInventory M p_hub_id p_product_name p_quantity hubs =
     sql_update M p_hub_id p_product_name p_quantity hubs"

definition sql_updateWarehouseInventory ::
  "mysql \<Rightarrow> int \<Rightarrow> string \<Rightarrow> int \<Rightarrow> inv_row list \<Rightarrow> (nat \<times> inv_row list) result" where
  "sql_updateWarehouseInventory M p_warehouse_id p_product_name p_quantity warehouses =
     sql_update M p_warehouse_id p_product_name p_quantity warehouses"

definition sql_getHubInventory :: "mysql \<Rightarrow> string \<Rightarrow> int \<Rightarrow> inv_row list \<Rightarrow> int option list" where
  "sql_getHubInventory M p_product_name p_hub_id hubs = sql_get M p_product_name p_hub_id hubs"

definition sql_getWarehouseInventory :: "mysql \<Rightarrow> string \<Rightarrow> int \<Rightarrow> inv_row list \<Rightarrow> int option list" where
  "sql_getWarehouseInventory M p_product_name p_warehouse_id warehouses =
     sql_get M p_product_name p_warehouse_id warehouses"

section \<open>The first rows\<close>

text \<open>Both tables start with five products in each of three locations, all with one quantity.\<close>

definition seed_products :: "(int \<times> string) list" where
  "seed_products = [(1, ''Meat''), (2, ''Water''), (3, ''Medicines''), (4, ''Weapons''), (5, ''Clothes'')]"

definition seed_rows :: "int \<Rightarrow> inv_row list" where
  "seed_rows quantity = concat (map (\<lambda>loc. map (\<lambda>(i, n).
     \<lparr>id_location = Some loc, id_product = Some i, product_name = Some n,
      available_quantity = Some quantity\<rparr>) seed_products) [1, 2, 3])"

section \<open>What the procedures keep\<close>

text \<open>
  The tables declare no key.  \<open>same_key\<close>: two rows that one call of a procedure would both match.
\<close>

definition same_key :: "mysql \<Rightarrow> inv_row \<Rightarrow> inv_row \<Rightarrow> bool" where
  "same_key M r s \<longleftrightarrow> id_location r = id_location s \<and> id_location r \<noteq> None \<and>
     (case (product_name r, product_name s) of (Some m, Some n) \<Rightarrow> my_collate_eq M m n | _ \<Rightarrow> False)"

definition rows_unique :: "mysql \<Rightarrow> inv_row list \<Rightarrow> bool" where
  "rows_unique M rows \<longleftrightarrow> sorted_wrt (\<lambda>r s. \<not> same_key M r s) rows"

definition row_in_range :: "inv_row \<Rightarrow> bool" where
  "row_in_range row \<longleftrightarrow>
     (case available_quantity row of None \<Rightarrow> True | Some a \<Rightarrow> 0 \<le> a \<and> a \<le> INT_MAX)"

definition rows_in_range :: "inv_row list \<Rightarrow> bool" where
  "rows_in_range rows \<longleftrightarrow> list_all row_in_range rows"

definition level :: "mysql \<Rightarrow> inv_row list \<Rightarrow> int \<Rightarrow> string \<Rightarrow> int option" where
  "level M rows loc p = (case sql_get M p loc rows of [] \<Rightarrow> None | a # _ \<Rightarrow> a)"

definition row_units :: "mysql \<Rightarrow> string \<Rightarrow> inv_row \<Rightarrow> int" where
  "row_units M p row = (case (product_name row, available_quantity row) of
     (Some n, Some a) \<Rightarrow> if my_collate_eq M n p then a else 0 | _ \<Rightarrow> 0)"

definition units :: "mysql \<Rightarrow> string \<Rightarrow> inv_row list \<Rightarrow> int" where
  "units M p rows = sum_list (map (row_units M p) rows)"

lemma add_quantity_keys [simp]:
  "id_location (add_quantity q row) = id_location row"
  "id_product (add_quantity q row) = id_product row"
  "product_name (add_quantity q row) = product_name row"
  "available_quantity (add_quantity q row) = map_option (\<lambda>a. a + q) (available_quantity row)"
  by (simp_all add: add_quantity_def)

lemma row_matches_add_quantity [simp]:
  "row_matches M loc p (add_quantity q row) = row_matches M loc p row"
  by (simp add: row_matches_def)

lemma matches_same_key:
  assumes "collation_ok M" and "row_matches M loc p r" and "row_matches M loc p s"
  shows "same_key M r s"
  using assms by (auto simp: row_matches_def same_key_def split: option.splits
      intro: collation_trans collation_sym)

lemma rows_unique_one_match:
  assumes C: "collation_ok M" and "rows_unique M rows"
  shows "filter (row_matches M loc p) rows = [] \<or> (\<exists>r. filter (row_matches M loc p) rows = [r])"
  using assms(2)
proof (induction rows)
  case (Cons r rows)
  show ?case
  proof (cases "row_matches M loc p r")
    case True
    then have "filter (row_matches M loc p) rows = []"
      using Cons.prems matches_same_key[OF C] by (auto simp: rows_unique_def filter_empty_conv)
    with True show ?thesis by simp
  next
    case False
    with Cons show ?thesis by (simp add: rows_unique_def)
  qed
qed simp

lemma the_match:
  assumes "collation_ok M" and "rows_unique M rows" and "row \<in> set rows" and "row_matches M loc p row"
  shows "filter (row_matches M loc p) rows = [row]"
proof -
  have "row \<in> set (filter (row_matches M loc p) rows)" using assms(3,4) by simp
  then show ?thesis by (rule in_singleton_list[OF rows_unique_one_match[OF assms(1,2)]])
qed

lemma sql_update_rows:
  assumes "sql_update M loc p q rows = Inr (n, rows')"
  shows "rows' = map (\<lambda>row. if update_hits M loc p q row then add_quantity q row else row) rows"
    and "n = length (filter (\<lambda>row. update_hits M loc p q row \<and> (my_found_rows M \<or> q \<noteq> 0)) rows)"
    and "\<And>row. \<lbrakk>row \<in> set rows; update_hits M loc p q row\<rbrakk> \<Longrightarrow> \<not> too_large (add_quantity q row)"
  using assms by (auto simp: sql_update_def list_ex_iff split: if_splits)

lemma sql_update_in_range:
  assumes "sql_update M loc p q rows = Inr (n, rows')" and "rows_in_range rows"
  shows "rows_in_range rows'"
proof -
  have "row_in_range (if update_hits M loc p q row then add_quantity q row else row)"
    if "row \<in> set rows" for row
    using sql_update_rows(3)[OF assms(1) that] assms(2) that
    by (auto simp: rows_in_range_def list_all_iff row_in_range_def update_hits_def too_large_def
        split: option.splits)
  then have "\<forall>row \<in> set rows. row_in_range (if update_hits M loc p q row then add_quantity q row else row)"
    by blast
  then show ?thesis
    unfolding rows_in_range_def list_all_iff sql_update_rows(1)[OF assms(1)] set_map by blast
qed

lemma same_key_update:
  "same_key M (if b then add_quantity q r else r) (if c then add_quantity q s else s) = same_key M r s"
  by (cases b; cases c; cases "product_name r"; simp add: same_key_def)

lemma sql_update_unique:
  "sql_update M loc p q rows = Inr (n, rows') \<Longrightarrow> rows_unique M rows' = rows_unique M rows"
  by (drule sql_update_rows(1)) (simp add: rows_unique_def sorted_wrt_map same_key_update)

text \<open>The first row a lookup finds, before and after an update.\<close>

lemma level_no_match: "filter (row_matches M loc p) rows = [] \<Longrightarrow> level M rows loc p = None"
  by (simp add: level_def sql_get_def)

lemma level_one_match: "filter (row_matches M loc p) rows = [r] \<Longrightarrow> level M rows loc p = available_quantity r"
  by (simp add: level_def sql_get_def)

lemma filter_matches_update:
  "filter (row_matches M loc p) (map (\<lambda>row. if H row then add_quantity q row else row) rows) =
   map (\<lambda>row. if H row then add_quantity q row else row) (filter (row_matches M loc p) rows)"
  by (induction rows) auto

lemma level_in_range:
  assumes "rows_in_range rows" and "level M rows loc p = Some a"
  shows "0 \<le> a \<and> a \<le> INT_MAX"
proof -
  obtain r rs where "filter (row_matches M loc p) rows = r # rs" and "available_quantity r = Some a"
    using assms(2) by (auto simp: level_def sql_get_def split: list.splits)
  then have "r \<in> set rows" "available_quantity r = Some a"
    by (auto dest!: filter_eq_ConsD)
  with assms(1) show ?thesis by (auto simp: rows_in_range_def list_all_iff row_in_range_def)
qed

text \<open>
  An update that changes a row: the one matching row held a quantity, the new quantity is in range,
  and no other location or product is touched.
\<close>

lemma sql_update_changes:
  assumes C: "collation_ok M" and U: "rows_unique M rows"
    and upd: "sql_update M loc p q rows = Inr (n, rows')" and n: "0 < n"
  obtains a where "level M rows loc p = Some a" and "0 \<le> a + q" and "a + q \<le> INT_MAX"
    and "level M rows' loc p = Some (a + q)"
proof -
  note u = sql_update_rows[OF upd]
  from n u(2) obtain row where row: "row \<in> set rows" "update_hits M loc p q row"
    by (auto simp: filter_empty_conv)
  then have one: "filter (row_matches M loc p) rows = [row]"
    by (intro the_match[OF C U]) (simp_all add: update_hits_def)
  from row(2) obtain a where a: "available_quantity row = Some a" "0 \<le> a + q"
    by (auto simp: update_hits_def split: option.splits)
  have "filter (row_matches M loc p) rows' = [add_quantity q row]"
    by (simp add: u(1) filter_matches_update one row(2))
  then have "level M rows' loc p = Some (a + q)" by (simp add: level_one_match a)
  moreover have "a + q \<le> INT_MAX" using u(3)[OF row] a(1) by (simp add: too_large_def)
  ultimately show ?thesis using that[of a] one a by (simp add: level_one_match)
qed

lemma sql_update_frame:
  assumes C: "collation_ok M" and upd: "sql_update M loc p q rows = Inr (n, rows')"
    and other: "loc' \<noteq> loc \<or> \<not> my_collate_eq M p' p"
  shows "level M rows' loc' p' = level M rows loc' p'"
proof -
  have "\<not> update_hits M loc p q row" if "row_matches M loc' p' row" for row
    using other that by (auto simp: update_hits_def row_matches_def split: option.splits
        intro: collation_trans[OF C] collation_sym[OF C])
  then have "map (\<lambda>row. if update_hits M loc p q row then add_quantity q row else row)
      (filter (row_matches M loc' p') rows) = filter (row_matches M loc' p') rows"
    by (intro map_idI) auto
  then show ?thesis
    by (simp add: level_def sql_get_def sql_update_rows(1)[OF upd] filter_matches_update)
qed

lemma sql_update_none:
  assumes "sql_update M loc p q rows = Inr (0, rows')"
  shows "rows' = rows"
proof -
  note u = sql_update_rows[OF assms]
  have "(if update_hits M loc p q row then add_quantity q row else row) = row"
    if "row \<in> set rows" for row
    using u(2) that by (cases "q = 0") (auto simp: filter_empty_conv add_quantity_def option.map_ident)
  then show ?thesis by (simp add: u(1) map_idI split del: if_split)
qed

lemma sql_update_succeeds:
  assumes C: "collation_ok M" and U: "rows_unique M rows" and a: "level M rows loc p = Some a"
    and q: "q \<noteq> 0" "0 \<le> a + q" "a + q \<le> INT_MAX"
  obtains rows' where "sql_update M loc p q rows = Inr (1, rows')"
proof -
  from rows_unique_one_match[OF C U, of loc p] a obtain r
    where one: "filter (row_matches M loc p) rows = [r]" and r: "available_quantity r = Some a"
    by (auto simp: level_no_match level_one_match)
  have only: "row = r" if "row \<in> set rows" "row_matches M loc p row" for row
    using one the_match[OF C U that] by simp
  have "row_matches M loc p r" using one by (auto dest!: filter_eq_ConsD)
  then have hit: "update_hits M loc p q r" using r q by (simp add: update_hits_def)
  have "filter (update_hits M loc p q) rows = filter (row_matches M loc p) rows"
    using only hit by (intro filter_cong) (auto simp: update_hits_def)
  moreover have "\<not> list_ex (\<lambda>row. update_hits M loc p q row \<and> too_large (add_quantity q row)) rows"
    using only r q by (auto simp: list_ex_iff update_hits_def too_large_def)
  ultimately show ?thesis using that one q(1) by (simp add: sql_update_def)
qed

text \<open>The units of a product in a table: an update adds \<open>q\<close> to those of its own product only.\<close>

lemma row_units_add_quantity:
  "update_hits M loc p q row \<Longrightarrow> row_units M p' (add_quantity q row) = row_units M p' row +
     (if (case product_name row of None \<Rightarrow> False | Some n \<Rightarrow> my_collate_eq M n p') then q else 0)"
  by (auto simp: row_units_def update_hits_def split: option.splits)

lemma units_map_update:
  "units M p' (map (\<lambda>row. if H row then add_quantity q row else row) rows) = units M p' rows +
     sum_list (map (\<lambda>row. row_units M p' (add_quantity q row) - row_units M p' row) (filter H rows))"
  by (induction rows) (auto simp: units_def)

lemma units_update:
  assumes C: "collation_ok M" and U: "rows_unique M rows"
    and upd: "sql_update M loc p q rows = Inr (n, rows')" and n: "0 < n"
  shows "units M p' rows' = units M p' rows + (if my_collate_eq M p' p then q else 0)"
proof -
  note u = sql_update_rows[OF upd]
  from n u(2) obtain row where row: "row \<in> set rows" "update_hits M loc p q row"
    by (auto simp: filter_empty_conv)
  then have one: "filter (row_matches M loc p) rows = [row]"
    by (intro the_match[OF C U]) (simp_all add: update_hits_def)
  have "filter (update_hits M loc p q) rows = filter (update_hits M loc p q) (filter (row_matches M loc p) rows)"
    by (auto simp: update_hits_def intro: filter_cong)
  then have hits: "filter (update_hits M loc p q) rows = [row]"
    using one row(2) by simp
  obtain m where m: "product_name row = Some m" "my_collate_eq M m p"
    using row(2) by (auto simp: update_hits_def row_matches_def split: option.splits)
  then have "my_collate_eq M m p' = my_collate_eq M p' p"
    using collation_trans[OF C] collation_sym[OF C] by blast
  with m(1) show ?thesis
    by (simp add: u(1) units_map_update hits row_units_add_quantity[OF row(2)])
qed

text \<open>An update that changes a row, as a function on the levels of the table.\<close>

definition shift_level ::
  "mysql \<Rightarrow> int \<Rightarrow> string \<Rightarrow> int \<Rightarrow> (int \<Rightarrow> string \<Rightarrow> int option) \<Rightarrow> int \<Rightarrow> string \<Rightarrow> int option" where
  "shift_level M loc p q st = (\<lambda>l n. if l = loc \<and> my_collate_eq M n p
     then map_option (\<lambda>a. a + q) (st l n) else st l n)"

lemma level_collate:
  assumes C: "collation_ok M" and "my_collate_eq M n p"
  shows "level M rows loc n = level M rows loc p"
proof -
  have "row_matches M loc n row = row_matches M loc p row" for row
    using assms by (auto simp: row_matches_def split: option.splits
        intro: collation_trans[OF C] collation_sym[OF C])
  then have "row_matches M loc n = row_matches M loc p" by (rule ext)
  then show ?thesis by (simp add: level_def sql_get_def)
qed

lemma sql_update_shift:
  assumes C: "collation_ok M" and U: "rows_unique M rows"
    and upd: "sql_update M loc p q rows = Inr (n, rows')" and n: "0 < n"
  shows "level M rows' = shift_level M loc p q (level M rows)"
proof (intro ext)
  fix l m
  obtain a where a: "level M rows loc p = Some a" "level M rows' loc p = Some (a + q)"
    by (rule sql_update_changes[OF C U upd n]) (rule that)
  show "level M rows' l m = shift_level M loc p q (level M rows) l m"
  proof (cases "l = loc \<and> my_collate_eq M m p")
    case True
    then have "level M rows l m = level M rows l p" "level M rows' l m = level M rows' l p"
      by (blast intro: level_collate[OF C])+
    with True a show ?thesis by (simp add: shift_level_def)
  next
    case False
    then show ?thesis using sql_update_frame[OF C upd, of l m] by (auto simp: shift_level_def)
  qed
qed

text \<open>The rows the tables start with are well formed, also when the collation ignores case.\<close>

lemma seed_rows_in_range: "\<lbrakk>0 \<le> q; q \<le> INT_MAX\<rbrakk> \<Longrightarrow> rows_in_range (seed_rows q)"
  by (simp add: rows_in_range_def seed_rows_def seed_products_def row_in_range_def)

lemma seed_rows_unique:
  assumes "\<And>m n. \<lbrakk>m \<in> snd ` set seed_products; n \<in> snd ` set seed_products; m \<noteq> n\<rbrakk> \<Longrightarrow> \<not> my_collate_eq M m n"
  shows "rows_unique M (seed_rows q)"
  using assms by (simp add: rows_unique_def seed_rows_def seed_products_def same_key_def)

end
