(* ===== verification/Inventory_Db.thy ===== *)
theory Inventory_Db
  imports Inventory_Tables Json_Api
begin

text \<open>
  \<open>database/inventoryDb.cpp\<close>: the calls of the stored procedures through a MySQL session, with
  every connector error turned into -1, and the transfer \<open>realTimeUpdate\<close>.  The locale
  \<open>stock_store\<close> is the contract of one table's lookup and update; both tables are instances.
\<close>

section \<open>The session\<close>

text \<open>
  A session is the state of the two tables and the number of calls made so far; call number \<open>n\<close>
  throws \<open>mysqlx::Error\<close> when \<open>my_fault M n\<close>, and then leaves the tables as they were.
\<close>

record inv_db =
  hubs :: "inv_row list"
  warehouses :: "inv_row list"
  db_calls :: nat

definition db_tick :: "inv_db \<Rightarrow> inv_db" where
  "db_tick d = d\<lparr>db_calls := Suc (db_calls d)\<rparr>"

definition PORT_DB :: int where "PORT_DB = 33070"

text \<open>
  \<open>env_port\<close> is the environment variable \<open>DB_PORT\<close>, \<open>accepts\<close> the ports on which a server lets the
  session in.  The result is the port of the session; a refused connection is rethrown.
\<close>

definition connectToDb :: "string option \<Rightarrow> (int \<Rightarrow> bool) \<Rightarrow> int result" where
  "connectToDb env_port accepts =
     rbind (case env_port of Some s \<Rightarrow> stoi s | None \<Rightarrow> Inr PORT_DB) (\<lambda>port.
     if accepts port then Inr port else Inl Mysqlx_Error)"

text \<open>\<open>if ((row = sql_result.fetchOne())) return row[0]; return -1;\<close> NULL does not convert to int.\<close>

definition fetch_quantity :: "int option list \<Rightarrow> int" where
  "fetch_quantity result = (case result of Some n # _ \<Rightarrow> n | _ \<Rightarrow> - 1)"

definition getWarehouseInventory :: "mysql \<Rightarrow> int \<Rightarrow> string \<Rightarrow> inv_db \<Rightarrow> int \<times> inv_db" where
  "getWarehouseInventory M warehouseId product d =
     (if my_fault M (db_calls d) then (- 1, db_tick d)
      else (fetch_quantity (sql_getWarehouseInventory M product warehouseId (warehouses d)), db_tick d))"

definition updateWarehouseInventory ::
  "mysql \<Rightarrow> int \<Rightarrow> string \<Rightarrow> int \<Rightarrow> inv_db \<Rightarrow> int \<times> inv_db" where
  "updateWarehouseInventory M warehouseId product quantity d =
     (if my_fault M (db_calls d) then (- 1, db_tick d)
      else case sql_updateWarehouseInventory M warehouseId product quantity (warehouses d) of
        Inl _ \<Rightarrow> (- 1, db_tick d)
      | Inr (affected, rows) \<Rightarrow>
          (if 0 < affected then 1 else - 1, (db_tick d)\<lparr>warehouses := rows\<rparr>))"

definition getHubInventory :: "mysql \<Rightarrow> int \<Rightarrow> string \<Rightarrow> inv_db \<Rightarrow> int \<times> inv_db" where
  "getHubInventory M hubId product d =
     (if my_fault M (db_calls d) then (- 1, db_tick d)
      else (fetch_quantity (sql_getHubInventory M product hubId (hubs d)), db_tick d))"

definition updateHubInventory ::
  "mysql \<Rightarrow> int \<Rightarrow> string \<Rightarrow> int \<Rightarrow> inv_db \<Rightarrow> int \<times> inv_db" where
  "updateHubInventory M hubId product quantity d =
     (if my_fault M (db_calls d) then (- 1, db_tick d)
      else case sql_updateHubInventory M hubId product quantity (hubs d) of
        Inl _ \<Rightarrow> (- 1, db_tick d)
      | Inr (affected, rows) \<Rightarrow>
          (if 0 < affected then 1 else - 1, (db_tick d)\<lparr>hubs := rows\<rparr>))"

section \<open>The transfer of an order\<close>

definition realTimeUpdate :: "'j jsoncpp \<Rightarrow> mysql \<Rightarrow> 'j \<Rightarrow> inv_db \<Rightarrow> (int \<times> inv_db) result" where
  "realTimeUpdate J M request d =
     rbind (json_string J request (p_source ''type'')) (\<lambda>sourceType.
     rbind (json_int J request (p_source ''location'')) (\<lambda>sourceLocation.
     rbind (json_string J request (p_destination ''type'')) (\<lambda>destinationType.
     rbind (json_int J request (p_destination ''location'')) (\<lambda>destinationLocation.
     rbind (json_string J request (p_product ''name'')) (\<lambda>productName.
     rbind (json_int J request (p_product ''quantity'')) (\<lambda>quantity.
     rbind (if sourceType = ''hub'' then
              rbind (int32_neg quantity) (\<lambda>q. Inr (updateHubInventory M sourceLocation productName q d))
            else if sourceType = ''warehouse'' then
              rbind (int32_neg quantity) (\<lambda>q. Inr (updateWarehouseInventory M sourceLocation productName q d))
            else Inr (0, d)) (\<lambda>(result, d).
     Inr (if 0 < result then
            if destinationType = ''hub'' then
              updateHubInventory M destinationLocation productName quantity d
            else if destinationType = ''warehouse'' then
              updateWarehouseInventory M destinationLocation productName quantity d
            else (result, d)
          else (result, d)))))))))"

section \<open>The contract of a table\<close>

locale stock_store =
  fixes get :: "int \<Rightarrow> string \<Rightarrow> 'd \<Rightarrow> int \<times> 'd"
    and upd :: "int \<Rightarrow> string \<Rightarrow> int \<Rightarrow> 'd \<Rightarrow> int \<times> 'd"
    and stock :: "'d \<Rightarrow> int \<Rightarrow> string \<Rightarrow> int option"
    and reliable :: "'d \<Rightarrow> bool"
    and ok :: "'d \<Rightarrow> bool"
  assumes get_stock: "stock (snd (get l p d)) = stock d"
    and get_ok: "ok d \<Longrightarrow> ok (snd (get l p d))"
    and get_reliable: "reliable d \<Longrightarrow> reliable (snd (get l p d))"
    and get_sound: "fst (get l p d) \<noteq> - 1 \<Longrightarrow> stock d l p = Some (fst (get l p d))"
    and get_reads: "\<lbrakk>reliable d; stock d l p = Some a\<rbrakk> \<Longrightarrow> fst (get l p d) = a"
    and stock_range: "\<lbrakk>ok d; stock d l p = Some a\<rbrakk> \<Longrightarrow> 0 \<le> a \<and> a \<le> INT_MAX"
    and upd_ok: "ok d \<Longrightarrow> ok (snd (upd l p q d))"
    and upd_reliable: "reliable d \<Longrightarrow> reliable (snd (upd l p q d))"
    and upd_result: "fst (upd l p q d) = 1 \<or> fst (upd l p q d) = - 1"
    and upd_failed: "fst (upd l p q d) = - 1 \<Longrightarrow> stock (snd (upd l p q d)) = stock d"
    and upd_changed: "\<lbrakk>ok d; fst (upd l p q d) = 1\<rbrakk> \<Longrightarrow> \<exists>a. stock d l p = Some a \<and> 0 \<le> a + q
        \<and> a + q \<le> INT_MAX \<and> stock (snd (upd l p q d)) l p = Some (a + q)"
    and upd_succeeds: "\<lbrakk>reliable d; ok d; stock d l p = Some a; q \<noteq> 0; 0 \<le> a + q; a + q \<le> INT_MAX\<rbrakk>
        \<Longrightarrow> fst (upd l p q d) = 1"
begin

text \<open>Taking from a location never takes more than it holds.\<close>

lemma take_bounded:
  assumes "ok d" and "fst (upd l p (- q) d) = 1"
  obtains a where "stock d l p = Some a" and "q \<le> a" and "stock (snd (upd l p (- q) d)) l p = Some (a - q)"
  using upd_changed[OF assms] that by auto

text \<open>A quantity that a lookup has just reported can be taken.\<close>

lemma take_checked:
  assumes "ok d" and "reliable d" and q: "0 < q" "q \<le> fst (get l p d)"
  shows "fst (upd l p (- q) (snd (get l p d))) = 1"
proof -
  let ?n = "fst (get l p d)" and ?d = "snd (get l p d)"
  have st: "stock d l p = Some ?n" using q by (intro get_sound) simp
  have "- q \<noteq> 0" "0 \<le> ?n + - q" "?n + - q \<le> INT_MAX" using q stock_range[OF assms(1) st] by simp_all
  then show ?thesis
    by (rule upd_succeeds[of ?d l p ?n, rotated 3]) (simp_all add: get_stock get_ok get_reliable assms st)
qed

text \<open>A location below a capacity can be filled up to it.\<close>

lemma refill:
  assumes "ok d" and "reliable d" and n: "fst (get l p d) \<noteq> - 1"
    and cap: "fst (get l p d) < cap" "cap \<le> INT_MAX"
  defines "r \<equiv> upd l p (cap - fst (get l p d)) (snd (get l p d))"
  shows "fst r = 1" and "stock (snd r) l p = Some cap"
proof -
  let ?n = "fst (get l p d)" and ?d = "snd (get l p d)"
  have st: "stock ?d l p = Some ?n" using get_sound[OF n] by (simp add: get_stock)
  have range: "0 \<le> ?n" using stock_range[OF get_ok[OF assms(1)] st] by simp
  show one: "fst r = 1"
    unfolding r_def
    by (intro upd_succeeds[of ?d l p ?n])
      (use cap range in \<open>simp_all add: get_ok get_reliable assms(1,2) st\<close>)
  show "stock (snd r) l p = Some cap"
    using upd_changed[OF get_ok[OF assms(1)] one[unfolded r_def]] st by (simp add: r_def)
qed

end

section \<open>Both tables satisfy it\<close>

definition db_ok :: "mysql \<Rightarrow> inv_db \<Rightarrow> bool" where
  "db_ok M d \<longleftrightarrow> collation_ok M \<and> rows_unique M (hubs d) \<and> rows_unique M (warehouses d)
     \<and> rows_in_range (hubs d) \<and> rows_in_range (warehouses d)"

definition db_reliable :: "mysql \<Rightarrow> inv_db \<Rightarrow> bool" where
  "db_reliable M d \<longleftrightarrow> (\<forall>n. db_calls d \<le> n \<longrightarrow> \<not> my_fault M n)"

lemma db_tick_simps [simp]:
  "hubs (db_tick d) = hubs d" "warehouses (db_tick d) = warehouses d"
  "db_calls (db_tick d) = Suc (db_calls d)"
  by (simp_all add: db_tick_def)

lemma db_ok_tick [simp]: "db_ok M (db_tick d) = db_ok M d"
  by (simp add: db_ok_def)

lemma fetch_quantity_level:
  "fetch_quantity (sql_get M p loc rows) = (case level M rows loc p of None \<Rightarrow> - 1 | Some a \<Rightarrow> a)"
  by (auto simp: fetch_quantity_def level_def split: list.splits option.splits)

lemmas sql_procedures = sql_getHubInventory_def sql_getWarehouseInventory_def
  sql_updateHubInventory_def sql_updateWarehouseInventory_def

lemmas db_functions = getHubInventory_def getWarehouseInventory_def updateHubInventory_def
  updateWarehouseInventory_def sql_procedures

lemma updateHub_cases:
  obtains (failed) d' where "updateHubInventory M l p q d = (- 1, d')" "hubs d' = hubs d"
      "warehouses d' = warehouses d" "db_calls d' = Suc (db_calls d)"
  | (changed) n rows where "sql_update M l p q (hubs d) = Inr (n, rows)" "0 < n"
      "updateHubInventory M l p q d = (1, (db_tick d)\<lparr>hubs := rows\<rparr>)"
  using sql_update_none[of M l p q "hubs d"]
  by (cases "sql_update M l p q (hubs d)"; cases "my_fault M (db_calls d)")
    (fastforce simp: updateHubInventory_def sql_procedures split: prod.splits)+

lemma updateWarehouse_cases:
  obtains (failed) d' where "updateWarehouseInventory M l p q d = (- 1, d')" "hubs d' = hubs d"
      "warehouses d' = warehouses d" "db_calls d' = Suc (db_calls d)"
  | (changed) n rows where "sql_update M l p q (warehouses d) = Inr (n, rows)" "0 < n"
      "updateWarehouseInventory M l p q d = (1, (db_tick d)\<lparr>warehouses := rows\<rparr>)"
  using sql_update_none[of M l p q "warehouses d"]
  by (cases "sql_update M l p q (warehouses d)"; cases "my_fault M (db_calls d)")
    (fastforce simp: updateWarehouseInventory_def sql_procedures split: prod.splits)+

lemma db_ok_updates:
  assumes "db_ok M d"
  shows "db_ok M (snd (updateHubInventory M l p q d))"
    and "db_ok M (snd (updateWarehouseInventory M l p q d))"
proof -
  show "db_ok M (snd (updateHubInventory M l p q d))"
    using assms by (cases rule: updateHub_cases[of M l p q d])
      (auto simp: db_ok_def sql_update_unique dest: sql_update_in_range)
  show "db_ok M (snd (updateWarehouseInventory M l p q d))"
    using assms by (cases rule: updateWarehouse_cases[of M l p q d])
      (auto simp: db_ok_def sql_update_unique dest: sql_update_in_range)
qed

lemma db_reliable_tick: "db_reliable M d \<Longrightarrow> \<not> my_fault M (db_calls d) \<and> db_reliable M (db_tick d)"
  by (simp add: db_reliable_def)

lemma db_reliable_calls: "\<lbrakk>db_reliable M d; db_calls d' = Suc (db_calls d)\<rbrakk> \<Longrightarrow> db_reliable M d'"
  by (simp add: db_reliable_def)

interpretation hub: stock_store "getHubInventory M" "updateHubInventory M" "\<lambda>d. level M (hubs d)"
    "db_reliable M" "db_ok M" for M
proof unfold_locales
  fix l p q d a
  show "level M (hubs (snd (getHubInventory M l p d))) = level M (hubs d)"
    by (simp add: getHubInventory_def)
  show "db_ok M d \<Longrightarrow> db_ok M (snd (getHubInventory M l p d))"
    by (simp add: getHubInventory_def)
  show "db_reliable M d \<Longrightarrow> db_reliable M (snd (getHubInventory M l p d))"
    by (simp add: getHubInventory_def db_reliable_tick)
  show "fst (getHubInventory M l p d) \<noteq> - 1 \<Longrightarrow> level M (hubs d) l p = Some (fst (getHubInventory M l p d))"
    by (auto simp: getHubInventory_def sql_procedures fetch_quantity_level split: if_splits option.splits)
  show "\<lbrakk>db_reliable M d; level M (hubs d) l p = Some a\<rbrakk> \<Longrightarrow> fst (getHubInventory M l p d) = a"
    by (simp add: getHubInventory_def sql_procedures fetch_quantity_level db_reliable_tick)
  show "\<lbrakk>db_ok M d; level M (hubs d) l p = Some a\<rbrakk> \<Longrightarrow> 0 \<le> a \<and> a \<le> INT_MAX"
    unfolding db_ok_def using level_in_range by blast
  show "db_ok M d \<Longrightarrow> db_ok M (snd (updateHubInventory M l p q d))"
    by (rule db_ok_updates)
  show "db_reliable M d \<Longrightarrow> db_reliable M (snd (updateHubInventory M l p q d))"
    by (cases rule: updateHub_cases[of M l p q d]) (auto intro: db_reliable_calls)
  show "fst (updateHubInventory M l p q d) = 1 \<or> fst (updateHubInventory M l p q d) = - 1"
    by (cases rule: updateHub_cases[of M l p q d]) simp_all
  show "fst (updateHubInventory M l p q d) = - 1 \<Longrightarrow>
      level M (hubs (snd (updateHubInventory M l p q d))) = level M (hubs d)"
    by (cases rule: updateHub_cases[of M l p q d]) simp_all
  show "\<lbrakk>db_ok M d; fst (updateHubInventory M l p q d) = 1\<rbrakk> \<Longrightarrow>
      \<exists>a. level M (hubs d) l p = Some a \<and> 0 \<le> a + q \<and> a + q \<le> INT_MAX
        \<and> level M (hubs (snd (updateHubInventory M l p q d))) l p = Some (a + q)"
    by (cases rule: updateHub_cases[of M l p q d]) (auto simp: db_ok_def elim: sql_update_changes)
  show "\<lbrakk>db_reliable M d; db_ok M d; level M (hubs d) l p = Some a; q \<noteq> 0; 0 \<le> a + q; a + q \<le> INT_MAX\<rbrakk>
      \<Longrightarrow> fst (updateHubInventory M l p q d) = 1"
    by (rule sql_update_succeeds[of M "hubs d" l p a q])
      (auto simp: updateHubInventory_def sql_procedures db_ok_def db_reliable_tick)
qed

interpretation warehouse: stock_store "getWarehouseInventory M" "updateWarehouseInventory M"
    "\<lambda>d. level M (warehouses d)" "db_reliable M" "db_ok M" for M
proof unfold_locales
  fix l p q d a
  show "level M (warehouses (snd (getWarehouseInventory M l p d))) = level M (warehouses d)"
    by (simp add: getWarehouseInventory_def)
  show "db_ok M d \<Longrightarrow> db_ok M (snd (getWarehouseInventory M l p d))"
    by (simp add: getWarehouseInventory_def)
  show "db_reliable M d \<Longrightarrow> db_reliable M (snd (getWarehouseInventory M l p d))"
    by (simp add: getWarehouseInventory_def db_reliable_tick)
  show "fst (getWarehouseInventory M l p d) \<noteq> - 1 \<Longrightarrow>
      level M (warehouses d) l p = Some (fst (getWarehouseInventory M l p d))"
    by (auto simp: getWarehouseInventory_def sql_procedures fetch_quantity_level
        split: if_splits option.splits)
  show "\<lbrakk>db_reliable M d; level M (warehouses d) l p = Some a\<rbrakk> \<Longrightarrow> fst (getWarehouseInventory M l p d) = a"
    by (simp add: getWarehouseInventory_def sql_procedures fetch_quantity_level db_reliable_tick)
  show "\<lbrakk>db_ok M d; level M (warehouses d) l p = Some a\<rbrakk> \<Longrightarrow> 0 \<le> a \<and> a \<le> INT_MAX"
    unfolding db_ok_def using level_in_range by blast
  show "db_ok M d \<Longrightarrow> db_ok M (snd (updateWarehouseInventory M l p q d))"
    by (rule db_ok_updates)
  show "db_reliable M d \<Longrightarrow> db_reliable M (snd (updateWarehouseInventory M l p q d))"
    by (cases rule: updateWarehouse_cases[of M l p q d]) (auto intro: db_reliable_calls)
  show "fst (updateWarehouseInventory M l p q d) = 1 \<or> fst (updateWarehouseInventory M l p q d) = - 1"
    by (cases rule: updateWarehouse_cases[of M l p q d]) simp_all
  show "fst (updateWarehouseInventory M l p q d) = - 1 \<Longrightarrow>
      level M (warehouses (snd (updateWarehouseInventory M l p q d))) = level M (warehouses d)"
    by (cases rule: updateWarehouse_cases[of M l p q d]) simp_all
  show "\<lbrakk>db_ok M d; fst (updateWarehouseInventory M l p q d) = 1\<rbrakk> \<Longrightarrow>
      \<exists>a. level M (warehouses d) l p = Some a \<and> 0 \<le> a + q \<and> a + q \<le> INT_MAX
        \<and> level M (warehouses (snd (updateWarehouseInventory M l p q d))) l p = Some (a + q)"
    by (cases rule: updateWarehouse_cases[of M l p q d]) (auto simp: db_ok_def elim: sql_update_changes)
  show "\<lbrakk>db_reliable M d; db_ok M d; level M (warehouses d) l p = Some a; q \<noteq> 0; 0 \<le> a + q;
      a + q \<le> INT_MAX\<rbrakk> \<Longrightarrow> fst (updateWarehouseInventory M l p q d) = 1"
    by (rule sql_update_succeeds[of M "warehouses d" l p a q])
      (auto simp: updateWarehouseInventory_def sql_procedures db_ok_def db_reliable_tick)
qed

section \<open>A server for the witnesses\<close>

text \<open>
  MySQL with a byte-wise collation, counting changed rows, on which no call fails; and the
  database as the scripts create it.
\<close>

definition sample_mysql :: mysql where
  "sample_mysql = \<lparr>my_collate_eq = (=), my_found_rows = False, my_fault = (\<lambda>_. False)\<rparr>"

definition seed_db :: "int \<Rightarrow> inv_db" where
  "seed_db q = \<lparr>hubs = seed_rows q, warehouses = seed_rows q, db_calls = 0\<rparr>"

lemma sample_mysql_simps [simp]:
  "my_collate_eq sample_mysql = (=)" "my_found_rows sample_mysql = False"
  "my_fault sample_mysql n = False"
  by (simp_all add: sample_mysql_def)

lemma db_ok_seed: "\<lbrakk>0 \<le> q; q \<le> INT_MAX\<rbrakk> \<Longrightarrow> db_ok sample_mysql (seed_db q)"
  by (simp add: db_ok_def seed_db_def collation_ok_def identity_equivp seed_rows_in_range seed_rows_unique)

lemma db_reliable_sample: "db_reliable sample_mysql d"
  by (simp add: db_reliable_def)

end
