(* ===== verification/Transfers.thy ===== *)
theory Transfers
  imports Inventory_Db Json_Sample
begin

text \<open>
  What \<open>realTimeUpdate\<close> promises: seen from the levels of both tables, a successful call moves the
  quantity from the source to the destination, or out of the system when the destination is
  neither a hub nor a warehouse.  The theory states that as a function on levels, proves that the
  code refines it, and shows what is left behind when the second half of a transfer fails.
\<close>

section \<open>Levels of both tables\<close>

datatype site = Hub | Warehouse

definition site_of :: "string \<Rightarrow> site option" where
  "site_of t = (if t = ''hub'' then Some Hub else if t = ''warehouse'' then Some Warehouse else None)"

fun rows_at :: "inv_db \<Rightarrow> site \<Rightarrow> inv_row list" where
  "rows_at d Hub = hubs d"
| "rows_at d Warehouse = warehouses d"

fun update_at :: "mysql \<Rightarrow> site \<Rightarrow> int \<Rightarrow> string \<Rightarrow> int \<Rightarrow> inv_db \<Rightarrow> int \<times> inv_db" where
  "update_at M Hub = updateHubInventory M"
| "update_at M Warehouse = updateWarehouseInventory M"

definition stock_at :: "mysql \<Rightarrow> inv_db \<Rightarrow> site \<Rightarrow> int \<Rightarrow> string \<Rightarrow> int option" where
  "stock_at M d s = level M (rows_at d s)"

definition total_units :: "mysql \<Rightarrow> string \<Rightarrow> inv_db \<Rightarrow> int" where
  "total_units M p d = units M p (hubs d) + units M p (warehouses d)"

text \<open>The abstract operation: \<open>q\<close> units more at a location of a site.\<close>

definition move :: "mysql \<Rightarrow> site \<Rightarrow> int \<Rightarrow> string \<Rightarrow> int \<Rightarrow>
    (site \<Rightarrow> int \<Rightarrow> string \<Rightarrow> int option) \<Rightarrow> (site \<Rightarrow> int \<Rightarrow> string \<Rightarrow> int option)" where
  "move M s loc p q st = st(s := shift_level M loc p q (st s))"

lemma move_apply:
  "move M s loc p q st t l n =
     (if t = s \<and> l = loc \<and> my_collate_eq M n p then map_option (\<lambda>a. a + q) (st t l n) else st t l n)"
  by (auto simp: move_def shift_level_def)

lemma stock_at_same:
  assumes "hubs d' = hubs d" and "warehouses d' = warehouses d"
  shows "stock_at M d' = stock_at M d"
proof
  fix s
  show "stock_at M d' s = stock_at M d s" using assms by (cases s) (simp_all add: stock_at_def)
qed

lemma update_at_cases:
  assumes "db_ok M d"
  obtains (failed) d' where "update_at M s l p q d = (- 1, d')" "stock_at M d' = stock_at M d"
      "\<And>m. total_units M m d' = total_units M m d" "db_calls d' = Suc (db_calls d)" "db_ok M d'"
  | (changed) d' a where "update_at M s l p q d = (1, d')" "stock_at M d s l p = Some a"
      "0 \<le> a + q" "a + q \<le> INT_MAX" "stock_at M d' = move M s l p q (stock_at M d)"
      "\<And>m. total_units M m d' = total_units M m d + (if my_collate_eq M m p then q else 0)"
      "db_calls d' = Suc (db_calls d)" "db_ok M d'"
proof (cases s)
  case Hub
  note ok = assms[unfolded db_ok_def]
  have keep: "db_ok M (snd (updateHubInventory M l p q d))" by (rule hub.upd_ok[OF assms])
  show ?thesis
  proof (cases rule: updateHub_cases[of M l p q d])
    case (failed d')
    with keep have "stock_at M d' = stock_at M d" "db_ok M d'"
      by (simp_all only: stock_at_same[of d' d] snd_conv)
    with failed Hub show ?thesis by (intro that(1)[of d']) (simp_all add: total_units_def)
  next
    case (changed n rows)
    let ?d = "(db_tick d)\<lparr>hubs := rows\<rparr>"
    obtain a where a: "level M (hubs d) l p = Some a" "0 \<le> a + q" "a + q \<le> INT_MAX"
      using ok changed(1,2) by (auto elim: sql_update_changes)
    have "level M rows = shift_level M l p q (level M (hubs d))"
      using ok changed(1,2) by (blast intro: sql_update_shift)
    then have "stock_at M ?d = move M Hub l p q (stock_at M d)"
      by (intro ext) (rename_tac s' l' p', case_tac s', auto simp: stock_at_def move_def)
    moreover have "total_units M m ?d = total_units M m d + (if my_collate_eq M m p then q else 0)" for m
      using ok changed(1,2) units_update[of M "hubs d" l p q n rows m] by (simp add: total_units_def)
    ultimately show ?thesis
      using a changed(3) keep Hub by (intro that(2)[of ?d a]) (simp_all add: stock_at_def)
  qed
next
  case Warehouse
  note ok = assms[unfolded db_ok_def]
  have keep: "db_ok M (snd (updateWarehouseInventory M l p q d))" by (rule warehouse.upd_ok[OF assms])
  show ?thesis
  proof (cases rule: updateWarehouse_cases[of M l p q d])
    case (failed d')
    with keep have "stock_at M d' = stock_at M d" "db_ok M d'"
      by (simp_all only: stock_at_same[of d' d] snd_conv)
    with failed Warehouse show ?thesis by (intro that(1)[of d']) (simp_all add: total_units_def)
  next
    case (changed n rows)
    let ?d = "(db_tick d)\<lparr>warehouses := rows\<rparr>"
    obtain a where a: "level M (warehouses d) l p = Some a" "0 \<le> a + q" "a + q \<le> INT_MAX"
      using ok changed(1,2) by (auto elim: sql_update_changes)
    have "level M rows = shift_level M l p q (level M (warehouses d))"
      using ok changed(1,2) by (blast intro: sql_update_shift)
    then have "stock_at M ?d = move M Warehouse l p q (stock_at M d)"
      by (intro ext) (rename_tac s' l' p', case_tac s', auto simp: stock_at_def move_def)
    moreover have "total_units M m ?d = total_units M m d + (if my_collate_eq M m p then q else 0)" for m
      using ok changed(1,2) units_update[of M "warehouses d" l p q n rows m] by (simp add: total_units_def)
    ultimately show ?thesis
      using a changed(3) keep Warehouse by (intro that(2)[of ?d a]) (simp_all add: stock_at_def)
  qed
qed

lemma update_at_succeeds:
  assumes "db_ok M d" "db_reliable M d" "stock_at M d s l p = Some a"
    and "q \<noteq> 0" "0 \<le> a + q" "a + q \<le> INT_MAX"
  shows "fst (update_at M s l p q d) = 1" and "db_reliable M (snd (update_at M s l p q d))"
  using assms hub.upd_succeeds[of M d l p a q] warehouse.upd_succeeds[of M d l p a q]
    hub.upd_reliable[of M d l p q] warehouse.upd_reliable[of M d l p q]
  by (cases s; simp add: stock_at_def)+

section \<open>The transfer on the fields of an order\<close>

definition transfer :: "mysql \<Rightarrow> order \<Rightarrow> inv_db \<Rightarrow> int \<times> inv_db" where
  "transfer M r d =
     (case site_of (o_source_type r) of None \<Rightarrow> (0, d)
      | Some s \<Rightarrow>
          let (res, d1) = update_at M s (o_source_location r) (o_product_name r) (- o_quantity r) d
          in if 0 < res then
               case site_of (o_destination_type r) of None \<Rightarrow> (res, d1)
               | Some t \<Rightarrow> update_at M t (o_destination_location r) (o_product_name r) (o_quantity r) d1
             else (res, d1))"

lemma realTimeUpdate_transfer:
  assumes "order_reads J root r" and "in_int32 (- o_quantity r)"
  shows "realTimeUpdate J M root d = Inr (transfer M r d)"
  using assms
  by (simp add: realTimeUpdate_def order_readsD transfer_def site_of_def int32_neg_def
      split: prod.splits if_splits)

text \<open>How a transfer can end.\<close>

lemma transfer_cases:
  assumes "db_ok M d"
  obtains (no_source) "site_of (o_source_type r) = None" "transfer M r d = (0, d)"
  | (refused) s d' where "site_of (o_source_type r) = Some s" "transfer M r d = (- 1, d')"
      "stock_at M d' = stock_at M d" "\<And>m. total_units M m d' = total_units M m d" "db_ok M d'"
  | (left) s d' a where "site_of (o_source_type r) = Some s" "site_of (o_destination_type r) = None"
      "transfer M r d = (1, d')" "db_ok M d'"
      "stock_at M d s (o_source_location r) (o_product_name r) = Some a" "o_quantity r \<le> a"
      "stock_at M d' = move M s (o_source_location r) (o_product_name r) (- o_quantity r) (stock_at M d)"
      "\<And>m. total_units M m d' = total_units M m d
         - (if my_collate_eq M m (o_product_name r) then o_quantity r else 0)"
  | (lost) s t d' a where "site_of (o_source_type r) = Some s" "site_of (o_destination_type r) = Some t"
      "transfer M r d = (- 1, d')" "db_ok M d'"
      "stock_at M d s (o_source_location r) (o_product_name r) = Some a" "o_quantity r \<le> a"
      "stock_at M d' = move M s (o_source_location r) (o_product_name r) (- o_quantity r) (stock_at M d)"
      "\<And>m. total_units M m d' = total_units M m d
         - (if my_collate_eq M m (o_product_name r) then o_quantity r else 0)"
  | (moved) s t d' a where "site_of (o_source_type r) = Some s" "site_of (o_destination_type r) = Some t"
      "transfer M r d = (1, d')" "db_ok M d'"
      "stock_at M d s (o_source_location r) (o_product_name r) = Some a" "o_quantity r \<le> a"
      "stock_at M d' = move M t (o_destination_location r) (o_product_name r) (o_quantity r)
         (move M s (o_source_location r) (o_product_name r) (- o_quantity r) (stock_at M d))"
      "\<And>m. total_units M m d' = total_units M m d"
proof (cases "site_of (o_source_type r)")
  case None
  with no_source show ?thesis by (simp add: transfer_def)
next
  case src: (Some s)
  show ?thesis
  proof (cases rule: update_at_cases[OF assms, of s "o_source_location r" "o_product_name r" "- o_quantity r"])
    case (1 d1)
    with src show ?thesis by (intro refused[of s d1]) (simp_all add: transfer_def)
  next
    case first: (2 d1 a)
    show ?thesis
    proof (cases "site_of (o_destination_type r)")
      case None
      with src first show ?thesis by (intro left[of s d1 a]) (simp_all add: transfer_def)
    next
      case dst: (Some t)
      show ?thesis
      proof (cases rule: update_at_cases[OF first(8), of t "o_destination_location r" "o_product_name r" "o_quantity r"])
        case (1 d2)
        with src dst first show ?thesis by (intro lost[of s t d2 a]) (simp_all add: transfer_def)
      next
        case (2 d2 b)
        with src dst first show ?thesis by (intro moved[of s t d2 a]) (simp_all add: transfer_def)
      qed
    qed
  qed
qed

section \<open>Properties of realTimeUpdate\<close>

lemma realTimeUpdate_outcome:
  assumes "order_reads J root r" and "0 < o_quantity r"
    and "realTimeUpdate J M root d = Inr (res, d')"
  shows "transfer M r d = (res, d')"
proof -
  have "in_int32 (- o_quantity r)"
    using assms(2) order_readsD(12)[OF assms(1)] by (rule in_int32_neg)
  then show ?thesis using realTimeUpdate_transfer[OF assms(1)] assms(3) by simp
qed

text \<open>
  C1: a successful transfer between hubs and warehouses takes the order's quantity from the source
  location, which held at least that much, adds it to the destination location, and changes the
  level of no other location and no other product.
\<close>

theorem realTimeUpdate_refines_move:
  assumes "db_ok M d" and "order_reads J root r" and "0 < o_quantity r"
    and "realTimeUpdate J M root d = Inr (res, d')" and "0 < res"
    and "site_of (o_source_type r) = Some s" and "site_of (o_destination_type r) = Some t"
  shows "(\<exists>a. stock_at M d s (o_source_location r) (o_product_name r) = Some a \<and> o_quantity r \<le> a)
    \<and> stock_at M d' = move M t (o_destination_location r) (o_product_name r) (o_quantity r)
         (move M s (o_source_location r) (o_product_name r) (- o_quantity r) (stock_at M d))"
  using realTimeUpdate_outcome[OF assms(2-4)] assms(5-7)
  by (cases rule: transfer_cases[OF assms(1), of r]) auto

text \<open>
  A successful transfer between hubs and warehouses keeps the total number of units of every
  product.
\<close>

theorem realTimeUpdate_conserves_units:
  assumes "db_ok M d" and "order_reads J root r" and "0 < o_quantity r"
    and "realTimeUpdate J M root d = Inr (res, d')" and "0 < res"
    and "site_of (o_destination_type r) \<noteq> None"
  shows "total_units M m d' = total_units M m d"
  using realTimeUpdate_outcome[OF assms(2-4)] assms(5-6)
  by (cases rule: transfer_cases[OF assms(1), of r]) auto

text \<open>
  C2: whatever \<open>realTimeUpdate\<close> reports, it never creates units, and it changes the total only by
  the whole quantity of the order's own product: a delivery outside the system, or a transfer whose
  second update failed.
\<close>

theorem realTimeUpdate_total_units:
  assumes "db_ok M d" and "order_reads J root r" and "0 < o_quantity r"
    and "realTimeUpdate J M root d = Inr (res, d')"
  shows "total_units M m d' = total_units M m d \<or>
    (my_collate_eq M m (o_product_name r) \<and> total_units M m d' = total_units M m d - o_quantity r
     \<and> (res = 1 \<and> site_of (o_destination_type r) = None \<or>
        res = - 1 \<and> site_of (o_destination_type r) \<noteq> None))"
  using realTimeUpdate_outcome[OF assms(2-4)]
  by (cases rule: transfer_cases[OF assms(1), of r]) auto

text \<open>The levels after a transfer that went through.\<close>

definition moved_stock :: "mysql \<Rightarrow> order \<Rightarrow> inv_db \<Rightarrow> site \<Rightarrow> int \<Rightarrow> string \<Rightarrow> int option" where
  "moved_stock M r d =
     (let taken = (case site_of (o_source_type r) of None \<Rightarrow> stock_at M d
        | Some s \<Rightarrow> move M s (o_source_location r) (o_product_name r) (- o_quantity r) (stock_at M d))
      in case site_of (o_destination_type r) of None \<Rightarrow> taken
         | Some t \<Rightarrow> move M t (o_destination_location r) (o_product_name r) (o_quantity r) taken)"

definition room_for :: "mysql \<Rightarrow> order \<Rightarrow> inv_db \<Rightarrow> bool" where
  "room_for M r d = (case site_of (o_destination_type r) of None \<Rightarrow> True
     | Some t \<Rightarrow> (case stock_at M d t (o_destination_location r) (o_product_name r) of None \<Rightarrow> False
         | Some b \<Rightarrow> b + o_quantity r \<le> INT_MAX))"

lemma stock_range: "\<lbrakk>stock_at M d s l p = Some x; db_ok M d\<rbrakk> \<Longrightarrow> 0 \<le> x \<and> x \<le> INT_MAX"
  using hub.stock_range[of M d l p x] warehouse.stock_range[of M d l p x]
  by (cases s) (auto simp: stock_at_def)

lemma transfer_done:
  assumes "db_ok M d" and "db_reliable M d" and "order_reads J root r" and "0 < o_quantity r"
    and "site_of (o_source_type r) = Some s"
    and "stock_at M d s (o_source_location r) (o_product_name r) = Some a" and "o_quantity r \<le> a"
    and "room_for M r d"
  obtains d' where "realTimeUpdate J M root d = Inr (1, d')" "db_ok M d'" "db_reliable M d'"
    "stock_at M d' = moved_stock M r d"
proof -
  let ?u = "update_at M s (o_source_location r) (o_product_name r) (- o_quantity r) d"
  have first: "fst ?u = 1" "db_reliable M (snd ?u)"
    using update_at_succeeds[OF assms(1,2,6), of "- o_quantity r"] assms(4,7) stock_range[OF assms(6,1)] by simp_all
  then obtain d1 where d1: "?u = (1, d1)" by (cases ?u) simp
  from update_at_cases[OF assms(1), of s "o_source_location r" "o_product_name r" "- o_quantity r"] d1
  have st: "stock_at M d1 = move M s (o_source_location r) (o_product_name r) (- o_quantity r) (stock_at M d)"
    and ok: "db_ok M d1" by auto
  have run: "realTimeUpdate J M root d = Inr (transfer M r d)"
    by (rule realTimeUpdate_transfer[OF assms(3) in_int32_neg[OF assms(4) order_readsD(12)[OF assms(3)]]])
  show ?thesis
  proof (cases "site_of (o_destination_type r)")
    case None
    then show ?thesis
      using run assms(5) d1 st ok first by (intro that[of d1]) (simp_all add: transfer_def moved_stock_def)
  next
    case (Some t)
    let ?v = "update_at M t (o_destination_location r) (o_product_name r) (o_quantity r) d1"
    from assms(8) Some obtain b where b: "stock_at M d t (o_destination_location r) (o_product_name r) = Some b"
      "b + o_quantity r \<le> INT_MAX" by (auto simp: room_for_def split: option.splits)
    have "\<exists>b1. stock_at M d1 t (o_destination_location r) (o_product_name r) = Some b1 \<and> b1 \<le> b"
      unfolding st move_apply b(1) using assms(4) by simp
    then obtain b1 where b1: "stock_at M d1 t (o_destination_location r) (o_product_name r) = Some b1" "b1 \<le> b"
      by blast
    have second: "fst ?v = 1" "db_reliable M (snd ?v)"
      using update_at_succeeds[OF ok _ b1(1), of "o_quantity r"] assms(4) b(2) b1 stock_range[OF b1(1) ok] first d1
      by simp_all
    then obtain d2 where d2: "?v = (1, d2)" by (cases ?v) simp
    from update_at_cases[OF ok, of t "o_destination_location r" "o_product_name r" "o_quantity r"] d2
    have "stock_at M d2 = move M t (o_destination_location r) (o_product_name r) (o_quantity r) (stock_at M d1)"
      "db_ok M d2" by auto
    then show ?thesis
      using run assms(5) d1 d2 st second Some by (intro that[of d2]) (simp_all add: transfer_def moved_stock_def)
  qed
qed

text \<open>
  C3: with a database that answers, a transfer succeeds whenever the source holds the quantity and
  the destination has room for it.
\<close>

theorem realTimeUpdate_succeeds:
  assumes "db_ok M d" and "db_reliable M d" and "order_reads J root r" and "0 < o_quantity r"
    and "site_of (o_source_type r) = Some s" and "site_of (o_destination_type r) = Some t"
    and "stock_at M d s (o_source_location r) (o_product_name r) = Some a" and "o_quantity r \<le> a"
    and "stock_at M d t (o_destination_location r) (o_product_name r) = Some b"
    and "b + o_quantity r \<le> INT_MAX"
  shows "\<exists>d'. realTimeUpdate J M root d = Inr (1, d')"
proof -
  have "room_for M r d" using assms(6,9,10) by (simp add: room_for_def)
  then show ?thesis by (rule transfer_done[OF assms(1-5,7,8)]) blast
qed

text \<open>
  a transfer is not atomic: the order below takes 50 units of water from hub 1, cannot add them
  to a warehouse that has no such row, reports -1, and the units are gone.
\<close>

theorem realTimeUpdate_loses_units:
  "\<exists>d'. realTimeUpdate (sample []) sample_mysql
       (sample_order ''hub'' 1 ''warehouse'' 9 ''request'' ''2'' ''Water'' 50) (seed_db 1000) = Inr (- 1, d')
     \<and> total_units sample_mysql ''Water'' d' = total_units sample_mysql ''Water'' (seed_db 1000) - 50"
proof -
  let ?r = "sample_order_fields ''hub'' 1 ''warehouse'' 9 ''request'' ''2'' ''Water'' 50"
  let ?t = "transfer sample_mysql ?r (seed_db 1000)"
  have "realTimeUpdate (sample []) sample_mysql
       (sample_order ''hub'' 1 ''warehouse'' 9 ''request'' ''2'' ''Water'' 50) (seed_db 1000) = Inr ?t"
    by (rule realTimeUpdate_transfer[OF order_reads_sample])
      (simp_all add: in_int32_def sample_order_fields_def)
  moreover have "fst ?t = - 1" by code_simp
  moreover have "total_units sample_mysql ''Water'' (snd ?t) =
      total_units sample_mysql ''Water'' (seed_db 1000) - 50" by code_simp
  ultimately show ?thesis by (cases ?t) simp
qed

lemma realTimeUpdate_ok:
  assumes "db_ok M d"
  shows "on_value (\<lambda>v. db_ok M (snd v)) (realTimeUpdate J M request d)"
proof -
  have keep: "db_ok M (snd (updateHubInventory M l p q x))" "db_ok M (snd (updateWarehouseInventory M l p q x))"
    if "db_ok M x" for l p q x
    using db_ok_updates[OF that] by blast+
  have first: "on_value (\<lambda>v. db_ok M (snd v))
     (if st = ''hub'' then rbind (int32_neg q) (\<lambda>q. Inr (updateHubInventory M l p q d))
      else if st = ''warehouse'' then rbind (int32_neg q) (\<lambda>q. Inr (updateWarehouseInventory M l p q d))
      else Inr (0, d))" for st q l p
    by (intro on_value_intros keep assms) (simp add: assms)
  show ?thesis
    unfolding realTimeUpdate_def case_prod_unfold
  proof (intro on_value_intros)
    fix st sl dt dl p q v
    assume "(if st = ''hub'' then rbind (int32_neg q) (\<lambda>q. Inr (updateHubInventory M sl p q d))
      else if st = ''warehouse'' then rbind (int32_neg q) (\<lambda>q. Inr (updateWarehouseInventory M sl p q d))
      else Inr (0, d)) = Inr v"
    then have "db_ok M (snd v)" by (rule on_valueD[OF first])
    then show "db_ok M (snd (if 0 < fst v then
        if dt = ''hub'' then updateHubInventory M dl p q (snd v)
        else if dt = ''warehouse'' then updateWarehouseInventory M dl p q (snd v) else (fst v, snd v)
      else (fst v, snd v)))"
      by (simp add: keep)
  qed
qed

text \<open>
  for every request, well formed or not, and every pattern of connector failures, the tables
  stay well formed: quantities between 0 and the column's maximum, one row per location and product.
\<close>

theorem realTimeUpdate_keeps_tables:
  assumes "db_ok M d" and "realTimeUpdate J M request d = Inr (res, d')"
  shows "db_ok M d'"
  using on_valueD[OF realTimeUpdate_ok[OF assms(1)] assms(2)] by simp

section \<open>A run for the witnesses\<close>

text \<open>50 units of water from hub 1 to warehouse 2, and the same order to a warehouse 9 with no row.\<close>

definition sample_transfer :: "int \<Rightarrow> sample_json" where
  "sample_transfer loc = sample_order ''hub'' 1 ''warehouse'' loc ''request'' ''2'' ''Water'' 50"

definition sample_transfer_fields :: "int \<Rightarrow> order" where
  "sample_transfer_fields loc = sample_order_fields ''hub'' 1 ''warehouse'' loc ''request'' ''2'' ''Water'' 50"

lemma sample_transfer_reads:
  "in_int32 loc \<Longrightarrow> order_reads (sample []) (sample_transfer loc) (sample_transfer_fields loc)"
  unfolding sample_transfer_def sample_transfer_fields_def
  by (rule order_reads_sample) (simp_all add: in_int32_def)

lemma sample_transfer_simps [simp]:
  "o_source_type (sample_transfer_fields loc) = ''hub''"
  "o_source_location (sample_transfer_fields loc) = 1"
  "o_destination_type (sample_transfer_fields loc) = ''warehouse''"
  "o_destination_location (sample_transfer_fields loc) = loc"
  "o_product_name (sample_transfer_fields loc) = ''Water''"
  "o_quantity (sample_transfer_fields loc) = 50"
  by (simp_all add: sample_transfer_fields_def sample_order_fields_def)

lemma sample_transfer_run:
  "realTimeUpdate (sample []) sample_mysql (sample_transfer 2) (seed_db 1000) =
     Inr (1, snd (transfer sample_mysql (sample_transfer_fields 2) (seed_db 1000)))"
  "realTimeUpdate (sample []) sample_mysql (sample_transfer 9) (seed_db 1000) =
     Inr (- 1, snd (transfer sample_mysql (sample_transfer_fields 9) (seed_db 1000)))"
proof -
  have run: "realTimeUpdate (sample []) sample_mysql (sample_transfer loc) d =
      Inr (transfer sample_mysql (sample_transfer_fields loc) d)" if "in_int32 loc" for loc d
    by (rule realTimeUpdate_transfer[OF sample_transfer_reads[OF that]]) (simp add: in_int32_def)
  have "fst (transfer sample_mysql (sample_transfer_fields 2) (seed_db 1000)) = 1"
    "fst (transfer sample_mysql (sample_transfer_fields 9) (seed_db 1000)) = - 1" by code_simp+
  then show "realTimeUpdate (sample []) sample_mysql (sample_transfer 2) (seed_db 1000) =
     Inr (1, snd (transfer sample_mysql (sample_transfer_fields 2) (seed_db 1000)))"
    "realTimeUpdate (sample []) sample_mysql (sample_transfer 9) (seed_db 1000) =
     Inr (- 1, snd (transfer sample_mysql (sample_transfer_fields 9) (seed_db 1000)))"
    by (simp_all add: run in_int32_def prod_eq_iff)
qed

lemma sites [simp]: "site_of ''hub'' = Some Hub" "site_of ''warehouse'' = Some Warehouse"
  by (simp_all add: site_of_def)

theorem realTimeUpdate_refines_move_witness:
  "\<exists>d'. realTimeUpdate (sample []) sample_mysql (sample_transfer 2) (seed_db 1000) = Inr (1, d')
     \<and> stock_at sample_mysql d' = move sample_mysql Warehouse 2 ''Water'' 50
         (move sample_mysql Hub 1 ''Water'' (- 50) (stock_at sample_mysql (seed_db 1000)))"
  using realTimeUpdate_refines_move[OF db_ok_seed sample_transfer_reads _ sample_transfer_run(1)]
  by (simp add: sample_transfer_run in_int32_def)

theorem realTimeUpdate_conserves_units_witness:
  "total_units sample_mysql ''Water'' (snd (transfer sample_mysql (sample_transfer_fields 2) (seed_db 1000)))
     = total_units sample_mysql ''Water'' (seed_db 1000)"
  by (rule realTimeUpdate_conserves_units[OF db_ok_seed sample_transfer_reads _ sample_transfer_run(1)])
    (simp_all add: in_int32_def)

theorem realTimeUpdate_total_units_witness:
  "let d = seed_db 1000; d' = snd (transfer sample_mysql (sample_transfer_fields 9) d)
   in total_units sample_mysql ''Water'' d' = total_units sample_mysql ''Water'' d \<or>
      total_units sample_mysql ''Water'' d' = total_units sample_mysql ''Water'' d - 50"
  using realTimeUpdate_total_units[OF db_ok_seed sample_transfer_reads _ sample_transfer_run(2), of "''Water''"]
  by (auto simp: in_int32_def Let_def)

theorem realTimeUpdate_succeeds_witness:
  "\<exists>d'. realTimeUpdate (sample []) sample_mysql (sample_transfer 2) (seed_db 1000) = Inr (1, d')"
proof (rule realTimeUpdate_succeeds[OF db_ok_seed db_reliable_sample sample_transfer_reads])
  show "stock_at sample_mysql (seed_db 1000) Hub (o_source_location (sample_transfer_fields 2))
      (o_product_name (sample_transfer_fields 2)) = Some 1000" by code_simp
  show "stock_at sample_mysql (seed_db 1000) Warehouse (o_destination_location (sample_transfer_fields 2))
      (o_product_name (sample_transfer_fields 2)) = Some 1000" by code_simp
qed (simp_all add: in_int32_def)

theorem realTimeUpdate_keeps_tables_witness:
  "db_ok sample_mysql (snd (transfer sample_mysql (sample_transfer_fields 9) (seed_db 1000)))"
  by (rule realTimeUpdate_keeps_tables[OF db_ok_seed sample_transfer_run(2)]) simp_all

end
