(* ===== verification/Stock_Checks.thy ===== *)
theory Stock_Checks
  imports Error_Alert Transfers
begin

text \<open>
  \<open>anomalieHandler.cpp\<close> and \<open>lowStockChecker.cpp\<close>: the check that the source of an order holds the
  requested quantity, the low-stock alert, and the automatic re-stock of a warehouse.  The lemmas
  use the contract of the tables, through its two instances.
\<close>

section \<open>checkProductStock\<close>

definition ERROR_INSUFFICIENT_STOCK :: int where "ERROR_INSUFFICIENT_STOCK = 101"

text \<open>The tail of the function, from the lookup on; \<open>sourceId\<close> came out of \<open>std::stoi\<close>.\<close>

definition check_available :: "'j jsoncpp \<Rightarrow> int \<Rightarrow> int \<Rightarrow> string \<Rightarrow> (bool \<times> string) result" where
  "check_available J requestedQuantity availableStock errorMessage =
     (if availableStock < 0 then
        reject J ERROR_INSUFFICIENT_STOCK ''Inventory fetch failure''
          ''Could not retrieve current stock from the database.''
      else if requestedQuantity \<le> availableStock then Inr (True, errorMessage)
      else reject J ERROR_INSUFFICIENT_STOCK ''Insufficient stock''
             (''Requested '' @ to_string requestedQuantity @ '', available '' @ to_string availableStock))"

definition checkProductStock ::
  "'j jsoncpp \<Rightarrow> mysql \<Rightarrow> 'j \<Rightarrow> string \<Rightarrow> inv_db \<Rightarrow> ((bool \<times> string) \<times> inv_db) result" where
  "checkProductStock J M orderJson errorMessage d =
     rbind (jv_index J orderJson ''general_info'') (\<lambda>generalInfo.
     if jv_isNull J generalInfo then
       rbind (reject J ERROR_INSUFFICIENT_STOCK ''Missing 'general_info' field''
         ''The 'general_info' object is required but was not found.'') (\<lambda>r. Inr (r, d))
     else
     rbind (jv_index J generalInfo ''source'') (\<lambda>source.
     rbind (json_string J source [''type'']) (\<lambda>sourceType.
     rbind (json_string J source [''location'']) (\<lambda>sourceLocationStr.
     if sourceType = [] \<or> sourceLocationStr = [] then
       rbind (reject J ERROR_INSUFFICIENT_STOCK ''Missing source type or location''
         ''The 'source' object must include both 'type' and 'location' fields.'') (\<lambda>r. Inr (r, d))
     else case stoi sourceLocationStr of
       Inl _ \<Rightarrow>
         rbind (reject J ERROR_INSUFFICIENT_STOCK ''Invalid source location format''
           ''The source location must be a valid integer string.'') (\<lambda>r. Inr (r, d))
     | Inr sourceId \<Rightarrow>
     rbind (jv_index J generalInfo ''action'') (\<lambda>action.
     rbind (if jv_isNull J action then Inr True else rbind (jv_isMember J action ''product'') (\<lambda>b. Inr (\<not> b))) (\<lambda>missing.
     if missing then
       rbind (reject J ERROR_INSUFFICIENT_STOCK ''Missing 'action' or 'product' field''
         ''The 'action' object and its 'product' field must exist in the request.'') (\<lambda>r. Inr (r, d))
     else
     rbind (jv_index J action ''product'') (\<lambda>product.
     rbind (json_string J product [''name'']) (\<lambda>productName.
     rbind (json_int J product [''quantity'']) (\<lambda>requestedQuantity.
     if productName = [] \<or> requestedQuantity \<le> 0 then
       rbind (reject J ERROR_INSUFFICIENT_STOCK ''Invalid product data''
         ''Product name must not be empty and quantity must be greater than 0.'') (\<lambda>r. Inr (r, d))
     else if sourceType = ''hub'' then
       let (availableStock, d) = getHubInventory M sourceId productName d
       in rbind (check_available J requestedQuantity availableStock errorMessage) (\<lambda>r. Inr (r, d))
     else if sourceType = ''warehouse'' then
       let (availableStock, d) = getWarehouseInventory M sourceId productName d
       in rbind (check_available J requestedQuantity availableStock errorMessage) (\<lambda>r. Inr (r, d))
     else
       rbind (reject J ERROR_INSUFFICIENT_STOCK ''Unknown source type''
         ''Source type must be either 'hub' or 'warehouse'.'') (\<lambda>r. Inr (r, d)))))))))))"

section \<open>Low stock and re-stock\<close>

definition MAX_CAPACITY :: int where "MAX_CAPACITY = 1000"
definition STOCK_THRESHOLD :: int where "STOCK_THRESHOLD = 200"
definition RESTOCK_THRESHOLD :: int where "RESTOCK_THRESHOLD = 100"

lemmas capacities = MAX_CAPACITY_def STOCK_THRESHOLD_def RESTOCK_THRESHOLD_def

text \<open>Both functions return their verdict and the alert text, which they overwrite when they alert.\<close>

definition checkLowStockAlert ::
  "'j jsoncpp \<Rightarrow> mysql \<Rightarrow> 'j \<Rightarrow> string \<Rightarrow> inv_db \<Rightarrow> ((bool \<times> string) \<times> inv_db) result" where
  "checkLowStockAlert J M pedidoJson alertOut d =
     rbind (json_path J pedidoJson [''general_info'', ''source'']) (\<lambda>source.
     rbind (json_string J source [''type'']) (\<lambda>sourceType.
     if sourceType \<noteq> ''warehouse'' then Inr ((False, alertOut), d)
     else
     rbind (json_string J source [''location'']) (\<lambda>location.
     rbind (stoi location) (\<lambda>warehouseId.
     rbind (json_string J pedidoJson (p_product ''name'')) (\<lambda>productName.
     rbind (json_string J pedidoJson (p_product ''id'')) (\<lambda>productIdStr.
     rbind (stoi productIdStr) (\<lambda>productId.
     let (currentStock, d) = getWarehouseInventory M warehouseId productName d
     in if currentStock = - 1 then Inr ((False, alertOut), d)
        else if currentStock \<le> STOCK_THRESHOLD then
          rbind (generateAlert J ''Low Stock Alert: '' ''Stock levels are <= 20 per cent of max capacity''
                   productId productName) (\<lambda>alert. Inr ((True, alert), d))
        else Inr ((False, alertOut), d))))))))"

definition reStock ::
  "'j jsoncpp \<Rightarrow> mysql \<Rightarrow> 'j \<Rightarrow> string \<Rightarrow> inv_db \<Rightarrow> ((bool \<times> string) \<times> inv_db) result" where
  "reStock J M pedidoJson alertOut d =
     rbind (json_path J pedidoJson [''general_info'', ''source'']) (\<lambda>source.
     rbind (json_string J source [''type'']) (\<lambda>sourceType.
     if sourceType \<noteq> ''warehouse'' then Inr ((False, alertOut), d)
     else
     rbind (json_string J source [''location'']) (\<lambda>location.
     rbind (stoi location) (\<lambda>warehouseId.
     rbind (json_string J pedidoJson (p_product ''name'')) (\<lambda>productName.
     rbind (json_string J pedidoJson (p_product ''id'')) (\<lambda>productIdStr.
     rbind (stoi productIdStr) (\<lambda>productId.
     let (currentStock, d) = getWarehouseInventory M warehouseId productName d
     in if currentStock = - 1 then Inr ((False, alertOut), d)
        else
        rbind (int32_sub MAX_CAPACITY currentStock) (\<lambda>ammountToRestock.
        if currentStock \<le> RESTOCK_THRESHOLD then
          let (updateResult, d) = updateWarehouseInventory M warehouseId productName ammountToRestock d
          in if updateResult = 1 then
               rbind (generateAlert J ''Re-stock Alert: '' ''Stock replenished to full capacity (1000 units)''
                        productId productName) (\<lambda>alert. Inr ((True, alert), d))
             else Inr ((False, alertOut), d)
        else Inr ((True, alertOut), d)))))))))"

section \<open>On the fields of an order\<close>

fun get_at :: "mysql \<Rightarrow> site \<Rightarrow> int \<Rightarrow> string \<Rightarrow> inv_db \<Rightarrow> int \<times> inv_db" where
  "get_at M Hub = getHubInventory M"
| "get_at M Warehouse = getWarehouseInventory M"

lemma get_at_state: "snd (get_at M s l p d) = db_tick d"
  by (cases s) (simp_all add: db_functions)

lemma stock_at_tick [simp]: "stock_at M (db_tick d) = stock_at M d"
  by (rule stock_at_same) simp_all

lemma total_units_tick [simp]: "total_units M p (db_tick d) = total_units M p d"
  by (simp add: total_units_def)

lemma get_at_value:
  "db_reliable M d \<Longrightarrow> fst (get_at M s l p d) = (case stock_at M d s l p of None \<Rightarrow> - 1 | Some a \<Rightarrow> a)"
  by (cases s) (simp_all add: db_functions fetch_quantity_level stock_at_def db_reliable_tick)

lemma get_at_sound: "fst (get_at M s l p d) \<noteq> - 1 \<Longrightarrow> stock_at M d s l p = Some (fst (get_at M s l p d))"
  using hub.get_sound[of M l p d] warehouse.get_sound[of M l p d] by (cases s) (auto simp: stock_at_def)

lemma stock_at_range: "\<lbrakk>db_ok M d; stock_at M d s l p = Some a\<rbrakk> \<Longrightarrow> 0 \<le> a \<and> a \<le> INT_MAX"
  by (rule stock_range)

lemma check_available_True:
  "check_available J q n e = Inr (True, t) \<longleftrightarrow> 0 \<le> n \<and> q \<le> n \<and> t = e"
  by (auto simp: check_available_def dest: reject_False)

lemma check_available_False:
  assumes "jsoncpp_ok J" and "n < 0 \<or> n < q"
  shows "\<exists>t m d. check_available J q n e = Inr (False, t) \<and> error_text J 101 m d ERROR t"
proof -
  obtain m d where "check_available J q n e = reject J 101 m d"
    using assms(2) by (cases "n < 0") (auto simp: check_available_def ERROR_INSUFFICIENT_STOCK_def)
  then show ?thesis using reject_text[OF assms(1), of 101 m d] by auto
qed

lemma checkProductStock_reads:
  assumes "order_reads J root r" and "site_of (o_source_type r) = Some s"
    and "o_product_name r \<noteq> []" and "0 < o_quantity r"
  shows "checkProductStock J M root e d =
     rbind (check_available J (o_quantity r) (fst (get_at M s (o_source_location r) (o_product_name r) d)) e)
       (\<lambda>v. Inr (v, db_tick d))"
proof -
  obtain g sr a p where n: "jv_index J root ''general_info'' = Inr g" "\<not> jv_isNull J g"
    "jv_index J g ''source'' = Inr sr" "jv_index J g ''action'' = Inr a" "\<not> jv_isNull J a"
    "jv_index J a ''product'' = Inr p" "jv_isMember J a ''product'' = Inr True"
    by (rule order_reads_nodes[OF assms(1)]) (rule that)
  have reads: "json_string J sr [''type''] = Inr (o_source_type r)"
    "json_string J sr [''location''] = Inr (to_string (o_source_location r))"
    "json_string J p [''name''] = Inr (o_product_name r)"
    "json_int J p [''quantity''] = Inr (o_quantity r)"
    using order_readsD[OF assms(1)] n by (simp_all add: json_string_def json_int_def)
  have "stoi (to_string (o_source_location r)) = Inr (o_source_location r)"
    using order_readsD(10)[OF assms(1)] by (rule stoi_to_string)
  moreover have "snd (getHubInventory M l q d) = db_tick d" "snd (getWarehouseInventory M l q d) = db_tick d" for l q
    by (simp_all add: db_functions)
  ultimately show ?thesis
    using n reads assms(2-4)
    by (auto simp: checkProductStock_def site_of_def Let_def case_prod_unfold split: if_splits)
qed

text \<open>The reads that the low-stock alert and the re-stock share.\<close>

lemma warehouse_reads:
  assumes "order_reads J root r"
  obtains sr where "json_path J root [''general_info'', ''source''] = Inr sr"
    and "json_string J sr [''type''] = Inr (o_source_type r)"
    and "json_string J sr [''location''] = Inr (to_string (o_source_location r))"
proof -
  obtain g sr where n: "jv_index J root ''general_info'' = Inr g" "jv_index J g ''source'' = Inr sr"
    by (rule order_reads_nodes[OF assms]) (rule that)
  then show ?thesis
    using order_readsD[OF assms] by (intro that[of sr]) (simp_all add: json_string_def)
qed

lemma checkLowStockAlert_reads:
  assumes "order_reads J root r" and "o_source_type r = ''warehouse''" and "stoi (o_product_id r) = Inr i"
  shows "checkLowStockAlert J M root e d =
    (let n = fst (get_at M Warehouse (o_source_location r) (o_product_name r) d) in
     if n = - 1 then Inr ((False, e), db_tick d)
     else if n \<le> 200 then
       rbind (generateAlert J ''Low Stock Alert: '' ''Stock levels are <= 20 per cent of max capacity''
                i (o_product_name r)) (\<lambda>alert. Inr ((True, alert), db_tick d))
     else Inr ((False, e), db_tick d))"
proof -
  obtain sr where sr: "json_path J root [''general_info'', ''source''] = Inr sr"
    "json_string J sr [''type''] = Inr (o_source_type r)"
    "json_string J sr [''location''] = Inr (to_string (o_source_location r))"
    by (rule warehouse_reads[OF assms(1)]) (rule that)
  have "snd (getWarehouseInventory M l q d) = db_tick d" for l q by (simp add: db_functions)
  then show ?thesis
    using sr assms order_readsD[OF assms(1)] stoi_to_string[OF order_readsD(10)[OF assms(1)]]
    by (simp add: checkLowStockAlert_def Let_def case_prod_unfold capacities cong: if_cong)
qed

lemma reStock_reads:
  assumes "order_reads J root r" and "o_source_type r = ''warehouse''" and "stoi (o_product_id r) = Inr i"
  shows "reStock J M root e d =
    (let n = fst (get_at M Warehouse (o_source_location r) (o_product_name r) d) in
     if n = - 1 then Inr ((False, e), db_tick d)
     else rbind (int32_sub 1000 n) (\<lambda>k.
       if n \<le> 100 then
         let u = update_at M Warehouse (o_source_location r) (o_product_name r) k (db_tick d) in
         if fst u = 1 then
           rbind (generateAlert J ''Re-stock Alert: '' ''Stock replenished to full capacity (1000 units)''
                    i (o_product_name r)) (\<lambda>alert. Inr ((True, alert), snd u))
         else Inr ((False, e), snd u)
       else Inr ((True, e), db_tick d)))"
proof -
  obtain sr where sr: "json_path J root [''general_info'', ''source''] = Inr sr"
    "json_string J sr [''type''] = Inr (o_source_type r)"
    "json_string J sr [''location''] = Inr (to_string (o_source_location r))"
    by (rule warehouse_reads[OF assms(1)]) (rule that)
  have "snd (getWarehouseInventory M l q d) = db_tick d" for l q by (simp add: db_functions)
  then show ?thesis
    using sr assms order_readsD[OF assms(1)] stoi_to_string[OF order_readsD(10)[OF assms(1)]]
    by (simp add: reStock_def Let_def case_prod_unfold capacities cong: if_cong)
qed

lemma checkProductStock_accepts:
  assumes "order_reads J root r" and "site_of (o_source_type r) = Some s"
    and "o_product_name r \<noteq> []" and "0 < o_quantity r" and "db_reliable M d"
    and "stock_at M d s (o_source_location r) (o_product_name r) = Some a" and "o_quantity r \<le> a"
  shows "checkProductStock J M root e d = Inr ((True, e), db_tick d)"
proof -
  have "check_available J (o_quantity r) a e = Inr (True, e)"
    using assms(4,7) by (simp add: check_available_True)
  then show ?thesis
    by (simp add: checkProductStock_reads[OF assms(1-4)] get_at_value[OF assms(5)] assms(6))
qed

text \<open>Orders from a hub are no business of the two functions.\<close>

lemma stock_functions_hub:
  assumes "order_reads J root r" and "o_source_type r \<noteq> ''warehouse''"
  shows "checkLowStockAlert J M root e d = Inr ((False, e), d)" and "reStock J M root e d = Inr ((False, e), d)"
proof -
  obtain sr where "json_path J root [''general_info'', ''source''] = Inr sr"
    "json_string J sr [''type''] = Inr (o_source_type r)"
    by (rule warehouse_reads[OF assms(1)]) (rule that)
  with assms(2) show "checkLowStockAlert J M root e d = Inr ((False, e), d)" "reStock J M root e d = Inr ((False, e), d)"
    by (simp_all add: checkLowStockAlert_def reStock_def)
qed

lemma stock_functions_bad_id:
  assumes "order_reads J root r" and "o_source_type r = ''warehouse''" and "stoi (o_product_id r) = Inl x"
  shows "checkLowStockAlert J M root alertOut d = Inl x \<and> reStock J M root alertOut d = Inl x"
proof -
  obtain sr where "json_path J root [''general_info'', ''source''] = Inr sr"
    "json_string J sr [''type''] = Inr (o_source_type r)"
    "json_string J sr [''location''] = Inr (to_string (o_source_location r))"
    by (rule warehouse_reads[OF assms(1)]) (rule that)
  then show ?thesis
    using assms order_readsD[OF assms(1)] stoi_to_string[OF order_readsD(10)[OF assms(1)]]
    by (simp add: checkLowStockAlert_def reStock_def)
qed

text \<open>On a database that answers, for an order from a warehouse whose level is known.\<close>

lemma checkLowStockAlert_level:
  assumes "jsoncpp_ok J" and "db_ok M d" and "db_reliable M d" and "order_reads J root r"
    and "o_source_type r = ''warehouse''" and "stoi (o_product_id r) = Inr i"
    and "stock_at M d Warehouse (o_source_location r) (o_product_name r) = Some a"
  shows "\<exists>t. checkLowStockAlert J M root e d = Inr ((a \<le> 200, t), db_tick d)
     \<and> (if a \<le> 200 then alert_text J ''Low Stock Alert: '' ''Stock levels are <= 20 per cent of max capacity''
            i (o_product_name r) t else t = e)"
proof -
  have "fst (get_at M Warehouse (o_source_location r) (o_product_name r) d) = a" "a \<noteq> - 1"
    using get_at_value[OF assms(3), of Warehouse] assms(7) stock_at_range[OF assms(2,7)] by simp_all
  moreover obtain t where "generateAlert J ''Low Stock Alert: ''
      ''Stock levels are <= 20 per cent of max capacity'' i (o_product_name r) = Inr t"
    "alert_text J ''Low Stock Alert: '' ''Stock levels are <= 20 per cent of max capacity'' i (o_product_name r) t"
    using generateAlert_text[OF assms(1)] by blast
  ultimately show ?thesis
    by (cases "a \<le> 200") (simp_all add: checkLowStockAlert_reads[OF assms(4-6)])
qed

lemma reStock_level:
  assumes "jsoncpp_ok J" and "db_ok M d" and "db_reliable M d" and "order_reads J root r"
    and "o_source_type r = ''warehouse''" and "stoi (o_product_id r) = Inr i"
    and "stock_at M d Warehouse (o_source_location r) (o_product_name r) = Some a" and "a \<le> 100"
  shows "\<exists>t d'. reStock J M root e d = Inr ((True, t), d')
     \<and> stock_at M d' Warehouse (o_source_location r) (o_product_name r) = Some 1000
     \<and> stock_at M d' = move M Warehouse (o_source_location r) (o_product_name r) (1000 - a) (stock_at M d)
     \<and> alert_text J ''Re-stock Alert: '' ''Stock replenished to full capacity (1000 units)''
         i (o_product_name r) t"
proof -
  let ?l = "o_source_location r" and ?p = "o_product_name r"
  let ?u = "update_at M Warehouse ?l ?p (1000 - a) (db_tick d)"
  have n: "fst (get_at M Warehouse ?l ?p d) = a" and a: "0 \<le> a"
    using get_at_value[OF assms(3), of Warehouse] assms(7) stock_at_range[OF assms(2,7)] by simp_all
  have ok: "db_ok M (db_tick d)" using assms(2) by simp
  have one: "fst ?u = 1" and full: "stock_at M (snd ?u) Warehouse ?l ?p = Some 1000"
    using warehouse.refill[OF assms(2,3), of ?l ?p 1000] n a assms(8) get_at_state[of M Warehouse ?l ?p d]
    by (simp_all add: stock_at_def)
  have st: "stock_at M (snd ?u) = move M Warehouse ?l ?p (1000 - a) (stock_at M d)"
    using one by (cases rule: update_at_cases[OF ok, of Warehouse ?l ?p "1000 - a"]) simp_all
  obtain t where t: "generateAlert J ''Re-stock Alert: '' ''Stock replenished to full capacity (1000 units)''
      i ?p = Inr t" "alert_text J ''Re-stock Alert: '' ''Stock replenished to full capacity (1000 units)'' i ?p t"
    using generateAlert_text[OF assms(1)] by blast
  have "int32_sub 1000 a = Inr (1000 - a)" using a assms(8) by (simp add: int32_sub_def in_int32_def)
  then have "reStock J M root e d = Inr ((True, t), snd ?u)"
    using n a assms(8) one t by (simp add: reStock_reads[OF assms(4-6)] Let_def)
  with full st t(2) show ?thesis by blast
qed

lemma reStock_above:
  assumes "db_ok M d" and "db_reliable M d" and "order_reads J root r"
    and "o_source_type r = ''warehouse''" and "stoi (o_product_id r) = Inr i"
    and "stock_at M d Warehouse (o_source_location r) (o_product_name r) = Some a" and "100 < a"
  shows "reStock J M root e d = Inr ((True, e), db_tick d)"
proof -
  have "fst (get_at M Warehouse (o_source_location r) (o_product_name r) d) = a"
    using get_at_value[OF assms(2), of Warehouse] assms(6) by simp
  moreover have "int32_sub 1000 a = Inr (1000 - a)"
    using assms(7) stock_at_range[OF assms(1,6)] by (simp add: int32_sub_def in_int32_def)
  ultimately show ?thesis using assms(7) by (simp add: reStock_reads[OF assms(3-5)] Let_def)
qed

section \<open>The tables afterwards\<close>

lemma check_get_ok:
  "db_ok M d \<Longrightarrow> db_ok M (snd (getHubInventory M l p d))"
  "db_ok M d \<Longrightarrow> db_ok M (snd (getWarehouseInventory M l p d))"
  by (simp_all add: db_functions)

lemma checkProductStock_ok:
  "db_ok M d \<Longrightarrow> on_value (\<lambda>v. db_ok M (snd v)) (checkProductStock J M root e d)"
  unfolding checkProductStock_def case_prod_unfold Let_def
  by (intro on_value_intros) (simp_all add: check_get_ok)

lemma checkLowStockAlert_ok:
  "db_ok M d \<Longrightarrow> on_value (\<lambda>v. db_ok M (snd v)) (checkLowStockAlert J M root e d)"
  unfolding checkLowStockAlert_def case_prod_unfold Let_def
  by (intro on_value_intros) (simp_all add: check_get_ok)

lemma reStock_ok:
  "db_ok M d \<Longrightarrow> on_value (\<lambda>v. db_ok M (snd v)) (reStock J M root e d)"
  unfolding reStock_def case_prod_unfold Let_def
  by (intro on_value_intros) (simp_all add: check_get_ok db_ok_updates)

section \<open>Properties\<close>

text \<open>
  C5: with a database that answers, the check accepts an order from a hub or a warehouse exactly
  when the source location holds the requested quantity; it changes no level.
\<close>

theorem checkProductStock_iff:
  assumes "jsoncpp_ok J" and "db_ok M d" and "db_reliable M d" and "order_reads J root r"
    and "site_of (o_source_type r) = Some s" and "o_product_name r \<noteq> []" and "0 < o_quantity r"
  shows "\<exists>v t d'. checkProductStock J M root e d = Inr ((v, t), d') \<and> stock_at M d' = stock_at M d
     \<and> (v \<longleftrightarrow> (\<exists>a. stock_at M d s (o_source_location r) (o_product_name r) = Some a \<and> o_quantity r \<le> a))
     \<and> (\<not> v \<longrightarrow> (\<exists>m dsc. error_text J 101 m dsc ERROR t))"
proof -
  let ?n = "fst (get_at M s (o_source_location r) (o_product_name r) d)"
  note run = checkProductStock_reads[OF assms(4-7), of M e d]
  note val = get_at_value[OF assms(3), of s "o_source_location r" "o_product_name r"]
  show ?thesis
  proof (cases "0 \<le> ?n \<and> o_quantity r \<le> ?n")
    case True
    then have "check_available J (o_quantity r) ?n e = Inr (True, e)" by (simp add: check_available_True)
    with True show ?thesis using val by (auto simp: run split: option.splits)
  next
    case False
    then obtain t m dsc where "check_available J (o_quantity r) ?n e = Inr (False, t)"
        "error_text J 101 m dsc ERROR t"
      using check_available_False[OF assms(1), of ?n "o_quantity r" e] by auto
    moreover have "\<not> (\<exists>a. stock_at M d s (o_source_location r) (o_product_name r) = Some a \<and> o_quantity r \<le> a)"
      using False val stock_at_range[OF assms(2), of s "o_source_location r" "o_product_name r"] by auto
    ultimately show ?thesis by (auto simp: run)
  qed
qed

text \<open>
  For every request and every pattern of connector failures, a positive check means that the
  location named by the request holds the requested positive quantity, and no level changed.
\<close>

theorem checkProductStock_sound:
  assumes "checkProductStock J M root e d = Inr ((True, t), d')"
  shows "\<exists>st loc s l p q a. json_string J root (p_source ''type'') = Inr st \<and> site_of st = Some s
     \<and> json_string J root (p_source ''location'') = Inr loc \<and> stoi loc = Inr l
     \<and> json_string J root (p_product ''name'') = Inr p \<and> json_int J root (p_product ''quantity'') = Inr q
     \<and> 0 < q \<and> stock_at M d s l p = Some a \<and> q \<le> a \<and> stock_at M d' = stock_at M d \<and> t = e"
proof -
  have state: "snd (getHubInventory M l p d) = db_tick d" "snd (getWarehouseInventory M l p d) = db_tick d" for l p
    by (simp_all add: db_functions)
  have sound: "0 \<le> fst (getHubInventory M l p d) \<Longrightarrow> stock_at M d Hub l p = Some (fst (getHubInventory M l p d))"
    "0 \<le> fst (getWarehouseInventory M l p d) \<Longrightarrow>
       stock_at M d Warehouse l p = Some (fst (getWarehouseInventory M l p d))" for l p
    using get_at_sound[of M Hub l p d] get_at_sound[of M Warehouse l p d] by simp_all
  from assms show ?thesis
    unfolding checkProductStock_def rbind_eq_Inr[of "jv_index J x y" for x y] reject_guard
      rbind_eq_Inr[of "json_string J x y" for x y] rbind_eq_Inr[of "json_int J x y" for x y]
      rbind_eq_Inr[of "if x then y else z" for x y z] Let_def case_prod_unfold
    by (clarsimp simp: rbind_eq_Inr)
      (auto simp: json_steps rbind_eq_Inr state check_available_True site_of_def sound split: if_split_asm)
qed

text \<open>
  The check and the transfer fit together: on a database that answers, an order that passed the
  check and leaves the system (its client is external) is always carried out.
\<close>

theorem checked_external_order_succeeds:
  assumes "db_ok M d" and "db_reliable M d" and "order_reads J root r"
    and "site_of (o_source_type r) = Some s" and "site_of (o_destination_type r) = None"
    and "o_product_name r \<noteq> []" and "0 < o_quantity r"
    and "checkProductStock J M root e d = Inr ((True, t), d1)"
  shows "\<exists>d2. realTimeUpdate J M root d1 = Inr (1, d2)"
proof -
  let ?l = "o_source_location r" and ?p = "o_product_name r" and ?q = "o_quantity r"
  have "check_available J ?q (fst (get_at M s ?l ?p d)) e = Inr (True, t)" and d1: "d1 = snd (get_at M s ?l ?p d)"
    using assms(8) by (auto simp: checkProductStock_reads[OF assms(3,4,6,7)] rbind_eq_Inr get_at_state)
  then have n: "?q \<le> fst (get_at M s ?l ?p d)" by (simp add: check_available_True)
  have "fst (update_at M s ?l ?p (- ?q) d1) = 1"
    using hub.take_checked[OF assms(1,2,7), of ?l ?p] warehouse.take_checked[OF assms(1,2,7), of ?l ?p] n
    by (cases s) (simp_all add: d1)
  then have "fst (transfer M r d1) = 1"
    by (simp add: transfer_def assms(4,5) case_prod_unfold Let_def)
  moreover have "realTimeUpdate J M root d1 = Inr (transfer M r d1)"
    using realTimeUpdate_transfer[OF assms(3) in_int32_neg[OF assms(7) order_readsD(12)[OF assms(3)]]] .
  ultimately show ?thesis by (cases "transfer M r d1") simp
qed

text \<open>
  with a database that answers, the low-stock check alerts exactly when the warehouse of the
  order is down to 200 units or fewer of the product; the alert names the product.
\<close>

theorem checkLowStockAlert_iff:
  assumes "jsoncpp_ok J" and "db_ok M d" and "db_reliable M d" and "order_reads J root r"
    and "o_source_type r = ''warehouse''" and "stoi (o_product_id r) = Inr i"
    and "stock_at M d Warehouse (o_source_location r) (o_product_name r) = Some a"
  shows "\<exists>t d'. checkLowStockAlert J M root e d = Inr ((a \<le> 200, t), d') \<and> stock_at M d' = stock_at M d
     \<and> (if a \<le> 200 then alert_text J ''Low Stock Alert: '' ''Stock levels are <= 20 per cent of max capacity''
            i (o_product_name r) t else t = e)"
  using checkLowStockAlert_level[OF assms] stock_at_tick by blast

text \<open>
  C6: on a database that answers, re-stocking a warehouse that holds 100 units or fewer leaves it
  with exactly 1000 units of the product, alerts, and changes no other level.
\<close>

theorem reStock_fills_warehouse:
  assumes "jsoncpp_ok J" and "db_ok M d" and "db_reliable M d" and "order_reads J root r"
    and "o_source_type r = ''warehouse''" and "stoi (o_product_id r) = Inr i"
    and "stock_at M d Warehouse (o_source_location r) (o_product_name r) = Some a" and "a \<le> 100"
  shows "\<exists>t d'. reStock J M root e d = Inr ((True, t), d')
     \<and> stock_at M d' Warehouse (o_source_location r) (o_product_name r) = Some 1000
     \<and> stock_at M d' = move M Warehouse (o_source_location r) (o_product_name r) (1000 - a) (stock_at M d)
     \<and> alert_text J ''Re-stock Alert: '' ''Stock replenished to full capacity (1000 units)''
         i (o_product_name r) t"
  by (rule reStock_level[OF assms])

text \<open>
  a warehouse that holds more than 100 units is not re-stocked and nothing is written to the
  database, but the function still answers true, with the alert text it was called with.
\<close>

theorem reStock_true_without_restock:
  assumes "db_ok M d" and "db_reliable M d" and "order_reads J root r"
    and "o_source_type r = ''warehouse''" and "stoi (o_product_id r) = Inr i"
    and "stock_at M d Warehouse (o_source_location r) (o_product_name r) = Some a" and "100 < a"
  shows "\<exists>d'. reStock J M root alertOut d = Inr ((True, alertOut), d')
     \<and> hubs d' = hubs d \<and> warehouses d' = warehouses d"
  using reStock_above[OF assms] by simp

text \<open>
  for every request and every pattern of connector failures, a re-stock keeps the tables well
  formed.
\<close>

theorem reStock_keeps_tables:
  assumes "db_ok M d" and "reStock J M request alertOut d = Inr (v, d')"
  shows "db_ok M d'"
  using on_valueD[OF reStock_ok[OF assms(1)] assms(2)] by simp

text \<open>
  a warehouse order whose product id is not a number makes both stock functions throw before
  they read the database.
\<close>

theorem stock_alerts_need_numeric_id:
  assumes "order_reads J root r" and "o_source_type r = ''warehouse''" and "stoi (o_product_id r) = Inl x"
  shows "checkLowStockAlert J M root alertOut d = Inl x \<and> reStock J M root alertOut d = Inl x"
  using stock_functions_bad_id[OF assms] by blast

section \<open>Witnesses\<close>

text \<open>
  A hub or an external client orders water from warehouse 1; the tables hold the same quantity of
  everything everywhere.
\<close>

definition sample_request :: "string \<Rightarrow> string \<Rightarrow> int \<Rightarrow> sample_json" where
  "sample_request client pid q = sample_order ''warehouse'' 1 client 2 ''request'' pid ''Water'' q"

definition sample_request_fields :: "string \<Rightarrow> string \<Rightarrow> int \<Rightarrow> order" where
  "sample_request_fields client pid q =
     sample_order_fields ''warehouse'' 1 client 2 ''request'' pid ''Water'' q"

lemma sample_request_reads:
  "in_int32 q \<Longrightarrow> order_reads (sample docs) (sample_request client pid q) (sample_request_fields client pid q)"
  unfolding sample_request_def sample_request_fields_def
  by (rule order_reads_sample) (simp_all add: in_int32_def)

lemma sample_request_simps [simp]:
  "o_source_type (sample_request_fields c i q) = ''warehouse''"
  "o_source_location (sample_request_fields c i q) = 1"
  "o_destination_type (sample_request_fields c i q) = c"
  "o_destination_location (sample_request_fields c i q) = 2"
  "o_action_type (sample_request_fields c i q) = ''request''"
  "o_product_id (sample_request_fields c i q) = i"
  "o_product_name (sample_request_fields c i q) = ''Water''"
  "o_quantity (sample_request_fields c i q) = q"
  by (simp_all add: sample_request_fields_def sample_order_fields_def)

lemma seed_stock: "stock_at sample_mysql (seed_db q) Warehouse 1 ''Water'' = Some q"
  by (simp add: stock_at_def level_def sql_get_def row_matches_def seed_db_def seed_rows_def
      seed_products_def)

lemma stoi_2: "stoi ''2'' = Inr 2"
  by code_simp

theorem checkProductStock_iff_witness:
  "\<exists>v t d'. checkProductStock (sample []) sample_mysql (sample_request ''hub'' ''2'' 50) '''' (seed_db 1000)
     = Inr ((v, t), d') \<and> v"
  using checkProductStock_iff[OF jsoncpp_ok_sample db_ok_seed db_reliable_sample sample_request_reads,
      of 1000 50 "''hub''" "''2''" Warehouse "[]" "''''"]
  by (auto simp: in_int32_def seed_stock)

lemma sample_check_run:
  "checkProductStock (sample []) sample_mysql (sample_request ''external'' ''2'' 20) '''' (seed_db 1000)
     = Inr ((True, ''''), db_tick (seed_db 1000))"
proof -
  have "check_available (sample []) 20 1000 '''' = Inr (True, '''')" by (simp add: check_available_True)
  moreover have "fst (get_at sample_mysql Warehouse 1 ''Water'' (seed_db 1000)) = 1000"
    using get_at_value[OF db_reliable_sample, of Warehouse] seed_stock by simp
  ultimately show ?thesis
    by (simp add: checkProductStock_reads[OF sample_request_reads, of _ _ _ Warehouse] in_int32_def)
qed

theorem checkProductStock_sound_witness:
  "\<exists>a. stock_at sample_mysql (seed_db 1000) Warehouse 1 ''Water'' = Some a \<and> 20 \<le> a"
proof -
  have "stoi (to_string 1) = Inr 1" by (simp add: stoi_to_string in_int32_def)
  with checkProductStock_sound[OF sample_check_run] show ?thesis
    by (auto simp: json_string_def json_int_def sample_request_def sample_order_def in_int32_def)
qed

theorem checked_external_order_succeeds_witness:
  "\<exists>d2. realTimeUpdate (sample []) sample_mysql (sample_request ''external'' ''2'' 20)
     (db_tick (seed_db 1000)) = Inr (1, d2)"
  by (rule checked_external_order_succeeds[OF db_ok_seed db_reliable_sample sample_request_reads _ _ _ _
        sample_check_run]) (simp_all add: in_int32_def site_of_def)

theorem checkLowStockAlert_iff_witness:
  "\<exists>t d'. checkLowStockAlert (sample []) sample_mysql (sample_request ''hub'' ''2'' 50) '''' (seed_db 150)
     = Inr ((True, t), d')"
  using checkLowStockAlert_iff[OF jsoncpp_ok_sample db_ok_seed db_reliable_sample sample_request_reads,
      of 150 50 "''hub''" "''2''" 2 150 "[]" "''''"]
  by (auto simp: in_int32_def seed_stock stoi_2)

theorem reStock_fills_warehouse_witness:
  "\<exists>t d'. reStock (sample []) sample_mysql (sample_request ''hub'' ''2'' 50) '''' (seed_db 100)
     = Inr ((True, t), d') \<and> stock_at sample_mysql d' Warehouse 1 ''Water'' = Some 1000"
  using reStock_fills_warehouse[OF jsoncpp_ok_sample db_ok_seed db_reliable_sample sample_request_reads,
      of 100 50 "''hub''" "''2''" 2 100 "[]" "''''"]
  by (auto simp: in_int32_def seed_stock stoi_2)

theorem reStock_true_without_restock_witness:
  "\<exists>d'. reStock (sample []) sample_mysql (sample_request ''hub'' ''2'' 50) ''old'' (seed_db 101)
     = Inr ((True, ''old''), d') \<and> warehouses d' = warehouses (seed_db 101)"
  using reStock_true_without_restock[OF db_ok_seed db_reliable_sample sample_request_reads,
      of 101 50 "''hub''" "''2''" 2 101 "[]" "''old''"]
  by (auto simp: in_int32_def seed_stock stoi_2)

theorem reStock_keeps_tables_witness:
  "\<exists>v d'. reStock (sample []) sample_mysql (sample_request ''hub'' ''2'' 50) '''' (seed_db 100) = Inr (v, d')
     \<and> db_ok sample_mysql d'"
proof -
  let ?run = "reStock (sample []) sample_mysql (sample_request ''hub'' ''2'' 50) '''' (seed_db 100)"
  have "case ?run of Inl _ \<Rightarrow> False | Inr _ \<Rightarrow> True" by code_simp
  then obtain v d' where run: "?run = Inr (v, d')" by (auto split: sum.splits)
  show ?thesis using run reStock_keeps_tables[OF db_ok_seed run] by simp
qed

theorem stock_alerts_need_numeric_id_witness:
  "reStock (sample []) sample_mysql (sample_request ''hub'' ''W2'' 50) '''' (seed_db 100)
     = Inl Std_invalid_argument"
  using stock_alerts_need_numeric_id[OF sample_request_reads, of 50 "''hub''" "''W2''" Std_invalid_argument]
  by (simp add: in_int32_def stoi_def strtol_value_def c_isspace_def c_isdigit_def)

end
