(* ===== verification/Server_Messages.thy ===== *)
theory Server_Messages
  imports Client_Registry Order_Storage Stock_Checks
begin

text \<open>
  The part of \<open>server.cpp\<close> that answers and forwards messages: the effects on the sockets,
  \<open>forwardMessageToClient\<close>, the two listings a client can ask for, and \<open>processMessage\<close>.
\<close>

section \<open>The server's state\<close>

text \<open>
  What happened on the sockets, in order.  A partial write counts as sent: the code looks only at
  the sign of the result.
\<close>

datatype net_event =
    Sendto sockaddr_in string
  | Write int string
  | Close int

record server_state =
  tables :: registry
  orders :: order_store
  inventory :: inv_db
  sent :: "net_event list"
  send_calls :: nat

text \<open>
  What the server does not decide: the JSON package, the database server, which \<open>sendto\<close> or
  \<open>write\<close> fails, and the iteration order of the table of quantities.
\<close>

record 'j env =
  env_json :: "'j jsoncpp"
  env_mysql :: mysql
  send_fails :: "nat \<Rightarrow> bool"
  quantities_order :: iteration

text \<open>A \<open>sendto\<close> or \<open>write\<close>; the result says whether it was non-negative.\<close>

definition net_send :: "'j env \<Rightarrow> net_event \<Rightarrow> server_state \<Rightarrow> bool \<times> server_state" where
  "net_send E ev S =
     (let S' = S\<lparr>send_calls := Suc (send_calls S)\<rparr>
      in if send_fails E (send_calls S) then (False, S') else (True, S'\<lparr>sent := sent S @ [ev]\<rparr>))"

section \<open>Forwarding\<close>

definition forwardMessageToClient ::
  "'j env \<Rightarrow> string \<Rightarrow> int \<Rightarrow> string \<Rightarrow> server_state \<Rightarrow> server_state" where
  "forwardMessageToClient E message targetClientId proto S =
     (case findClientById targetClientId proto (tables S) of
        None \<Rightarrow> S
      | Some targetClient \<Rightarrow>
          if proto = ''udp'' then snd (net_send E (Sendto (addr targetClient) message) S)
          else if proto = ''tcp'' then snd (net_send E (Write (socket_fd targetClient) message) S)
          else S)"

section \<open>Listings\<close>

definition clients_response :: "registry \<Rightarrow> string" where
  "clients_response R =
     newline @ ''----- Connected Clients -----'' @ newline @
     ''UDP Clients: '' @ to_string (int (length (clientMapUdp R))) @ newline @
     concat (map client_line (clientMapUdp R)) @
     ''TCP Clients: '' @ to_string (int (length (clientMapTcp R))) @ newline @
     concat (map client_line (clientMapTcp R)) @
     ''----------------------------''"

definition handleListClientsRequest :: "'j env \<Rightarrow> string \<Rightarrow> int \<Rightarrow> server_state \<Rightarrow> server_state" where
  "handleListClientsRequest E proto cid S =
     forwardMessageToClient E (clients_response (tables S)) cid proto S"

definition report_response :: "iteration \<Rightarrow> order_store \<Rightarrow> string" where
  "report_response iter st =
     (if productQuantities st = [] then ''No product data stored yet.'' @ newline
      else newline @ ''----- Product Quantity Report -----'' @ newline @
        concat (map quantity_line (iter (productQuantities st))) @
        ''-----------------------------------'')"

definition handleShowReportRequest :: "'j env \<Rightarrow> string \<Rightarrow> int \<Rightarrow> server_state \<Rightarrow> server_state" where
  "handleShowReportRequest E proto cid S =
     forwardMessageToClient E (report_response (quantities_order E) (orders S)) cid proto S"

section \<open>processMessage\<close>

definition processMessage ::
  "'j env \<Rightarrow> string \<Rightarrow> string \<Rightarrow> int \<Rightarrow> server_state \<Rightarrow> server_state result" where
  "processMessage E msg proto cid S =
     (let J = env_json E in
      if msg = ''LIST_CLIENTS'' then Inr (handleListClientsRequest E (map c_tolower proto) cid S)
      else if msg = ''SHOW_REPORT'' then Inr (handleShowReportRequest E (map c_tolower proto) cid S)
      else
      rbind (jv_parse J True msg) (\<lambda>doc.
      case doc of None \<Rightarrow> Inr S | Some root \<Rightarrow>
      rbind (jv_isMember J root ''general_info'') (\<lambda>has_info.
      if \<not> has_info then Inr S
      else
      rbind (jv_index J root ''general_info'') (\<lambda>general_info.
      rbind (json_string J general_info [''id'']) (\<lambda>_.
      rbind (json_string J general_info [''source'', ''type'']) (\<lambda>_.
      rbind (json_int J general_info [''source'', ''location'']) (\<lambda>source_location.
      rbind (json_string J general_info [''destination'', ''type'']) (\<lambda>_.
      rbind (json_int J general_info [''destination'', ''location'']) (\<lambda>_.
      rbind (json_string J general_info [''action'', ''type'']) (\<lambda>action_type.
      rbind (json_string J general_info [''action'', ''product'', ''id'']) (\<lambda>_.
      rbind (json_string J general_info [''action'', ''product'', ''name'']) (\<lambda>product_name.
      rbind (json_int J general_info [''action'', ''product'', ''quantity'']) (\<lambda>product_quantity.
      rbind (json_string J general_info [''metadata'', ''date'']) (\<lambda>_.
      rbind (json_string J general_info [''metadata'', ''message'']) (\<lambda>_.
      rbind (json_string J general_info [''metadata'', ''priority'']) (\<lambda>_.
      rbind (json_string J general_info [''metadata'', ''protocol'']) (\<lambda>protocol_destination.
      Inr (forwardMessageToClient E
             (''FORWARDED_MESSAGE: '' @ action_type @ '' '' @ to_string product_quantity @ '' '' @ product_name)
             source_location (map c_tolower protocol_destination) S))))))))))))))))))"

end
