(* ===== verification/Order_Validation.thy ===== *)
theory Order_Validation
  imports Error_Alert Json_Sample
begin

text \<open>
  \<open>orderValidation.cpp\<close>: the limits on an order's quantity by client type and product, checked
  after the presence and the sanity of the fields.  Every rejection carries its own error code.
\<close>

section \<open>Limits and error codes\<close>

definition MIN_CRITICAL_HUB_QUANTITY :: int where "MIN_CRITICAL_HUB_QUANTITY = 20"
definition MAX_CRITICAL_HUB_QUANTITY :: int where "MAX_CRITICAL_HUB_QUANTITY = 100"
definition MIN_NONCRITICAL_HUB_QUANTITY :: int where "MIN_NONCRITICAL_HUB_QUANTITY = 50"
definition MAX_CRITICAL_EXTERNAL_QUANTITY :: int where "MAX_CRITICAL_EXTERNAL_QUANTITY = 25"
definition MIN_EXTERNAL_QUANTITY :: int where "MIN_EXTERNAL_QUANTITY = 5"

definition ERR_MISSING_GENERAL_INFO :: int where "ERR_MISSING_GENERAL_INFO = 1001"
definition ERR_MISSING_REQUIRED_FIELDS :: int where "ERR_MISSING_REQUIRED_FIELDS = 1002"
definition ERR_INVALID_VALUES :: int where "ERR_INVALID_VALUES = 1003"
definition ERR_INVALID_ACTION_TYPE :: int where "ERR_INVALID_ACTION_TYPE = 1004"
definition ERR_INVALID_QTY_HUB_CRIT :: int where "ERR_INVALID_QTY_HUB_CRIT = 1005"
definition ERR_INVALID_QTY_HUB_NONCRIT :: int where "ERR_INVALID_QTY_HUB_NONCRIT = 1006"
definition ERR_INVALID_QTY_EXT_CRIT :: int where "ERR_INVALID_QTY_EXT_CRIT = 1007"
definition ERR_INVALID_QTY_EXT_ANY :: int where "ERR_INVALID_QTY_EXT_ANY = 1008"
definition ERR_UNKNOWN_CLIENT_TYPE :: int where "ERR_UNKNOWN_CLIENT_TYPE = 1009"

lemmas limits = MIN_CRITICAL_HUB_QUANTITY_def MAX_CRITICAL_HUB_QUANTITY_def
  MIN_NONCRITICAL_HUB_QUANTITY_def MAX_CRITICAL_EXTERNAL_QUANTITY_def MIN_EXTERNAL_QUANTITY_def

definition criticalProducts :: "(string \<times> bool) list" where
  "criticalProducts = [(''Water'', True), (''Medicines'', True), (''Meat'', False),
     (''Weapons'', False), (''Clothes'', False)]"

text \<open>\<open>criticalProducts.at(productName)\<close>\<close>

definition criticalProducts_at :: "string \<Rightarrow> bool result" where
  "criticalProducts_at p = (case map_of criticalProducts p of None \<Rightarrow> Inl Std_out_of_range | Some b \<Rightarrow> Inr b)"

section \<open>validateOrderLimits\<close>

text \<open>
  The result is the return value and the error text, which is only overwritten on a rejection.
\<close>

definition check_limits ::
  "'j jsoncpp \<Rightarrow> string \<Rightarrow> bool \<Rightarrow> int \<Rightarrow> string \<Rightarrow> (bool \<times> string) result" where
  "check_limits J clientType isCritical quantity error =
     (if clientType = ''hub'' then
        if isCritical \<and> (quantity < MIN_CRITICAL_HUB_QUANTITY \<or> MAX_CRITICAL_HUB_QUANTITY < quantity) then
          reject J ERR_INVALID_QTY_HUB_CRIT ''Invalid quantity''
            ''Hubs must order between 20 and 100 units of critical products.''
        else if \<not> isCritical \<and> quantity < MIN_NONCRITICAL_HUB_QUANTITY then
          reject J ERR_INVALID_QTY_HUB_NONCRIT ''Invalid quantity''
            ''Hubs must order at least 50 units of non-critical products.''
        else Inr (True, error)
      else if clientType = ''external'' then
        if isCritical \<and> MAX_CRITICAL_EXTERNAL_QUANTITY < quantity then
          reject J ERR_INVALID_QTY_EXT_CRIT ''Invalid quantity''
            ''External clients can order up to 25 units of critical products.''
        else if quantity < MIN_EXTERNAL_QUANTITY then
          reject J ERR_INVALID_QTY_EXT_ANY ''Invalid quantity''
            ''External clients must order at least 5 units of any product.''
        else Inr (True, error)
      else reject J ERR_UNKNOWN_CLIENT_TYPE ''Unknown client type''
             ''Client type must be 'hub' or 'external'.'')"

definition validateOrderLimits :: "'j jsoncpp \<Rightarrow> 'j \<Rightarrow> string \<Rightarrow> (bool \<times> string) result" where
  "validateOrderLimits J root error =
     rbind (jv_index J root ''general_info'') (\<lambda>generalInfo.
     if jv_isNull J generalInfo then
       reject J ERR_MISSING_GENERAL_INFO ''Missing general_info'' ''The 'general_info' field is required.''
     else
     rbind (jv_index J generalInfo ''destination'') (\<lambda>destination.
     rbind (jv_index J generalInfo ''action'') (\<lambda>action.
     rbind (jv_index J action ''product'') (\<lambda>product.
     if jv_isNull J destination \<or> jv_isNull J action \<or> jv_isNull J product then
       reject J ERR_MISSING_REQUIRED_FIELDS ''Missing required fields''
         ''Fields 'destination', 'action', and 'product' are required.''
     else
     rbind (json_string J destination [''type'']) (\<lambda>clientType.
     rbind (json_string J action [''type'']) (\<lambda>actionType.
     rbind (json_string J product [''name'']) (\<lambda>productName.
     rbind (json_int J product [''quantity'']) (\<lambda>quantity.
     if clientType = [] \<or> actionType = [] \<or> productName = [] \<or> quantity \<le> 0 then
       reject J ERR_INVALID_VALUES ''Invalid or missing values''
         ''Client type, action type, product name and quantity must be valid.''
     else if actionType \<noteq> ''request'' \<and> actionType \<noteq> ''req'' then
       reject J ERR_INVALID_ACTION_TYPE ''Invalid action type'' ''Action type must be 'request'.''
     else
     rbind (criticalProducts_at productName) (\<lambda>isCritical.
     check_limits J clientType isCritical quantity error)))))))))"

section \<open>The rule as a whole\<close>

definition known_product :: "string \<Rightarrow> bool" where
  "known_product p \<longleftrightarrow> p \<in> {''Water'', ''Medicines'', ''Meat'', ''Weapons'', ''Clothes''}"

definition critical_product :: "string \<Rightarrow> bool" where
  "critical_product p \<longleftrightarrow> p \<in> {''Water'', ''Medicines''}"

text \<open>Which quantities of a product a type of client may order.\<close>

definition quantity_allowed :: "string \<Rightarrow> string \<Rightarrow> int \<Rightarrow> bool" where
  "quantity_allowed client p q \<longleftrightarrow>
     (client = ''hub'' \<and> (if critical_product p then 20 \<le> q \<and> q \<le> 100 else 50 \<le> q)
      \<or> client = ''external'' \<and> 5 \<le> q \<and> (critical_product p \<longrightarrow> q \<le> 25))"

definition order_allowed :: "order \<Rightarrow> bool" where
  "order_allowed r \<longleftrightarrow> (o_action_type r = ''request'' \<or> o_action_type r = ''req'')
     \<and> quantity_allowed (o_destination_type r) (o_product_name r) (o_quantity r)"

text \<open>The code of the first check an order fails, for an order of a known product.\<close>

definition rejection_code :: "order \<Rightarrow> int" where
  "rejection_code r =
     (if o_destination_type r = [] \<or> o_action_type r = [] \<or> o_product_name r = [] \<or> o_quantity r \<le> 0 then 1003
      else if o_action_type r \<noteq> ''request'' \<and> o_action_type r \<noteq> ''req'' then 1004
      else if o_destination_type r = ''hub'' then if critical_product (o_product_name r) then 1005 else 1006
      else if o_destination_type r = ''external'' then
        if critical_product (o_product_name r) \<and> 25 < o_quantity r then 1007 else 1008
      else 1009)"

lemma criticalProducts_at_known:
  "known_product p \<Longrightarrow> criticalProducts_at p = Inr (critical_product p)"
  by (auto simp: known_product_def critical_product_def criticalProducts_at_def criticalProducts_def)

lemma criticalProducts_at_unknown:
  "\<not> known_product p \<Longrightarrow> criticalProducts_at p = Inl Std_out_of_range"
  by (simp add: known_product_def criticalProducts_at_def criticalProducts_def)

lemma criticalProducts_at_Inr:
  "criticalProducts_at p = Inr c \<longleftrightarrow> known_product p \<and> c = critical_product p"
  by (cases "known_product p") (auto simp: criticalProducts_at_known criticalProducts_at_unknown)

lemma check_limits_accepts:
  "check_limits J client (critical_product p) q error = Inr (True, t) \<longleftrightarrow>
     quantity_allowed client p q \<and> t = error"
  by (auto simp: check_limits_def quantity_allowed_def limits dest: reject_False)

text \<open>With every field readable, the chain of reads collapses to the checks on the fields.\<close>

lemma validate_reads:
  assumes "order_reads J root r"
  shows "validateOrderLimits J root error =
     (if o_destination_type r = [] \<or> o_action_type r = [] \<or> o_product_name r = [] \<or> o_quantity r \<le> 0 then
       reject J ERR_INVALID_VALUES ''Invalid or missing values''
         ''Client type, action type, product name and quantity must be valid.''
     else if o_action_type r \<noteq> ''request'' \<and> o_action_type r \<noteq> ''req'' then
       reject J ERR_INVALID_ACTION_TYPE ''Invalid action type'' ''Action type must be 'request'.''
     else
     rbind (criticalProducts_at (o_product_name r)) (\<lambda>isCritical.
     check_limits J (o_destination_type r) isCritical (o_quantity r) error))"
proof -
  obtain g s d a p where n: "jv_index J root ''general_info'' = Inr g" "\<not> jv_isNull J g"
    "jv_index J g ''source'' = Inr s" "jv_index J g ''destination'' = Inr d" "\<not> jv_isNull J d"
    "jv_index J g ''action'' = Inr a" "\<not> jv_isNull J a"
    "jv_index J a ''product'' = Inr p" "\<not> jv_isNull J p"
    by (rule order_reads_nodes[OF assms]) (rule that)
  have "json_string J d [''type''] = Inr (o_destination_type r)"
    "json_string J a [''type''] = Inr (o_action_type r)"
    "json_string J p [''name''] = Inr (o_product_name r)"
    "json_int J p [''quantity''] = Inr (o_quantity r)"
    using order_readsD[OF assms] n by (simp_all add: json_string_def json_int_def)
  with n show ?thesis by (simp add: validateOrderLimits_def)
qed

lemma check_limits_rejects:
  assumes "\<not> quantity_allowed client p q"
  shows "\<exists>m d. check_limits J client (critical_product p) q error =
     reject J (if client = ''hub'' then if critical_product p then 1005 else 1006
      else if client = ''external'' then if critical_product p \<and> 25 < q then 1007 else 1008 else 1009) m d"
proof -
  note codes = ERR_INVALID_QTY_HUB_CRIT_def ERR_INVALID_QTY_HUB_NONCRIT_def ERR_INVALID_QTY_EXT_CRIT_def
    ERR_INVALID_QTY_EXT_ANY_def ERR_UNKNOWN_CLIENT_TYPE_def
  consider (hub) "client = ''hub''" | (external) "client = ''external''"
    | (other) "client \<noteq> ''hub''" "client \<noteq> ''external''" by blast
  then show ?thesis
  proof cases
    case hub
    with assms show ?thesis
      by (cases "critical_product p") (auto simp: check_limits_def quantity_allowed_def limits codes)
  next
    case external
    with assms show ?thesis
      by (cases "critical_product p \<and> 25 < q") (auto simp: check_limits_def quantity_allowed_def limits codes)
  next
    case other
    then show ?thesis by (auto simp: check_limits_def codes)
  qed
qed

lemma validate_rejects:
  assumes "order_reads J root r" and "known_product (o_product_name r)" and "\<not> order_allowed r"
  shows "\<exists>m d. validateOrderLimits J root error = reject J (rejection_code r) m d"
proof -
  consider (empty) "o_destination_type r = [] \<or> o_action_type r = [] \<or> o_product_name r = [] \<or> o_quantity r \<le> 0"
    | (action) "\<not> (o_destination_type r = [] \<or> o_action_type r = [] \<or> o_product_name r = [] \<or> o_quantity r \<le> 0)"
        "o_action_type r \<noteq> ''request'' \<and> o_action_type r \<noteq> ''req''"
    | (limits) "\<not> (o_destination_type r = [] \<or> o_action_type r = [] \<or> o_product_name r = [] \<or> o_quantity r \<le> 0)"
        "\<not> (o_action_type r \<noteq> ''request'' \<and> o_action_type r \<noteq> ''req'')"
        "\<not> quantity_allowed (o_destination_type r) (o_product_name r) (o_quantity r)"
    using assms(3) unfolding order_allowed_def by blast
  then show ?thesis
  proof cases
    case empty
    then show ?thesis
      unfolding validate_reads[OF assms(1)] rejection_code_def ERR_INVALID_VALUES_def
      by (simp only: if_True) blast
  next
    case action
    then show ?thesis
      unfolding validate_reads[OF assms(1)] rejection_code_def ERR_INVALID_ACTION_TYPE_def
      by (simp only: if_True if_False not_False_eq_True simp_thms) blast
  next
    case limits
    then show ?thesis
      using check_limits_rejects[OF limits(3), of J error]
      unfolding validate_reads[OF assms(1)] rejection_code_def criticalProducts_at_known[OF assms(2)]
      by (simp only: if_False rbind_Inr)
  qed
qed

lemma validate_accepts:
  assumes "order_reads J root r" and "known_product (o_product_name r)" and "order_allowed r"
  shows "validateOrderLimits J root error = Inr (True, error)"
proof -
  have "check_limits J (o_destination_type r) (critical_product (o_product_name r)) (o_quantity r) error
      = Inr (True, error)"
    using assms(3) by (simp add: check_limits_accepts order_allowed_def)
  with assms show ?thesis
    by (auto simp: validate_reads[OF assms(1)] criticalProducts_at_known order_allowed_def
        quantity_allowed_def known_product_def split: if_splits)
qed

lemma order_allowed_quantity: "order_allowed r \<Longrightarrow> 5 \<le> o_quantity r"
  by (auto simp: order_allowed_def quantity_allowed_def split: if_splits)

lemma order_allowed_client: "order_allowed r \<Longrightarrow> o_destination_type r = ''hub'' \<or> o_destination_type r = ''external''"
  by (auto simp: order_allowed_def quantity_allowed_def)

lemma known_product_nonempty: "known_product p \<Longrightarrow> p \<noteq> []"
  by (auto simp: known_product_def)

section \<open>Properties\<close>

text \<open>
  C4: an order of a known product is accepted exactly when its action is a request and its quantity
  is within the limits of its client type: 20 to 100 critical and at least 50 other units for a hub,
  at least 5 and at most 25 critical units for an external client.  An accepted order leaves the
  error text as it was.
\<close>

theorem validateOrderLimits_accepts_iff:
  assumes "jsoncpp_ok J" and "order_reads J root r" and "known_product (o_product_name r)"
  shows "\<exists>t. validateOrderLimits J root error = Inr (order_allowed r, t) \<and> (order_allowed r \<longrightarrow> t = error)"
proof (cases "order_allowed r")
  case True
  with validate_accepts[OF assms(2,3)] show ?thesis by simp
next
  case False
  with validate_rejects[OF assms(2,3)] reject_text[OF assms(1)] show ?thesis by metis
qed

text \<open>
  a rejected order of a known product gets the error code of the first check it fails, in a JSON
  error of level "error".
\<close>

theorem validateOrderLimits_error_code:
  assumes "jsoncpp_ok J" and "order_reads J root r" and "known_product (o_product_name r)"
    and "\<not> order_allowed r"
  shows "\<exists>t m d. validateOrderLimits J root error = Inr (False, t)
     \<and> error_text J (rejection_code r) m d ERROR t"
  using validate_rejects[OF assms(2-4)] reject_text[OF assms(1)] by metis

text \<open>
  a request for a product that is not in the table is not rejected: the lookup throws, and no
  caller catches the exception.
\<close>

theorem validateOrderLimits_unknown_product:
  assumes "order_reads J root r" and "\<not> known_product (o_product_name r)"
    and "o_destination_type r \<noteq> []" and "o_product_name r \<noteq> []" and "0 < o_quantity r"
    and "o_action_type r = ''request'' \<or> o_action_type r = ''req''"
  shows "validateOrderLimits J root error = Inl Std_out_of_range"
  using assms(2-6) by (auto simp: validate_reads[OF assms(1)] criticalProducts_at_unknown)

text \<open>
  For an arbitrary JSON value, acceptance means that the fields were read and the order is within
  the limits.
\<close>

theorem validateOrderLimits_sound:
  assumes "validateOrderLimits J root error = Inr (True, t)"
  shows "\<exists>client act p q. json_string J root (p_destination ''type'') = Inr client
     \<and> json_string J root (p_action ''type'') = Inr act
     \<and> json_string J root (p_product ''name'') = Inr p \<and> json_int J root (p_product ''quantity'') = Inr q
     \<and> (act = ''request'' \<or> act = ''req'') \<and> known_product p \<and> quantity_allowed client p q \<and> t = error"
  using assms
  by (auto simp: validateOrderLimits_def json_string_def json_int_def rbind_eq_Inr criticalProducts_at_Inr
      check_limits_accepts split: if_split_asm dest!: reject_False)

text \<open>A document without \<open>general_info\<close> is rejected with its own code.\<close>

lemma validateOrderLimits_missing_general_info:
  assumes "jsoncpp_ok J" and "jv_index J root ''general_info'' = Inr v" and "jv_isNull J v"
  shows "\<exists>t m d. validateOrderLimits J root error = Inr (False, t) \<and> error_text J 1001 m d ERROR t"
  using reject_text[OF assms(1), of 1001] assms(2,3)
  by (simp add: validateOrderLimits_def ERR_MISSING_GENERAL_INFO_def) metis

section \<open>Witnesses\<close>

text \<open>Orders of a hub at warehouse 1: 50 units of water, then 150 units of it, then of fuel.\<close>

abbreviation sample_hub_order :: "string \<Rightarrow> int \<Rightarrow> sample_json" where
  "sample_hub_order p q \<equiv> sample_order ''warehouse'' 1 ''hub'' 2 ''request'' ''2'' p q"
abbreviation sample_hub_fields :: "string \<Rightarrow> int \<Rightarrow> order" where
  "sample_hub_fields p q \<equiv> sample_order_fields ''warehouse'' 1 ''hub'' 2 ''request'' ''2'' p q"

lemmas validation_eval = sample_order_fields_def order_allowed_def quantity_allowed_def
  known_product_def critical_product_def rejection_code_def in_int32_def

theorem validateOrderLimits_accepts_iff_witness:
  "\<exists>t. validateOrderLimits (sample []) (sample_hub_order ''Water'' 50) ''x'' = Inr (True, t) \<and> t = ''x''"
  using validateOrderLimits_accepts_iff[OF jsoncpp_ok_sample order_reads_sample,
      of 1 2 50 "''warehouse''" "''hub''" "''request''" "''2''" "''Water''" "[]" "''x''"]
  by (simp add: validation_eval)

theorem validateOrderLimits_error_code_witness:
  "\<exists>t m d. validateOrderLimits (sample []) (sample_hub_order ''Water'' 150) ''x'' = Inr (False, t)
     \<and> error_text (sample []) 1005 m d ERROR t"
  using validateOrderLimits_error_code[OF jsoncpp_ok_sample order_reads_sample,
      of 1 2 150 "''warehouse''" "''hub''" "''request''" "''2''" "''Water''" "[]" "''x''"]
  by (simp add: validation_eval)

theorem validateOrderLimits_unknown_product_witness:
  "validateOrderLimits (sample []) (sample_hub_order ''Fuel'' 50) ''x'' = Inl Std_out_of_range"
  by (rule validateOrderLimits_unknown_product[OF order_reads_sample]) (simp_all add: validation_eval)

theorem validateOrderLimits_sound_witness:
  "quantity_allowed ''hub'' ''Water'' 50"
proof -
  have "validateOrderLimits (sample []) (sample_hub_order ''Water'' 50) ''x'' = Inr (True, ''x'')"
    by code_simp
  from validateOrderLimits_sound[OF this] show ?thesis
    by (simp add: json_string_def json_int_def sample_order_def in_int32_def)
qed

end
