(* ===== verification/Server_Handlers.thy ===== *)
theory Server_Handlers
  imports Server_Messages Order_Validation
begin

text \<open>
  The bodies of the receive loops of \<open>server.cpp\<close>.  A handler thread keeps the variables of its
  function in a \<open>session\<close>; one pass through its loop is a function on the session and the server's
  state.  The source writes the handling of an order out twice, in \<open>handleUdpClients\<close> and in
  \<open>handleTcpClient\<close>; both are translated here, as two sequences of stages.
\<close>

section \<open>Sessions, passes and stages\<close>

record session =
  s_client_id :: int
  isValid :: bool
  productStock :: bool
  lowStock :: bool
  reStocked :: bool
  alertOut :: string
  errorMessage :: string

definition new_session :: session where
  "new_session = \<lparr>s_client_id = 0, isValid = True, productStock = True, lowStock = False,
     reStocked = False, alertOut = [], errorMessage = []\<rparr>"

text \<open>
  How a stage ends: control reaches its end, the code continues with the next pass, it leaves the
  loop, or an exception leaves the thread's function, which terminates the process.
\<close>

datatype flow = Next | Skip | Leave | Throw cpp_exn

type_synonym thread = "session \<times> server_state"

type_synonym reply = "string \<Rightarrow> server_state \<Rightarrow> flow \<times> server_state"

fun run_stages :: "(thread \<Rightarrow> flow \<times> thread) list \<Rightarrow> thread \<Rightarrow> flow \<times> thread" where
  "run_stages [] x = (Next, x)"
| "run_stages (stage # stages) x =
     (case stage x of (Next, y) \<Rightarrow> run_stages stages y | (f, y) \<Rightarrow> (f, y))"

section \<open>An order over UDP\<close>

text \<open>
  The code of \<open>handleUdpClients\<close> after the announcement, block by block.  A \<open>sendto\<close> that fails is
  reported on the console only.
\<close>

definition udp_ack_stage :: "'j env \<Rightarrow> sockaddr_in \<Rightarrow> thread \<Rightarrow> flow \<times> thread" where
  "udp_ack_stage E cli_addr x = (case x of (s, S) \<Rightarrow>
     (Next, s, snd (net_send E (Sendto cli_addr ''UDP Server received your message.'') S)))"

definition udp_store_stage :: "'j env \<Rightarrow> string \<Rightarrow> thread \<Rightarrow> flow \<times> thread" where
  "udp_store_stage E buffer x = (case x of (s, S) \<Rightarrow>
     case storeOrder (env_json E) buffer (orders S) of
       (Inl e, st) \<Rightarrow> (Throw e, s, S\<lparr>orders := st\<rparr>)
     | (Inr _, st) \<Rightarrow> (Next, s, S\<lparr>orders := st\<rparr>))"

definition udp_validate_stage :: "'j env \<Rightarrow> sockaddr_in \<Rightarrow> 'j \<Rightarrow> thread \<Rightarrow> flow \<times> thread" where
  "udp_validate_stage E cli_addr root x = (case x of (s, S) \<Rightarrow>
     case validateOrderLimits (env_json E) root (errorMessage s) of
       Inl e \<Rightarrow> (Throw e, s, S)
     | Inr (valid, error) \<Rightarrow>
         let s = s\<lparr>isValid := valid, errorMessage := error\<rparr>
         in if \<not> isValid s then
              (Next, s, snd (net_send E (Sendto cli_addr (errorMessage s)) S))
            else (Next, s, S))"

definition udp_stock_stage :: "'j env \<Rightarrow> sockaddr_in \<Rightarrow> 'j \<Rightarrow> thread \<Rightarrow> flow \<times> thread" where
  "udp_stock_stage E cli_addr root x = (case x of (s, S) \<Rightarrow>
     case checkProductStock (env_json E) (env_mysql E) root (errorMessage s) (inventory S) of
       Inl e \<Rightarrow> (Throw e, s, S)
     | Inr ((enough, error), d) \<Rightarrow>
         let s = s\<lparr>productStock := enough, errorMessage := error\<rparr>; S = S\<lparr>inventory := d\<rparr>
         in if \<not> productStock s then
              (Next, s, snd (net_send E (Sendto cli_addr (errorMessage s)) S))
            else (Next, s, S))"

definition udp_transfer_stage :: "'j env \<Rightarrow> sockaddr_in \<Rightarrow> 'j \<Rightarrow> thread \<Rightarrow> flow \<times> thread" where
  "udp_transfer_stage E cli_addr root x = (case x of (s, S) \<Rightarrow>
     if productStock s \<and> isValid s then
       case realTimeUpdate (env_json E) (env_mysql E) root (inventory S) of
         Inl e \<Rightarrow> (Throw e, s, S)
       | Inr (result, d) \<Rightarrow>
           let S = S\<lparr>inventory := d\<rparr>
           in if 0 < result then
                (Next, s, snd (net_send E (Sendto cli_addr ''Successful order!'') S))
              else (Next, s, S)
     else (Next, s, S))"

definition udp_low_stock_stage :: "'j env \<Rightarrow> sockaddr_in \<Rightarrow> 'j \<Rightarrow> thread \<Rightarrow> flow \<times> thread" where
  "udp_low_stock_stage E cli_addr root x = (case x of (s, S) \<Rightarrow>
     case checkLowStockAlert (env_json E) (env_mysql E) root (alertOut s) (inventory S) of
       Inl e \<Rightarrow> (Throw e, s, S)
     | Inr ((low, alert), d) \<Rightarrow>
         let s = s\<lparr>lowStock := low, alertOut := alert\<rparr>; S = S\<lparr>inventory := d\<rparr>
         in if lowStock s then
              (Next, s, snd (net_send E (Sendto cli_addr (alertOut s)) S))
            else (Next, s, S))"

definition udp_restock_stage :: "'j env \<Rightarrow> sockaddr_in \<Rightarrow> 'j \<Rightarrow> thread \<Rightarrow> flow \<times> thread" where
  "udp_restock_stage E cli_addr root x = (case x of (s, S) \<Rightarrow>
     case reStock (env_json E) (env_mysql E) root (alertOut s) (inventory S) of
       Inl e \<Rightarrow> (Throw e, s, S)
     | Inr ((restocked, alert), d) \<Rightarrow>
         let s = s\<lparr>reStocked := restocked, alertOut := alert\<rparr>; S = S\<lparr>inventory := d\<rparr>
         in if reStocked s then
              (Next, s, snd (net_send E (Sendto cli_addr (alertOut s)) S))
            else (Next, s, S))"

definition udp_order_stages :: "'j env \<Rightarrow> sockaddr_in \<Rightarrow> 'j \<Rightarrow> (thread \<Rightarrow> flow \<times> thread) list" where
  "udp_order_stages E cli_addr root =
     [udp_validate_stage E cli_addr root, udp_stock_stage E cli_addr root,
      udp_transfer_stage E cli_addr root, udp_low_stock_stage E cli_addr root,
      udp_restock_stage E cli_addr root]"

text \<open>The block under \<open>if (buffer[0] == '{')\<close> after \<open>storeOrder\<close>.\<close>

definition udp_parse_stage :: "'j env \<Rightarrow> sockaddr_in \<Rightarrow> string \<Rightarrow> thread \<Rightarrow> flow \<times> thread" where
  "udp_parse_stage E cli_addr buffer x =
     (case jv_parse (env_json E) True buffer of
        Inl e \<Rightarrow> (Throw e, x)
      | Inr None \<Rightarrow> (Skip, x)
      | Inr (Some root) \<Rightarrow> run_stages (udp_order_stages E cli_addr root) x)"

definition udp_process_stage :: "'j env \<Rightarrow> string \<Rightarrow> thread \<Rightarrow> flow \<times> thread" where
  "udp_process_stage E buffer x = (case x of (s, S) \<Rightarrow>
     if isValid s \<and> productStock s then
       case processMessage E buffer ''UDP'' (s_client_id s) S of
         Inl e \<Rightarrow> (Throw e, s, S)
       | Inr S \<Rightarrow> (Next, s, S)
     else (Next, s, S))"

definition udp_message_stages :: "'j env \<Rightarrow> sockaddr_in \<Rightarrow> string \<Rightarrow> (thread \<Rightarrow> flow \<times> thread) list" where
  "udp_message_stages E cli_addr buffer =
     [udp_ack_stage E cli_addr] @
     (if buffer \<noteq> [] \<and> hd buffer = CHR ''{'' then
        [udp_store_stage E buffer, udp_parse_stage E cli_addr buffer]
      else []) @
     [udp_process_stage E buffer]"

section \<open>An order over TCP\<close>

text \<open>
  The same blocks in the loop of \<open>handleTcpClient\<close>, which the source writes out once more.  A \<open>write\<close>
  that fails goes on with the next pass of the loop.
\<close>

definition tcp_ack_stage :: "'j env \<Rightarrow> int \<Rightarrow> thread \<Rightarrow> flow \<times> thread" where
  "tcp_ack_stage E client_sockfd x = (case x of (s, S) \<Rightarrow>
     let (written, S) = net_send E (Write client_sockfd ''TCP Server received your message.'') S
     in (if written then Next else Skip, s, S))"

definition tcp_store_stage :: "'j env \<Rightarrow> string \<Rightarrow> thread \<Rightarrow> flow \<times> thread" where
  "tcp_store_stage E buffer x = (case x of (s, S) \<Rightarrow>
     case storeOrder (env_json E) buffer (orders S) of
       (Inl e, st) \<Rightarrow> (Throw e, s, S\<lparr>orders := st\<rparr>)
     | (Inr _, st) \<Rightarrow> (Next, s, S\<lparr>orders := st\<rparr>))"

definition tcp_validate_stage :: "'j env \<Rightarrow> int \<Rightarrow> 'j \<Rightarrow> thread \<Rightarrow> flow \<times> thread" where
  "tcp_validate_stage E client_sockfd root x = (case x of (s, S) \<Rightarrow>
     case validateOrderLimits (env_json E) root (errorMessage s) of
       Inl e \<Rightarrow> (Throw e, s, S)
     | Inr (valid, error) \<Rightarrow>
         let s = s\<lparr>isValid := valid, errorMessage := error\<rparr>
         in if \<not> isValid s then
              let (written, S) = net_send E (Write client_sockfd (errorMessage s)) S
              in (if written then Next else Skip, s, S)
            else (Next, s, S))"

definition tcp_stock_stage :: "'j env \<Rightarrow> int \<Rightarrow> 'j \<Rightarrow> thread \<Rightarrow> flow \<times> thread" where
  "tcp_stock_stage E client_sockfd root x = (case x of (s, S) \<Rightarrow>
     case checkProductStock (env_json E) (env_mysql E) root (errorMessage s) (inventory S) of
       Inl e \<Rightarrow> (Throw e, s, S)
     | Inr ((enough, error), d) \<Rightarrow>
         let s = s\<lparr>productStock := enough, errorMessage := error\<rparr>; S = S\<lparr>inventory := d\<rparr>
         in if \<not> productStock s then
              let (written, S) = net_send E (Write client_sockfd (errorMessage s)) S
              in (if written then Next else Skip, s, S)
            else (Next, s, S))"

definition tcp_transfer_stage :: "'j env \<Rightarrow> int \<Rightarrow> 'j \<Rightarrow> thread \<Rightarrow> flow \<times> thread" where
  "tcp_transfer_stage E client_sockfd root x = (case x of (s, S) \<Rightarrow>
     if productStock s \<and> isValid s then
       case realTimeUpdate (env_json E) (env_mysql E) root (inventory S) of
         Inl e \<Rightarrow> (Throw e, s, S)
       | Inr (result, d) \<Rightarrow>
           let S = S\<lparr>inventory := d\<rparr>
           in if 0 < result then
                let (written, S) = net_send E (Write client_sockfd ''Successful order!'') S
                in (if written then Next else Skip, s, S)
              else (Next, s, S)
     else (Next, s, S))"

definition tcp_low_stock_stage :: "'j env \<Rightarrow> int \<Rightarrow> 'j \<Rightarrow> thread \<Rightarrow> flow \<times> thread" where
  "tcp_low_stock_stage E client_sockfd root x = (case x of (s, S) \<Rightarrow>
     case checkLowStockAlert (env_json E) (env_mysql E) root (alertOut s) (inventory S) of
       Inl e \<Rightarrow> (Throw e, s, S)
     | Inr ((low, alert), d) \<Rightarrow>
         let s = s\<lparr>lowStock := low, alertOut := alert\<rparr>; S = S\<lparr>inventory := d\<rparr>
         in if lowStock s then
              let (written, S) = net_send E (Write client_sockfd (alertOut s)) S
              in (if written then Next else Skip, s, S)
            else (Next, s, S))"

definition tcp_restock_stage :: "'j env \<Rightarrow> int \<Rightarrow> 'j \<Rightarrow> thread \<Rightarrow> flow \<times> thread" where
  "tcp_restock_stage E client_sockfd root x = (case x of (s, S) \<Rightarrow>
     case reStock (env_json E) (env_mysql E) root (alertOut s) (inventory S) of
       Inl e \<Rightarrow> (Throw e, s, S)
     | Inr ((restocked, alert), d) \<Rightarrow>
         let s = s\<lparr>reStocked := restocked, alertOut := alert\<rparr>; S = S\<lparr>inventory := d\<rparr>
         in if reStocked s then
              let (written, S) = net_send E (Write client_sockfd (alertOut s)) S
              in (if written then Next else Skip, s, S)
            else (Next, s, S))"

definition tcp_order_stages :: "'j env \<Rightarrow> int \<Rightarrow> 'j \<Rightarrow> (thread \<Rightarrow> flow \<times> thread) list" where
  "tcp_order_stages E client_sockfd root =
     [tcp_validate_stage E client_sockfd root, tcp_stock_stage E client_sockfd root,
      tcp_transfer_stage E client_sockfd root, tcp_low_stock_stage E client_sockfd root,
      tcp_restock_stage E client_sockfd root]"

text \<open>The block under \<open>if (buffer[0] == '{')\<close> after \<open>storeOrder\<close>.\<close>

definition tcp_parse_stage :: "'j env \<Rightarrow> int \<Rightarrow> string \<Rightarrow> thread \<Rightarrow> flow \<times> thread" where
  "tcp_parse_stage E client_sockfd buffer x =
     (case jv_parse (env_json E) True buffer of
        Inl e \<Rightarrow> (Throw e, x)
      | Inr None \<Rightarrow> (Skip, x)
      | Inr (Some root) \<Rightarrow> run_stages (tcp_order_stages E client_sockfd root) x)"

definition tcp_process_stage :: "'j env \<Rightarrow> string \<Rightarrow> thread \<Rightarrow> flow \<times> thread" where
  "tcp_process_stage E buffer x = (case x of (s, S) \<Rightarrow>
     if isValid s \<and> productStock s then
       case processMessage E buffer ''TCP'' (s_client_id s) S of
         Inl e \<Rightarrow> (Throw e, s, S)
       | Inr S \<Rightarrow> (Next, s, S)
     else (Next, s, S))"

definition tcp_message_stages :: "'j env \<Rightarrow> int \<Rightarrow> string \<Rightarrow> (thread \<Rightarrow> flow \<times> thread) list" where
  "tcp_message_stages E client_sockfd buffer =
     [tcp_ack_stage E client_sockfd] @
     (if buffer \<noteq> [] \<and> hd buffer = CHR ''{'' then
        [tcp_store_stage E buffer, tcp_parse_stage E client_sockfd buffer]
      else []) @
     [tcp_process_stage E buffer]"

section \<open>What the two copies have in common\<close>

text \<open>
  For the proofs only: the stages over any way to reply.  The lemmas of \<open>copies\<close> show that each of
  the two copies above is an instance, so that what holds of the stages for every way to reply
  holds of both.
\<close>

definition udp_reply :: "'j env \<Rightarrow> sockaddr_in \<Rightarrow> reply" where
  "udp_reply E cli_addr message S = (Next, snd (net_send E (Sendto cli_addr message) S))"

definition tcp_reply :: "'j env \<Rightarrow> int \<Rightarrow> reply" where
  "tcp_reply E client_sockfd message S =
     (let (written, S) = net_send E (Write client_sockfd message) S
      in (if written then Next else Skip, S))"

definition reply_with :: "reply \<Rightarrow> string \<Rightarrow> thread \<Rightarrow> flow \<times> thread" where
  "reply_with reply message x = (case x of (s, S) \<Rightarrow> let (f, S) = reply message S in (f, s, S))"

definition store_stage :: "'j env \<Rightarrow> string \<Rightarrow> thread \<Rightarrow> flow \<times> thread" where
  "store_stage E buffer x = (case x of (s, S) \<Rightarrow>
     let (r, st) = storeOrder (env_json E) buffer (orders S); S = S\<lparr>orders := st\<rparr>
     in case r of Inl e \<Rightarrow> (Throw e, s, S) | Inr _ \<Rightarrow> (Next, s, S))"

definition validate_stage :: "'j env \<Rightarrow> reply \<Rightarrow> 'j \<Rightarrow> thread \<Rightarrow> flow \<times> thread" where
  "validate_stage E reply root x = (case x of (s, S) \<Rightarrow>
     case validateOrderLimits (env_json E) root (errorMessage s) of
       Inl e \<Rightarrow> (Throw e, s, S)
     | Inr (valid, error) \<Rightarrow>
         let s = s\<lparr>isValid := valid, errorMessage := error\<rparr>
         in if valid then (Next, s, S) else reply_with reply (errorMessage s) (s, S))"

definition stock_stage :: "'j env \<Rightarrow> reply \<Rightarrow> 'j \<Rightarrow> thread \<Rightarrow> flow \<times> thread" where
  "stock_stage E reply root x = (case x of (s, S) \<Rightarrow>
     case checkProductStock (env_json E) (env_mysql E) root (errorMessage s) (inventory S) of
       Inl e \<Rightarrow> (Throw e, s, S)
     | Inr ((enough, error), d) \<Rightarrow>
         let s = s\<lparr>productStock := enough, errorMessage := error\<rparr>; S = S\<lparr>inventory := d\<rparr>
         in if enough then (Next, s, S) else reply_with reply (errorMessage s) (s, S))"

definition transfer_stage :: "'j env \<Rightarrow> reply \<Rightarrow> 'j \<Rightarrow> thread \<Rightarrow> flow \<times> thread" where
  "transfer_stage E reply root x = (case x of (s, S) \<Rightarrow>
     if productStock s \<and> isValid s then
       case realTimeUpdate (env_json E) (env_mysql E) root (inventory S) of
         Inl e \<Rightarrow> (Throw e, s, S)
       | Inr (result, d) \<Rightarrow>
           let S = S\<lparr>inventory := d\<rparr>
           in if 0 < result then reply_with reply ''Successful order!'' (s, S) else (Next, s, S)
     else (Next, s, S))"

definition low_stock_stage :: "'j env \<Rightarrow> reply \<Rightarrow> 'j \<Rightarrow> thread \<Rightarrow> flow \<times> thread" where
  "low_stock_stage E reply root x = (case x of (s, S) \<Rightarrow>
     case checkLowStockAlert (env_json E) (env_mysql E) root (alertOut s) (inventory S) of
       Inl e \<Rightarrow> (Throw e, s, S)
     | Inr ((low, alert), d) \<Rightarrow>
         let s = s\<lparr>lowStock := low, alertOut := alert\<rparr>; S = S\<lparr>inventory := d\<rparr>
         in if low then reply_with reply (alertOut s) (s, S) else (Next, s, S))"

definition restock_stage :: "'j env \<Rightarrow> reply \<Rightarrow> 'j \<Rightarrow> thread \<Rightarrow> flow \<times> thread" where
  "restock_stage E reply root x = (case x of (s, S) \<Rightarrow>
     case reStock (env_json E) (env_mysql E) root (alertOut s) (inventory S) of
       Inl e \<Rightarrow> (Throw e, s, S)
     | Inr ((restocked, alert), d) \<Rightarrow>
         let s = s\<lparr>reStocked := restocked, alertOut := alert\<rparr>; S = S\<lparr>inventory := d\<rparr>
         in if restocked then reply_with reply (alertOut s) (s, S) else (Next, s, S))"

definition order_stages :: "'j env \<Rightarrow> reply \<Rightarrow> 'j \<Rightarrow> (thread \<Rightarrow> flow \<times> thread) list" where
  "order_stages E reply root =
     [validate_stage E reply root, stock_stage E reply root, transfer_stage E reply root,
      low_stock_stage E reply root, restock_stage E reply root]"

definition parse_stage :: "'j env \<Rightarrow> reply \<Rightarrow> string \<Rightarrow> thread \<Rightarrow> flow \<times> thread" where
  "parse_stage E reply buffer x =
     (case jv_parse (env_json E) True buffer of
        Inl e \<Rightarrow> (Throw e, x)
      | Inr None \<Rightarrow> (Skip, x)
      | Inr (Some root) \<Rightarrow> run_stages (order_stages E reply root) x)"

definition process_stage :: "'j env \<Rightarrow> string \<Rightarrow> string \<Rightarrow> thread \<Rightarrow> flow \<times> thread" where
  "process_stage E buffer proto x = (case x of (s, S) \<Rightarrow>
     if isValid s \<and> productStock s then
       case processMessage E buffer proto (s_client_id s) S of
         Inl e \<Rightarrow> (Throw e, s, S)
       | Inr S \<Rightarrow> (Next, s, S)
     else (Next, s, S))"

definition message_stages ::
  "'j env \<Rightarrow> reply \<Rightarrow> string \<Rightarrow> string \<Rightarrow> string \<Rightarrow> (thread \<Rightarrow> flow \<times> thread) list" where
  "message_stages E reply response proto buffer =
     [reply_with reply response] @
     (if buffer \<noteq> [] \<and> hd buffer = CHR ''{'' then [store_stage E buffer, parse_stage E reply buffer] else []) @
     [process_stage E buffer proto]"

named_theorems copies \<open>the stages of each protocol as instances of the common ones\<close>

lemma udp_ack_copy [copies]: "udp_ack_stage E a = reply_with (udp_reply E a) ''UDP Server received your message.''"
  by (rule ext) (auto simp: udp_ack_stage_def reply_with_def udp_reply_def reply_with_def Let_def split: prod.split sum.split)

lemma udp_store_copy [copies]: "udp_store_stage E buffer = store_stage E buffer"
  by (rule ext) (auto simp: udp_store_stage_def store_stage_def Let_def split: prod.split sum.split)

lemma udp_validate_copy [copies]: "udp_validate_stage E a root = validate_stage E (udp_reply E a) root"
  by (rule ext) (auto simp: udp_validate_stage_def validate_stage_def udp_reply_def reply_with_def Let_def split: prod.split sum.split)

lemma udp_stock_copy [copies]: "udp_stock_stage E a root = stock_stage E (udp_reply E a) root"
  by (rule ext) (auto simp: udp_stock_stage_def stock_stage_def udp_reply_def reply_with_def Let_def split: prod.split sum.split)

lemma udp_transfer_copy [copies]: "udp_transfer_stage E a root = transfer_stage E (udp_reply E a) root"
  by (rule ext) (auto simp: udp_transfer_stage_def transfer_stage_def udp_reply_def reply_with_def Let_def split: prod.split sum.split)

lemma udp_low_stock_copy [copies]: "udp_low_stock_stage E a root = low_stock_stage E (udp_reply E a) root"
  by (rule ext) (auto simp: udp_low_stock_stage_def low_stock_stage_def udp_reply_def reply_with_def Let_def split: prod.split sum.split)

lemma udp_restock_copy [copies]: "udp_restock_stage E a root = restock_stage E (udp_reply E a) root"
  by (rule ext) (auto simp: udp_restock_stage_def restock_stage_def udp_reply_def reply_with_def Let_def split: prod.split sum.split)

lemma udp_process_copy [copies]: "udp_process_stage E buffer = process_stage E buffer ''UDP''"
  by (rule ext) (auto simp: udp_process_stage_def process_stage_def Let_def split: prod.split sum.split)

lemma udp_order_copy [copies]: "udp_order_stages E a root = order_stages E (udp_reply E a) root"
  by (simp add: udp_order_stages_def order_stages_def copies)

lemma udp_parse_copy [copies]: "udp_parse_stage E a buffer = parse_stage E (udp_reply E a) buffer"
  by (rule ext) (simp only: udp_parse_stage_def parse_stage_def udp_order_copy)

lemma udp_message_copy [copies]:
  "udp_message_stages E a buffer =
   message_stages E (udp_reply E a) ''UDP Server received your message.'' ''UDP'' buffer"
  by (simp add: udp_message_stages_def message_stages_def copies)

lemma tcp_ack_copy [copies]: "tcp_ack_stage E fd = reply_with (tcp_reply E fd) ''TCP Server received your message.''"
  by (rule ext) (auto simp: tcp_ack_stage_def reply_with_def tcp_reply_def reply_with_def Let_def split: prod.split sum.split)

lemma tcp_store_copy [copies]: "tcp_store_stage E buffer = store_stage E buffer"
  by (rule ext) (auto simp: tcp_store_stage_def store_stage_def Let_def split: prod.split sum.split)

lemma tcp_validate_copy [copies]: "tcp_validate_stage E fd root = validate_stage E (tcp_reply E fd) root"
  by (rule ext) (auto simp: tcp_validate_stage_def validate_stage_def tcp_reply_def reply_with_def Let_def split: prod.split sum.split)

lemma tcp_stock_copy [copies]: "tcp_stock_stage E fd root = stock_stage E (tcp_reply E fd) root"
  by (rule ext) (auto simp: tcp_stock_stage_def stock_stage_def tcp_reply_def reply_with_def Let_def split: prod.split sum.split)

lemma tcp_transfer_copy [copies]: "tcp_transfer_stage E fd root = transfer_stage E (tcp_reply E fd) root"
  by (rule ext) (auto simp: tcp_transfer_stage_def transfer_stage_def tcp_reply_def reply_with_def Let_def split: prod.split sum.split)

lemma tcp_low_stock_copy [copies]: "tcp_low_stock_stage E fd root = low_stock_stage E (tcp_reply E fd) root"
  by (rule ext) (auto simp: tcp_low_stock_stage_def low_stock_stage_def tcp_reply_def reply_with_def Let_def split: prod.split sum.split)

lemma tcp_restock_copy [copies]: "tcp_restock_stage E fd root = restock_stage E (tcp_reply E fd) root"
  by (rule ext) (auto simp: tcp_restock_stage_def restock_stage_def tcp_reply_def reply_with_def Let_def split: prod.split sum.split)

lemma tcp_process_copy [copies]: "tcp_process_stage E buffer = process_stage E buffer ''TCP''"
  by (rule ext) (auto simp: tcp_process_stage_def process_stage_def Let_def split: prod.split sum.split)

lemma tcp_order_copy [copies]: "tcp_order_stages E fd root = order_stages E (tcp_reply E fd) root"
  by (simp add: tcp_order_stages_def order_stages_def copies)

lemma tcp_parse_copy [copies]: "tcp_parse_stage E fd buffer = parse_stage E (tcp_reply E fd) buffer"
  by (rule ext) (simp only: tcp_parse_stage_def parse_stage_def tcp_order_copy)

lemma tcp_message_copy [copies]:
  "tcp_message_stages E fd buffer =
   message_stages E (tcp_reply E fd) ''TCP Server received your message.'' ''TCP'' buffer"
  by (simp add: tcp_message_stages_def message_stages_def copies)

section \<open>handleUdpClients\<close>

definition BUFFER_SIZE_SERVER :: nat where "BUFFER_SIZE_SERVER = 2048"

datatype udp_input =
    Recvfrom_error
  | Datagram string sockaddr_in

definition udp_pass :: "'j env \<Rightarrow> int \<Rightarrow> udp_input \<Rightarrow> thread \<Rightarrow> flow \<times> thread" where
  "udp_pass E now input x = (case input of
     Recvfrom_error \<Rightarrow> (Skip, x)
   | Datagram bytes cli_addr \<Rightarrow>
       let buffer = recv_buffer BUFFER_SIZE_SERVER bytes; client_pid = atoi buffer; (s, S) = x
       in if map_of (clientMapUdp (tables S)) client_pid = None \<and> client_pid \<noteq> 0 then
            case registerClient client_pid ''UDP'' cli_addr 0 now (tables S) of
              Inl e \<Rightarrow> (Throw e, x)
            | Inr (cid, R) \<Rightarrow> (Skip, s\<lparr>s_client_id := cid\<rparr>, S\<lparr>tables := R\<rparr>)
          else run_stages (udp_message_stages E cli_addr buffer) x)"

lemmas udp_pass_unfold = udp_pass_def[unfolded udp_message_copy]

text \<open>Passes of the UDP loop one after the other, at the given times.\<close>

fun udp_passes :: "'j env \<Rightarrow> (int \<times> udp_input) list \<Rightarrow> thread \<Rightarrow> thread" where
  "udp_passes E [] x = x"
| "udp_passes E ((now, input) # inputs) x = udp_passes E inputs (snd (udp_pass E now input x))"

section \<open>handleTcpClient\<close>

text \<open>\<open>Bytes bytes\<close>: the bytes that one call of \<open>read\<close> delivers; \<open>n <= 0\<close> is an error or no byte.\<close>

datatype tcp_input =
    Read_error
  | Bytes string

fun bytes_read :: "tcp_input \<Rightarrow> string" where
  "bytes_read Read_error = []"
| "bytes_read (Bytes bytes) = bytes"

text \<open>The first read, which is expected to bring the process id.\<close>

definition tcp_first ::
  "'j env \<Rightarrow> int \<Rightarrow> int \<Rightarrow> sockaddr_in \<Rightarrow> tcp_input \<Rightarrow> thread \<Rightarrow> flow \<times> int \<times> thread" where
  "tcp_first E now client_sockfd cli_addr input x = (case x of (s, S) \<Rightarrow>
     if bytes_read input = [] then (Leave, 0, s, S\<lparr>sent := sent S @ [Close client_sockfd]\<rparr>)
     else
       let client_pid = atoi (recv_buffer BUFFER_SIZE_SERVER (bytes_read input))
       in if client_pid \<noteq> 0 then
            case registerClient client_pid ''TCP'' cli_addr client_sockfd now (tables S) of
              Inl e \<Rightarrow> (Throw e, client_pid, s, S)
            | Inr (cid, R) \<Rightarrow> (Next, client_pid, s\<lparr>s_client_id := cid\<rparr>, S\<lparr>tables := R\<rparr>)
          else (Next, client_pid, s, S))"

definition tcp_pass :: "'j env \<Rightarrow> int \<Rightarrow> int \<Rightarrow> tcp_input \<Rightarrow> thread \<Rightarrow> flow \<times> thread" where
  "tcp_pass E client_sockfd client_pid input x = (case x of (s, S) \<Rightarrow>
     if bytes_read input = [] then
       let S = S\<lparr>sent := sent S @ [Close client_sockfd]\<rparr>
       in (Leave, s, if client_pid \<noteq> 0 then S\<lparr>tables := erase_tcp client_pid (tables S)\<rparr> else S)
     else
       run_stages (tcp_message_stages E client_sockfd (recv_buffer BUFFER_SIZE_SERVER (bytes_read input))) x)"

lemmas tcp_pass_unfold = tcp_pass_def[unfolded tcp_message_copy]

section \<open>What every stage keeps\<close>

text \<open>
  The tables of clients, the tables of the database and the stored orders are well formed.  An
  exception may leave the stored orders without the totals that match them.
\<close>

definition state_ok :: "'j env \<Rightarrow> flow \<Rightarrow> server_state \<Rightarrow> bool" where
  "state_ok E f S \<longleftrightarrow> registry_ok (tables S) \<and> db_ok (env_mysql E) (inventory S)
     \<and> ((\<forall>e. f \<noteq> Throw e) \<longrightarrow> store_ok (env_json E) (orders S))"

definition keeps :: "'j env \<Rightarrow> (thread \<Rightarrow> flow \<times> thread) \<Rightarrow> bool" where
  "keeps E stage \<longleftrightarrow>
     (\<forall>x f y. state_ok E Next (snd x) \<longrightarrow> stage x = (f, y) \<longrightarrow> state_ok E f (snd y))"

text \<open>A reply changes nothing but the sockets, and does not throw.\<close>

definition reply_ok :: "reply \<Rightarrow> bool" where
  "reply_ok reply \<longleftrightarrow> (\<forall>m S f S'. reply m S = (f, S') \<longrightarrow>
     (f = Next \<or> f = Skip) \<and> tables S' = tables S \<and> orders S' = orders S \<and> inventory S' = inventory S)"

named_theorems keeps_intros \<open>stages that keep the state well formed\<close>

lemma net_send_keeps [simp]:
  "tables (snd (net_send E ev S)) = tables S" "orders (snd (net_send E ev S)) = orders S"
  "inventory (snd (net_send E ev S)) = inventory S"
  by (simp_all add: net_send_def Let_def)

lemma reply_ok_udp: "reply_ok (udp_reply E a)"
  by (auto simp: reply_ok_def udp_reply_def)

lemma reply_ok_tcp: "reply_ok (tcp_reply E fd)"
  unfolding reply_ok_def tcp_reply_def Let_def case_prod_unfold by auto

lemma reply_okD:
  assumes "reply_ok reply" and "reply m S = (f, S')"
  shows "f = Next \<or> f = Skip" and "tables S' = tables S" and "orders S' = orders S"
    and "inventory S' = inventory S"
  using assms unfolding reply_ok_def by blast+

lemma reply_with_simps [simp]:
  "fst (reply_with reply m (s, S)) = fst (reply m S)"
  "snd (reply_with reply m (s, S)) = (s, snd (reply m S))"
  by (simp_all add: reply_with_def Let_def case_prod_unfold)

lemma state_ok_reply:
  assumes "reply_ok reply" and "state_ok E Next S" and "reply_with reply m (s, S) = (f, s', S')"
  shows "state_ok E f S'"
proof -
  obtain g S1 where g: "reply m S = (g, S1)" by fastforce
  then have "f = g" "S' = S1" using assms(3) by (simp_all add: reply_with_def)
  with assms(2) reply_okD[OF assms(1) g] show ?thesis by (simp add: state_ok_def)
qed

lemma keepsD: "\<lbrakk>keeps E stage; state_ok E Next (snd x); stage x = (f, y)\<rbrakk> \<Longrightarrow> state_ok E f (snd y)"
  unfolding keeps_def by blast

lemma run_stages_keeps: "list_all (keeps E) stages \<Longrightarrow> keeps E (run_stages stages)"
proof (induction stages)
  case (Cons stage stages)
  show ?case
    unfolding keeps_def
  proof (intro allI impI)
    fix x f y
    assume ok: "state_ok E Next (snd x)" and run: "run_stages (stage # stages) x = (f, y)"
    obtain g z where first: "stage x = (g, z)" by (cases "stage x")
    have "keeps E stage" using Cons.prems by simp
    then have z: "state_ok E g (snd z)" using ok first by (rule keepsD)
    show "state_ok E f (snd y)"
    proof (cases "g = Next")
      case True
      with first run have "run_stages stages z = (f, y)" by simp
      moreover have "keeps E (run_stages stages)" using Cons by simp
      ultimately show ?thesis using z True by (blast dest: keepsD)
    next
      case False
      with first run z show ?thesis by (cases g) simp_all
    qed
  qed
qed (simp add: keeps_def)

lemma keepsI:
  assumes "\<And>s S f s' S'. \<lbrakk>state_ok E Next S; stage (s, S) = (f, s', S')\<rbrakk> \<Longrightarrow> state_ok E f S'"
  shows "keeps E stage"
  unfolding keeps_def
proof (intro allI impI)
  fix x f y
  assume "state_ok E Next (snd x)" and "stage x = (f, y)"
  then show "state_ok E f (snd y)" using assms[of "snd x" "fst x" f "fst y" "snd y"] by simp
qed

lemma state_ok_same:
  "\<lbrakk>state_ok E Next S; tables S' = tables S; orders S' = orders S; inventory S' = inventory S\<rbrakk> \<Longrightarrow> state_ok E f S'"
  by (simp add: state_ok_def)

lemma state_ok_inventory:
  "\<lbrakk>state_ok E Next S; db_ok (env_mysql E) d\<rbrakk> \<Longrightarrow> state_ok E f (S\<lparr>inventory := d\<rparr>)"
  by (simp add: state_ok_def)

lemma keeps_reply [keeps_intros]: "reply_ok reply \<Longrightarrow> keeps E (reply_with reply m)"
  by (rule keepsI) (rule state_ok_reply)

lemma keeps_store [keeps_intros]: "keeps E (store_stage E buffer)"
proof (rule keepsI)
  fix s S f s' S'
  assume ok: "state_ok E Next S" and run: "store_stage E buffer (s, S) = (f, s', S')"
  obtain r st where st: "storeOrder (env_json E) buffer (orders S) = (r, st)" by fastforce
  show "state_ok E f S'"
  proof (cases r)
    case (Inl e)
    with run st have "f = Throw e" "S' = S\<lparr>orders := st\<rparr>" by (simp_all add: store_stage_def Let_def)
    with ok show ?thesis by (simp add: state_ok_def)
  next
    case (Inr u)
    with st have "storeOrder (env_json E) buffer (orders S) = (Inr (), st)" by simp
    moreover have "store_ok (env_json E) (orders S)" using ok by (simp add: state_ok_def)
    ultimately have "store_ok (env_json E) st" by (rule store_ok_step[rotated])
    moreover have "S' = S\<lparr>orders := st\<rparr>" using run st Inr by (simp add: store_stage_def Let_def)
    ultimately show ?thesis using ok by (simp add: state_ok_def)
  qed
qed

lemma keeps_validate [keeps_intros]: "reply_ok reply \<Longrightarrow> keeps E (validate_stage E reply root)"
proof (rule keepsI)
  fix s S f s' S'
  assume reply: "reply_ok reply" and ok: "state_ok E Next S"
    and run: "validate_stage E reply root (s, S) = (f, s', S')"
  show "state_ok E f S'"
  proof (cases "validateOrderLimits (env_json E) root (errorMessage s)")
    case (Inl e)
    with run ok show ?thesis by (auto simp: validate_stage_def intro: state_ok_same)
  next
    case (Inr v)
    with run ok show ?thesis
      by (cases v) (auto simp: validate_stage_def Let_def split: if_splits dest: state_ok_reply[OF reply ok])
  qed
qed

lemma processMessage_forwards_only:
  "on_value (\<lambda>S1. S1 = S \<or> (\<exists>m j p. S1 = forwardMessageToClient E m j p S)) (processMessage E buffer proto i S)"
  unfolding processMessage_def Let_def handleListClientsRequest_def handleShowReportRequest_def
  by (intro on_value_intros) blast+

lemma forward_keeps [simp]:
  "tables (forwardMessageToClient E m i p S) = tables S"
  "orders (forwardMessageToClient E m i p S) = orders S"
  "inventory (forwardMessageToClient E m i p S) = inventory S"
  by (simp_all add: forwardMessageToClient_def split: option.splits)

lemma keeps_process [keeps_intros]: "keeps E (process_stage E buffer proto)"
proof (rule keepsI)
  fix s S f s' S'
  assume ok: "state_ok E Next S" and run: "process_stage E buffer proto (s, S) = (f, s', S')"
  show "state_ok E f S'"
  proof (cases "isValid s \<and> productStock s")
    case True
    show ?thesis
    proof (cases "processMessage E buffer proto (s_client_id s) S")
      case (Inl e)
      with run True ok show ?thesis by (auto simp: process_stage_def intro: state_ok_same)
    next
      case (Inr S1)
      with run True have "S' = S1" by (simp add: process_stage_def)
      with on_valueD[OF processMessage_forwards_only Inr] ok show ?thesis by (auto intro: state_ok_same)
    qed
  next
    case False
    with run ok show ?thesis by (auto simp: process_stage_def intro: state_ok_same)
  qed
qed

text \<open>The four stages that use the database.\<close>

lemma state_ok_reply_inventory:
  assumes "reply_ok reply" and "state_ok E Next S" and "db_ok (env_mysql E) d"
    and "(if b then reply_with reply m (s1, S\<lparr>inventory := d\<rparr>) else (Next, s1, S\<lparr>inventory := d\<rparr>)) = (f, s', S')"
  shows "state_ok E f S'"
proof -
  have ok: "state_ok E Next (S\<lparr>inventory := d\<rparr>)" using assms(2,3) by (rule state_ok_inventory)
  show ?thesis
    using assms(4) ok by (cases b) (auto dest: state_ok_reply[OF assms(1) ok])
qed

lemma keeps_stock [keeps_intros]: "reply_ok reply \<Longrightarrow> keeps E (stock_stage E reply root)"
proof (rule keepsI)
  fix s S f s' S'
  assume reply: "reply_ok reply" and ok: "state_ok E Next S"
    and run: "stock_stage E reply root (s, S) = (f, s', S')"
  have db: "db_ok (env_mysql E) (inventory S)" using ok by (simp add: state_ok_def)
  show "state_ok E f S'"
  proof (cases "checkProductStock (env_json E) (env_mysql E) root (errorMessage s) (inventory S)")
    case (Inl e)
    with run ok show ?thesis by (auto simp: stock_stage_def intro: state_ok_same)
  next
    case (Inr v)
    obtain b t d where v: "v = ((b, t), d)" by (metis surj_pair)
    have "db_ok (env_mysql E) d" using on_valueD[OF checkProductStock_ok[OF db] Inr] v by simp
    from state_ok_reply_inventory[OF reply ok this, of "\<not> b"] run Inr v show ?thesis
      by (simp add: stock_stage_def Let_def split: if_splits)
  qed
qed

lemma keeps_transfer [keeps_intros]: "reply_ok reply \<Longrightarrow> keeps E (transfer_stage E reply root)"
proof (rule keepsI)
  fix s S f s' S'
  assume reply: "reply_ok reply" and ok: "state_ok E Next S"
    and run: "transfer_stage E reply root (s, S) = (f, s', S')"
  have db: "db_ok (env_mysql E) (inventory S)" using ok by (simp add: state_ok_def)
  show "state_ok E f S'"
  proof (cases "productStock s \<and> isValid s")
    case True
    show ?thesis
    proof (cases "realTimeUpdate (env_json E) (env_mysql E) root (inventory S)")
      case (Inl e)
      with True run ok show ?thesis by (auto simp: transfer_stage_def intro: state_ok_same)
    next
      case (Inr v)
      obtain n d where v: "v = (n, d)" by (cases v)
      have "db_ok (env_mysql E) d" using on_valueD[OF realTimeUpdate_ok[OF db] Inr] v by simp
      from state_ok_reply_inventory[OF reply ok this, of "0 < n"] True run Inr v show ?thesis
        by (simp add: transfer_stage_def Let_def)
    qed
  next
    case False
    with run ok show ?thesis by (auto simp: transfer_stage_def intro: state_ok_same)
  qed
qed

lemma keeps_low_stock [keeps_intros]: "reply_ok reply \<Longrightarrow> keeps E (low_stock_stage E reply root)"
proof (rule keepsI)
  fix s S f s' S'
  assume reply: "reply_ok reply" and ok: "state_ok E Next S"
    and run: "low_stock_stage E reply root (s, S) = (f, s', S')"
  have db: "db_ok (env_mysql E) (inventory S)" using ok by (simp add: state_ok_def)
  show "state_ok E f S'"
  proof (cases "checkLowStockAlert (env_json E) (env_mysql E) root (alertOut s) (inventory S)")
    case (Inl e)
    with run ok show ?thesis by (auto simp: low_stock_stage_def intro: state_ok_same)
  next
    case (Inr v)
    obtain b t d where v: "v = ((b, t), d)" by (metis surj_pair)
    have "db_ok (env_mysql E) d" using on_valueD[OF checkLowStockAlert_ok[OF db] Inr] v by simp
    from state_ok_reply_inventory[OF reply ok this, of b] run Inr v show ?thesis
      by (simp add: low_stock_stage_def Let_def)
  qed
qed

lemma keeps_restock [keeps_intros]: "reply_ok reply \<Longrightarrow> keeps E (restock_stage E reply root)"
proof (rule keepsI)
  fix s S f s' S'
  assume reply: "reply_ok reply" and ok: "state_ok E Next S"
    and run: "restock_stage E reply root (s, S) = (f, s', S')"
  have db: "db_ok (env_mysql E) (inventory S)" using ok by (simp add: state_ok_def)
  show "state_ok E f S'"
  proof (cases "reStock (env_json E) (env_mysql E) root (alertOut s) (inventory S)")
    case (Inl e)
    with run ok show ?thesis by (auto simp: restock_stage_def intro: state_ok_same)
  next
    case (Inr v)
    obtain b t d where v: "v = ((b, t), d)" by (metis surj_pair)
    have "db_ok (env_mysql E) d" using on_valueD[OF reStock_ok[OF db] Inr] v by simp
    from state_ok_reply_inventory[OF reply ok this, of b] run Inr v show ?thesis
      by (simp add: restock_stage_def Let_def)
  qed
qed

lemma keeps_parse [keeps_intros]:
  assumes "reply_ok reply"
  shows "keeps E (parse_stage E reply buffer)"
proof (rule keepsI)
  fix s S f s' S'
  assume ok: "state_ok E Next S" and run: "parse_stage E reply buffer (s, S) = (f, s', S')"
  have "keeps E (run_stages (order_stages E reply root))" for root
    unfolding order_stages_def by (intro run_stages_keeps) (simp add: keeps_intros assms)
  from keepsD[OF this] ok run show "state_ok E f S'"
    by (fastforce simp: parse_stage_def intro: state_ok_same split: sum.splits option.splits)
qed

lemma keeps_message:
  "reply_ok reply \<Longrightarrow> keeps E (run_stages (message_stages E reply response proto buffer))"
  unfolding message_stages_def by (intro run_stages_keeps) (simp add: keeps_intros)

lemma keeps_udp_pass: "keeps E (udp_pass E now input)"
proof (rule keepsI)
  fix s S f s' S'
  assume ok: "state_ok E Next S" and run: "udp_pass E now input (s, S) = (f, s', S')"
  show "state_ok E f S'"
  proof (cases input)
    case Recvfrom_error
    with ok run show ?thesis by (auto simp: udp_pass_unfold intro: state_ok_same)
  next
    case (Datagram bytes a)
    let ?b = "recv_buffer BUFFER_SIZE_SERVER bytes"
    show ?thesis
    proof (cases "map_of (clientMapUdp (tables S)) (atoi ?b) = None \<and> atoi ?b \<noteq> 0")
      case True
      show ?thesis
      proof (cases "registerClient (atoi ?b) ''UDP'' a 0 now (tables S)")
        case (Inl e)
        with True Datagram ok run show ?thesis by (auto simp: udp_pass_unfold intro: state_ok_same)
      next
        case (Inr v)
        then obtain cid R where v: "registerClient (atoi ?b) ''UDP'' a 0 now (tables S) = Inr (cid, R)"
          by (cases v) simp
        have "registry_ok R" using ok by (intro registry_ok_register[OF _ v]) (simp add: state_ok_def)
        moreover have "S' = S\<lparr>tables := R\<rparr>" "f = Skip"
          using True Datagram run v by (simp_all add: udp_pass_unfold Let_def)
        ultimately show ?thesis using ok by (simp add: state_ok_def)
      qed
    next
      case False
      have "run_stages (message_stages E (udp_reply E a) ''UDP Server received your message.'' ''UDP'' ?b) (s, S)
          = (f, s', S')"
        using False Datagram run by (auto simp: udp_pass_unfold Let_def)
      from keepsD[OF keeps_message[OF reply_ok_udp] _ this] ok show ?thesis by simp
    qed
  qed
qed

lemma keeps_tcp_pass: "keeps E (tcp_pass E fd pid input)"
proof (rule keepsI)
  fix s S f s' S'
  assume ok: "state_ok E Next S" and run: "tcp_pass E fd pid input (s, S) = (f, s', S')"
  show "state_ok E f S'"
  proof (cases "bytes_read input = []")
    case True
    with ok run show ?thesis
      by (auto simp: tcp_pass_unfold Let_def state_ok_def registry_ok_erase_tcp)
  next
    case False
    then have "run_stages (message_stages E (tcp_reply E fd) ''TCP Server received your message.'' ''TCP''
        (recv_buffer BUFFER_SIZE_SERVER (bytes_read input))) (s, S) = (f, s', S')"
      using run by (simp add: tcp_pass_unfold)
    from keepsD[OF keeps_message[OF reply_ok_tcp] _ this] ok show ?thesis by simp
  qed
qed

lemma state_ok_tcp_first:
  assumes ok: "state_ok E Next S" and run: "tcp_first E now fd a input (s, S) = (f, pid, s', S')"
  shows "state_ok E f S'"
proof (cases "bytes_read input = []")
  case True
  with ok run show ?thesis by (auto simp: tcp_first_def state_ok_def)
next
  case False
  let ?p = "atoi (recv_buffer BUFFER_SIZE_SERVER (bytes_read input))"
  show ?thesis
  proof (cases "?p = 0")
    case True
    with False run ok show ?thesis by (auto simp: tcp_first_def Let_def intro: state_ok_same)
  next
    case pid: False
    show ?thesis
    proof (cases "registerClient ?p ''TCP'' a fd now (tables S)")
      case (Inl e)
      with False pid run ok show ?thesis by (auto simp: tcp_first_def Let_def intro: state_ok_same)
    next
      case (Inr v)
      then obtain cid R where v: "registerClient ?p ''TCP'' a fd now (tables S) = Inr (cid, R)"
        by (cases v) simp
      have "registry_ok R" using ok by (intro registry_ok_register[OF _ v]) (simp add: state_ok_def)
      moreover have "S' = S\<lparr>tables := R\<rparr>" "f = Next"
        using False pid run v by (simp_all add: tcp_first_def Let_def)
      ultimately show ?thesis using ok by (simp add: state_ok_def)
    qed
  qed
qed

section \<open>What a message leaves alone\<close>

text \<open>Handling a message never changes the tables of clients.\<close>

definition same_tables :: "(thread \<Rightarrow> flow \<times> thread) \<Rightarrow> bool" where
  "same_tables stage \<longleftrightarrow> (\<forall>s S. tables (snd (snd (stage (s, S)))) = tables S)"

named_theorems frame_intros \<open>stages that do not touch the tables of clients\<close>

lemma same_tablesD: "\<lbrakk>same_tables stage; stage (s, S) = (f, s', S')\<rbrakk> \<Longrightarrow> tables S' = tables S"
  unfolding same_tables_def by (metis snd_conv)

lemma reply_tables: "reply_ok reply \<Longrightarrow> tables (snd (reply m S)) = tables S"
  by (cases "reply m S") (simp add: reply_okD(2))

lemma frame_reply [frame_intros]: "reply_ok reply \<Longrightarrow> same_tables (reply_with reply m)"
  by (simp add: same_tables_def reply_tables)

lemma frame_store [frame_intros]: "same_tables (store_stage E buffer)"
  by (simp add: same_tables_def store_stage_def Let_def split: prod.split sum.split)

lemma frame_validate [frame_intros]: "reply_ok reply \<Longrightarrow> same_tables (validate_stage E reply root)"
  by (simp add: same_tables_def validate_stage_def Let_def reply_tables split: prod.split sum.split)

lemma frame_stock [frame_intros]: "reply_ok reply \<Longrightarrow> same_tables (stock_stage E reply root)"
  by (simp add: same_tables_def stock_stage_def Let_def reply_tables split: prod.split sum.split)

lemma frame_transfer [frame_intros]: "reply_ok reply \<Longrightarrow> same_tables (transfer_stage E reply root)"
  by (simp add: same_tables_def transfer_stage_def Let_def reply_tables split: prod.split sum.split)

lemma frame_low_stock [frame_intros]: "reply_ok reply \<Longrightarrow> same_tables (low_stock_stage E reply root)"
  by (simp add: same_tables_def low_stock_stage_def Let_def reply_tables split: prod.split sum.split)

lemma frame_restock [frame_intros]: "reply_ok reply \<Longrightarrow> same_tables (restock_stage E reply root)"
  by (simp add: same_tables_def restock_stage_def Let_def reply_tables split: prod.split sum.split)

lemma frame_run: "list_all same_tables stages \<Longrightarrow> same_tables (run_stages stages)"
proof (induction stages)
  case (Cons stage stages)
  show ?case
    unfolding same_tables_def
  proof (intro allI)
    fix s S
    obtain f s1 S1 where first: "stage (s, S) = (f, s1, S1)" by (rule prod_cases3)
    then have "tables S1 = tables S" using Cons.prems by (auto dest: same_tablesD)
    moreover have "tables (snd (snd (run_stages stages (s1, S1)))) = tables S1"
      using Cons by (simp add: same_tables_def)
    ultimately show "tables (snd (snd (run_stages (stage # stages) (s, S)))) = tables S"
      using first by (cases f) simp_all
  qed
qed (simp add: same_tables_def)

lemma frame_parse [frame_intros]:
  assumes "reply_ok reply"
  shows "same_tables (parse_stage E reply buffer)"
proof -
  have "same_tables (run_stages (order_stages E reply root))" for root
    unfolding order_stages_def by (intro frame_run) (simp add: frame_intros assms)
  then show ?thesis by (simp add: same_tables_def parse_stage_def split: sum.split option.split)
qed

lemma frame_process [frame_intros]: "same_tables (process_stage E buffer proto)"
proof -
  have "tables S1 = tables S" if "processMessage E buffer proto i S = Inr S1" for i S S1
    using on_valueD[OF processMessage_forwards_only that] by auto
  then show ?thesis by (auto simp: same_tables_def process_stage_def split: sum.split)
qed

lemma frame_message:
  "reply_ok reply \<Longrightarrow> same_tables (run_stages (message_stages E reply response proto buffer))"
  unfolding message_stages_def by (intro frame_run) (simp add: frame_intros)

text \<open>No stage ends a loop.\<close>

definition never_leaves :: "(thread \<Rightarrow> flow \<times> thread) \<Rightarrow> bool" where
  "never_leaves stage \<longleftrightarrow> (\<forall>x. fst (stage x) \<noteq> Leave)"

lemma never_leaves_run: "list_all never_leaves stages \<Longrightarrow> never_leaves (run_stages stages)"
proof (induction stages)
  case (Cons stage stages)
  show ?case
    unfolding never_leaves_def
  proof
    fix x
    obtain f y where first: "stage x = (f, y)" by (cases "stage x")
    have "never_leaves stage" using Cons.prems by simp
    with first have "f \<noteq> Leave" unfolding never_leaves_def by (metis fst_conv)
    moreover have "never_leaves (run_stages stages)" using Cons by simp
    then have "fst (run_stages stages y) \<noteq> Leave" unfolding never_leaves_def by blast
    ultimately show "fst (run_stages (stage # stages) x) \<noteq> Leave" using first by (cases f) simp_all
  qed
qed (simp add: never_leaves_def)

lemma reply_never_leaves: "reply_ok reply \<Longrightarrow> fst (reply m S) \<noteq> Leave"
  by (cases "reply m S") (auto dest: reply_okD(1))

lemma order_stages_never_leave:
  "reply_ok reply \<Longrightarrow> list_all never_leaves (order_stages E reply root)"
  by (simp add: order_stages_def never_leaves_def validate_stage_def stock_stage_def transfer_stage_def
      low_stock_stage_def restock_stage_def Let_def reply_never_leaves split: prod.split sum.split)

lemma message_never_leaves:
  assumes "reply_ok reply"
  shows "never_leaves (run_stages (message_stages E reply response proto buffer))"
proof -
  have "never_leaves (run_stages (order_stages E reply root))" for root
    using order_stages_never_leave[OF assms] by (rule never_leaves_run)
  then have "never_leaves (parse_stage E reply buffer)"
    by (simp add: never_leaves_def parse_stage_def split: sum.split option.split)
  moreover have "never_leaves (store_stage E buffer)" "never_leaves (process_stage E buffer proto)"
    "never_leaves (reply_with reply response)"
    by (simp_all add: never_leaves_def store_stage_def process_stage_def Let_def reply_never_leaves[OF assms]
        split: prod.split sum.split)
  ultimately show ?thesis unfolding message_stages_def by (intro never_leaves_run) simp
qed

text \<open>So a UDP pass changes the tables of clients only by a registration.\<close>

lemma udp_pass_tables:
  assumes "udp_pass E now input (s, S) = (f, s', S')"
  shows "tables S' = tables S \<or> (\<exists>pid a cid. registerClient pid ''UDP'' a 0 now (tables S) = Inr (cid, tables S'))"
proof (cases input)
  case Recvfrom_error
  with assms show ?thesis by (simp add: udp_pass_unfold)
next
  case (Datagram bytes a)
  let ?b = "recv_buffer BUFFER_SIZE_SERVER bytes"
  show ?thesis
  proof (cases "map_of (clientMapUdp (tables S)) (atoi ?b) = None \<and> atoi ?b \<noteq> 0")
    case True
    with assms Datagram show ?thesis
      by (fastforce simp: udp_pass_unfold Let_def split: sum.splits)
  next
    case False
    with assms Datagram
    have "run_stages (message_stages E (udp_reply E a) ''UDP Server received your message.'' ''UDP'' ?b) (s, S) = (f, s', S')"
      by (auto simp: udp_pass_unfold Let_def)
    from same_tablesD[OF frame_message[OF reply_ok_udp] this] show ?thesis ..
  qed
qed

lemma tcp_pass_tables:
  assumes "tcp_pass E fd pid input (s, S) = (f, s', S')"
  shows "if bytes_read input = [] then f = Leave \<and> tables S' = (if pid \<noteq> 0 then erase_tcp pid (tables S) else tables S)
    else f \<noteq> Leave \<and> tables S' = tables S"
proof (cases "bytes_read input = []")
  case True
  with assms show ?thesis by (auto simp: tcp_pass_unfold Let_def)
next
  case False
  let ?stages = "message_stages E (tcp_reply E fd) ''TCP Server received your message.'' ''TCP''
        (recv_buffer BUFFER_SIZE_SERVER (bytes_read input))"
  have run: "run_stages ?stages (s, S) = (f, s', S')" using assms False by (simp add: tcp_pass_unfold)
  have "tables S' = tables S" by (rule same_tablesD[OF frame_message[OF reply_ok_tcp] run])
  moreover have "f \<noteq> Leave" using message_never_leaves[OF reply_ok_tcp] run unfolding never_leaves_def by (metis fst_conv)
  ultimately show ?thesis using False by simp
qed

end
