(* ===== verification/Server_Orders.thy ===== *)
theory Server_Orders
  imports Server_Handlers
begin

text \<open>
  What a message does to the whole server: an accepted order from the acknowledgement to the
  forwarding, rejected orders, orders that terminate the process, the listings, and the agreement
  of the two protocols.
\<close>

section \<open>A network that delivers\<close>

definition quiet :: "'j env \<Rightarrow> bool" where
  "quiet E \<longleftrightarrow> (\<forall>n. \<not> send_fails E n)"

text \<open>The state after the given events on the sockets.\<close>

definition said :: "net_event list \<Rightarrow> server_state \<Rightarrow> server_state" where
  "said evs S = S\<lparr>sent := sent S @ evs, send_calls := send_calls S + length evs\<rparr>"

lemma said_simps [simp]:
  "tables (said evs S) = tables S" "orders (said evs S) = orders S" "inventory (said evs S) = inventory S"
  "sent (said evs S) = sent S @ evs" "said [] S = S" "said fs (said evs S) = said (evs @ fs) S"
  by (simp_all add: said_def)

lemma net_send_quiet: "quiet E \<Longrightarrow> net_send E ev S = (True, said [ev] S)"
  by (simp add: quiet_def net_send_def said_def Let_def)

lemma udp_reply_quiet: "quiet E \<Longrightarrow> reply_with (udp_reply E a) m (s, S) = (Next, s, said [Sendto a m] S)"
  by (simp add: reply_with_def udp_reply_def net_send_quiet)

lemma tcp_reply_quiet: "quiet E \<Longrightarrow> reply_with (tcp_reply E fd) m (s, S) = (Next, s, said [Write fd m] S)"
  by (simp add: reply_with_def tcp_reply_def net_send_quiet)

text \<open>The events of a forwarded message.\<close>

definition forward_events :: "registry \<Rightarrow> string \<Rightarrow> int \<Rightarrow> string \<Rightarrow> net_event list" where
  "forward_events R message i proto =
     (case findClientById i proto R of None \<Rightarrow> []
      | Some c \<Rightarrow> if proto = ''udp'' then [Sendto (addr c) message]
                  else if proto = ''tcp'' then [Write (socket_fd c) message] else [])"

lemma forward_quiet:
  "quiet E \<Longrightarrow> forwardMessageToClient E m i p S = said (forward_events (tables S) m i p) S"
  by (simp add: forwardMessageToClient_def forward_events_def net_send_quiet split: option.splits)

section \<open>Orders the server understands\<close>

text \<open>
  \<open>order_message\<close>: beside the fields of \<open>order_reads\<close>, those that only \<open>processMessage\<close> reads;
  \<open>p\<close> is the protocol named in the metadata.  Both parsers accept the text.
\<close>

definition order_message :: "'j jsoncpp \<Rightarrow> string \<Rightarrow> 'j \<Rightarrow> order \<Rightarrow> string \<Rightarrow> bool" where
  "order_message J buffer root r p \<longleftrightarrow>
     jv_parse J True buffer = Inr (Some root) \<and> jv_parse J False buffer = Inr (Some root)
   \<and> buffer \<noteq> [] \<and> hd buffer = CHR ''{''
   \<and> order_reads J root r \<and> jv_isMember J root ''general_info'' = Inr True
   \<and> (\<exists>x. json_string J root [''general_info'', ''id''] = Inr x)
   \<and> (\<exists>x. json_string J root (p_metadata ''date'') = Inr x)
   \<and> (\<exists>x. json_string J root (p_metadata ''message'') = Inr x)
   \<and> (\<exists>x. json_string J root (p_metadata ''priority'') = Inr x)
   \<and> json_string J root (p_metadata ''protocol'') = Inr p"

definition forward_text :: "order \<Rightarrow> string" where
  "forward_text r = ''FORWARDED_MESSAGE: '' @ o_action_type r @ '' '' @ to_string (o_quantity r) @ '' '' @ o_product_name r"

lemma order_messageD:
  assumes "order_message J buffer root r p"
  shows "jv_parse J True buffer = Inr (Some root)" and "jv_parse J False buffer = Inr (Some root)"
    and "buffer \<noteq> []" and "hd buffer = CHR ''{''" and "order_reads J root r"
  using assms unfolding order_message_def by blast+

lemma processMessage_order:
  assumes "order_message (env_json E) buffer root r p"
  shows "processMessage E buffer proto i S =
    Inr (forwardMessageToClient E (forward_text r) (o_source_location r) (map c_tolower p) S)"
proof -
  note m = assms[unfolded order_message_def]
  obtain g where g: "jv_index (env_json E) root ''general_info'' = Inr g"
    by (rule order_reads_nodes[OF order_messageD(5)[OF assms]]) (rule that)
  have no: "buffer \<noteq> ''LIST_CLIENTS''" "buffer \<noteq> ''SHOW_REPORT''" using m by auto
  show ?thesis
    using m order_readsD[OF order_messageD(5)[OF assms]]
    by (auto simp: processMessage_def no g json_steps forward_text_def Let_def)
qed

section \<open>The stages on an accepted order\<close>

text \<open>The order is within the limits, its source holds the quantity, its destination has room.\<close>

definition order_ready :: "mysql \<Rightarrow> inv_db \<Rightarrow> order \<Rightarrow> site \<Rightarrow> int \<Rightarrow> bool" where
  "order_ready M d r s a \<longleftrightarrow> known_product (o_product_name r) \<and> order_allowed r
     \<and> site_of (o_source_type r) = Some s
     \<and> stock_at M d s (o_source_location r) (o_product_name r) = Some a \<and> o_quantity r \<le> a
     \<and> room_for M r d"

lemma order_readyD:
  assumes "order_ready M d r s a"
  shows "known_product (o_product_name r)" and "order_allowed r" and "site_of (o_source_type r) = Some s"
    and "stock_at M d s (o_source_location r) (o_product_name r) = Some a" and "o_quantity r \<le> a"
    and "room_for M r d" and "o_product_name r \<noteq> []" and "0 < o_quantity r"
  using assms order_allowed_quantity[of r] known_product_nonempty unfolding order_ready_def by force+

lemma store_stage_order:
  assumes ok: "store_ok (env_json E) (orders S)" and m: "order_message (env_json E) buffer root r p"
    and q: "o_product_name r \<noteq> []" "0 < o_quantity r"
    and fits: "total_ordered (env_json E) (o_product_name r) (storedOrders (orders S)) + o_quantity r \<le> INT_MAX"
  obtains st where "store_stage E buffer (s, S) = (Next, s, S\<lparr>orders := st\<rparr>)"
    and "storedOrders st = storedOrders (orders S) @ [buffer]"
    and "\<And>x. quantity_of st x = quantity_of (orders S) x + (if x = o_product_name r then o_quantity r else 0)"
proof -
  note reads = order_readsD(8,9)[OF order_messageD(5)[OF m]]
  have line: "order_line (env_json E) buffer = Inr (Some (o_product_name r, o_quantity r))"
    using reads q order_messageD(2)[OF m] by (simp add: order_line_def)
  have total: "quantity_of (orders S) (o_product_name r) =
      total_ordered (env_json E) (o_product_name r) (storedOrders (orders S))"
    using ok by (simp add: store_ok_def)
  have "in_int32 (quantity_of (orders S) (o_product_name r) + o_quantity r)"
    using fits q total_ordered_nonneg[of "env_json E" "o_product_name r" "storedOrders (orders S)"]
    by (simp add: total in_int32_def)
  then have run: "storeOrder (env_json E) buffer (orders S) = (Inr (), (orders S)
      \<lparr>storedOrders := storedOrders (orders S) @ [buffer],
       productQuantities := AList.update (o_product_name r)
         (quantity_of (orders S) (o_product_name r) + o_quantity r) (productQuantities (orders S))\<rparr>)"
      (is "_ = (_, ?st)")
    by (simp add: storeOrder_line line Let_def quantity_of_def)
  have "store_stage E buffer (s, S) = (Next, s, S\<lparr>orders := ?st\<rparr>)"
    by (simp add: store_stage_def run)
  then show ?thesis
    by (rule that) (simp_all add: quantity_of_def update_conv')
qed

lemma validate_stage_accepts:
  assumes "order_reads (env_json E) root r" and "known_product (o_product_name r)" and "order_allowed r"
  shows "validate_stage E reply root (s, S) = (Next, s\<lparr>isValid := True, errorMessage := errorMessage s\<rparr>, S)"
  using validate_accepts[OF assms] by (simp add: validate_stage_def)

lemma stock_stage_accepts:
  assumes "order_reads (env_json E) root r" and "db_reliable (env_mysql E) (inventory S)"
    and "order_ready (env_mysql E) (inventory S) r st a"
  shows "stock_stage E reply root (s, S) = (Next, s\<lparr>productStock := True, errorMessage := errorMessage s\<rparr>,
    S\<lparr>inventory := db_tick (inventory S)\<rparr>)"
  using checkProductStock_accepts[OF assms(1) order_readyD(3)[OF assms(3)] order_readyD(7)[OF assms(3)]
      order_readyD(8)[OF assms(3)] assms(2) order_readyD(4)[OF assms(3)] order_readyD(5)[OF assms(3)]]
  by (simp add: stock_stage_def Let_def)

lemma order_ready_tick [simp]: "order_ready M (db_tick d) r s a = order_ready M d r s a"
  by (simp add: order_ready_def room_for_def cong: option.case_cong)

lemma moved_stock_tick [simp]: "moved_stock M r (db_tick d) = moved_stock M r d"
  by (simp add: moved_stock_def cong: option.case_cong)

lemma transfer_stage_succeeds:
  assumes "order_reads (env_json E) root r" and "db_ok (env_mysql E) (inventory S)"
    and "db_reliable (env_mysql E) (inventory S)" and "order_ready (env_mysql E) (inventory S) r st a"
    and "isValid s" and "productStock s"
  obtains d where "transfer_stage E reply root (s, S) = reply_with reply ''Successful order!'' (s, S\<lparr>inventory := d\<rparr>)"
    and "db_ok (env_mysql E) d" and "db_reliable (env_mysql E) d"
    and "stock_at (env_mysql E) d = moved_stock (env_mysql E) r (inventory S)"
proof -
  note ready = order_readyD[OF assms(4)]
  obtain d where "realTimeUpdate (env_json E) (env_mysql E) root (inventory S) = Inr (1, d)"
    "db_ok (env_mysql E) d" "db_reliable (env_mysql E) d"
    "stock_at (env_mysql E) d = moved_stock (env_mysql E) r (inventory S)"
    by (rule transfer_done[OF assms(2,3,1) ready(8) ready(3-6)])
  with assms(5,6) show ?thesis by (intro that[of d]) (simp_all add: transfer_stage_def)
qed

text \<open>Up to the transfer, both kinds of sources take the same way.\<close>

abbreviation udp_ack :: string where "udp_ack \<equiv> ''UDP Server received your message.''"

lemma udp_order_pass:
  assumes Q: "quiet E" and ok: "state_ok E Next S" and rel: "db_reliable (env_mysql E) (inventory S)"
    and m: "order_message (env_json E) (recv_buffer 2048 bytes) root r p"
    and ready: "order_ready (env_mysql E) (inventory S) r st a"
    and fits: "total_ordered (env_json E) (o_product_name r) (storedOrders (orders S)) + o_quantity r \<le> INT_MAX"
  obtains s' S' where "isValid s'" "productStock s'" "alertOut s' = alertOut s"
    "udp_pass E now (Datagram bytes cli) (s, S) =
       run_stages [\<lambda>x. run_stages [low_stock_stage E (udp_reply E cli) root, restock_stage E (udp_reply E cli) root] x,
         process_stage E (recv_buffer 2048 bytes) ''UDP''] (s', S')"
    "db_ok (env_mysql E) (inventory S')" "db_reliable (env_mysql E) (inventory S')" "tables S' = tables S"
    "stock_at (env_mysql E) (inventory S') = moved_stock (env_mysql E) r (inventory S)"
    "sent S' = sent S @ [Sendto cli udp_ack, Sendto cli ''Successful order!'']"
    "storedOrders (orders S') = storedOrders (orders S) @ [recv_buffer 2048 bytes]"
proof -
  let ?b = "recv_buffer 2048 bytes"
  let ?R = "udp_reply E cli"
  let ?S1 = "said [Sendto cli udp_ack] S"
  note reads = order_messageD(5)[OF m]
  note readyD = order_readyD[OF ready]
  have store: "store_ok (env_json E) (orders ?S1)" using ok by (simp add: state_ok_def)
  have "total_ordered (env_json E) (o_product_name r) (storedOrders (orders ?S1)) + o_quantity r \<le> INT_MAX"
    using fits by simp
  then obtain os where os: "store_stage E ?b (s, ?S1) = (Next, s, ?S1\<lparr>orders := os\<rparr>)"
      "storedOrders os = storedOrders (orders S) @ [?b]"
    by (rule store_stage_order[OF store m readyD(7,8)]) (rule that, simp_all)
  let ?s2 = "s\<lparr>isValid := True, errorMessage := errorMessage s\<rparr>"
  let ?s3 = "?s2\<lparr>productStock := True, errorMessage := errorMessage ?s2\<rparr>"
  let ?S2 = "?S1\<lparr>orders := os\<rparr>" and ?S3 = "?S1\<lparr>orders := os, inventory := db_tick (inventory S)\<rparr>"
  have v: "validate_stage E ?R root (s, ?S2) = (Next, ?s2, ?S2)"
    by (rule validate_stage_accepts[OF reads readyD(1,2)])
  have c: "stock_stage E ?R root (?s2, ?S2) = (Next, ?s3, ?S3)"
    using stock_stage_accepts[OF reads, of ?S2 st a ?R ?s2] rel ready by simp
  have "db_ok (env_mysql E) (inventory ?S3)" "db_reliable (env_mysql E) (inventory ?S3)"
    "order_ready (env_mysql E) (inventory ?S3) r st a"
    using ok rel ready by (simp_all add: state_ok_def db_reliable_tick)
  then obtain d where d: "transfer_stage E ?R root (?s3, ?S3) =
      reply_with ?R ''Successful order!'' (?s3, ?S3\<lparr>inventory := d\<rparr>)"
      "db_ok (env_mysql E) d" "db_reliable (env_mysql E) d"
      "stock_at (env_mysql E) d = moved_stock (env_mysql E) r (inventory S)"
    by (rule transfer_stage_succeeds[OF reads, of ?S3 st a ?s3 ?R]) (simp_all add: that)
  let ?S4 = "said [Sendto cli ''Successful order!''] (?S3\<lparr>inventory := d\<rparr>)"
  have "atoi ?b = 0" using order_messageD(3,4)[OF m] by (rule atoi_brace)
  then have "udp_pass E now (Datagram bytes cli) (s, S) =
       run_stages [\<lambda>x. run_stages [low_stock_stage E ?R root, restock_stage E ?R root] x,
         process_stage E ?b ''UDP''] (?s3, ?S4)"
    using order_messageD[OF m] os(1) v c d(1)
    by (simp add: udp_pass_unfold BUFFER_SIZE_SERVER_def message_stages_def udp_reply_quiet[OF Q]
        parse_stage_def order_stages_def)
  then show ?thesis
    by (rule that[rotated 3]) (simp_all add: d os(2))
qed

lemma process_stage_order:
  assumes "quiet E" and "order_message (env_json E) buffer root r p" and "isValid s" and "productStock s"
  shows "process_stage E buffer proto (s, S) =
    (Next, s, said (forward_events (tables S) (forward_text r) (o_source_location r) (map c_tolower p)) S)"
  using assms by (simp add: process_stage_def processMessage_order forward_quiet)

section \<open>Accepted orders\<close>

lemma udp_hub_order_pass:
  assumes "quiet E" and "state_ok E Next S" and "db_reliable (env_mysql E) (inventory S)"
    and "order_message (env_json E) (recv_buffer 2048 bytes) root r p"
    and "order_ready (env_mysql E) (inventory S) r Hub a"
    and "total_ordered (env_json E) (o_product_name r) (storedOrders (orders S)) + o_quantity r \<le> INT_MAX"
  shows "\<exists>s' S'. udp_pass E now (Datagram bytes cli) (s, S) = (Next, s', S')
    \<and> stock_at (env_mysql E) (inventory S') = moved_stock (env_mysql E) r (inventory S)
    \<and> sent S' = sent S @ [Sendto cli ''UDP Server received your message.'', Sendto cli ''Successful order!''] @
        forward_events (tables S) (forward_text r) (o_source_location r) (map c_tolower p)
    \<and> storedOrders (orders S') = storedOrders (orders S) @ [recv_buffer 2048 bytes]"
proof -
  note reads = order_messageD(5)[OF assms(4)]
  have "o_source_type r = ''hub''"
    using order_readyD(3)[OF assms(5)] by (simp add: site_of_def split: if_splits)
  then have hub: "o_source_type r \<noteq> ''warehouse''" by simp
  obtain s1 S1 where s1: "isValid s1" "productStock s1"
    and run: "udp_pass E now (Datagram bytes cli) (s, S) =
       run_stages [\<lambda>x. run_stages [low_stock_stage E (udp_reply E cli) root, restock_stage E (udp_reply E cli) root] x,
         process_stage E (recv_buffer 2048 bytes) ''UDP''] (s1, S1)"
    and S1: "tables S1 = tables S"
    "stock_at (env_mysql E) (inventory S1) = moved_stock (env_mysql E) r (inventory S)"
    "sent S1 = sent S @ [Sendto cli udp_ack, Sendto cli ''Successful order!'']"
    "storedOrders (orders S1) = storedOrders (orders S) @ [recv_buffer 2048 bytes]"
    by (rule udp_order_pass[OF assms]) (rule that)
  show ?thesis
    using s1 S1
    by (simp add: run low_stock_stage_def restock_stage_def stock_functions_hub[OF reads hub]
        process_stage_order[OF assms(1,4)])
qed

text \<open>
  C12: a UDP datagram with an order from a hub that is within the limits, that the hub can serve and
  that fits the destination is carried out completely in one pass: it is stored, acknowledged, the
  units are moved, the sender is told, and the order is forwarded to the client whose number is the
  source location, if there is one.
\<close>

theorem udp_hub_order_carried_out:
  assumes "quiet E" and "state_ok E Next S" and "db_reliable (env_mysql E) (inventory S)"
    and "order_message (env_json E) (recv_buffer 2048 bytes) root r p"
    and "order_ready (env_mysql E) (inventory S) r Hub a"
    and "total_ordered (env_json E) (o_product_name r) (storedOrders (orders S)) + o_quantity r \<le> INT_MAX"
  shows "\<exists>s' S'. udp_pass E now (Datagram bytes cli) (s, S) = (Next, s', S')
    \<and> stock_at (env_mysql E) (inventory S') = moved_stock (env_mysql E) r (inventory S)
    \<and> sent S' = sent S @ [Sendto cli ''UDP Server received your message.'', Sendto cli ''Successful order!''] @
        forward_events (tables S) (forward_text r) (o_source_location r) (map c_tolower p)
    \<and> storedOrders (orders S') = storedOrders (orders S) @ [recv_buffer 2048 bytes]"
  using assms by (rule udp_hub_order_pass)

text \<open>What an order that leaves the system leaves behind, for the next one.\<close>

lemma total_ordered_order:
  assumes "order_message J buffer root r p" and "o_product_name r \<noteq> []" and "0 < o_quantity r"
  shows "total_ordered J (o_product_name r) (texts @ [buffer]) = total_ordered J (o_product_name r) texts + o_quantity r"
proof -
  have "order_line J buffer = Inr (Some (o_product_name r, o_quantity r))"
    using order_readsD(8,9)[OF order_messageD(5)[OF assms(1)]] assms(2,3) order_messageD(2)[OF assms(1)]
    by (simp add: order_line_def)
  then show ?thesis by (simp add: total_ordered_def contribution_def)
qed

lemma moved_stock_out:
  assumes "collation_ok M" and "site_of (o_source_type r) = Some s" and "site_of (o_destination_type r) = None"
    and "stock_at M d s (o_source_location r) (o_product_name r) = Some a"
  shows "moved_stock M r d s (o_source_location r) (o_product_name r) = Some (a - o_quantity r)"
  using assms(2-4) collation_refl[OF assms(1)] by (simp add: moved_stock_def move_apply)

lemma order_ready_left:
  assumes "order_ready M d r st a" and "site_of (o_destination_type r) = None"
    and "stock_at M d' st (o_source_location r) (o_product_name r) = Some x" and "o_quantity r \<le> x"
  shows "order_ready M d' r st x"
  using assms by (auto simp: order_ready_def room_for_def)

text \<open>What is left at the warehouse of an order.\<close>

lemma moved_stock_source:
  assumes "collation_ok M" and "order_ready M d r Warehouse a"
  shows "moved_stock M r d Warehouse (o_source_location r) (o_product_name r) = Some (a - o_quantity r)"
proof -
  note ready = order_readyD[OF assms(2)]
  have "site_of (o_destination_type r) = None \<or> site_of (o_destination_type r) = Some Hub"
    using order_allowed_client[OF ready(2)] by (auto simp: site_of_def)
  with ready(3,4) collation_refl[OF assms(1)] show ?thesis
    by (auto simp: moved_stock_def move_apply)
qed

lemma low_stock_stage_warehouse:
  assumes "jsoncpp_ok (env_json E)" and "db_ok (env_mysql E) (inventory S)" and "db_reliable (env_mysql E) (inventory S)"
    and "order_reads (env_json E) root r" and "o_source_type r = ''warehouse''" and "stoi (o_product_id r) = Inr i"
    and "stock_at (env_mysql E) (inventory S) Warehouse (o_source_location r) (o_product_name r) = Some a"
  obtains t where "low_stock_stage E reply root (s, S) =
      (let x = (s\<lparr>lowStock := a \<le> 200, alertOut := t\<rparr>, S\<lparr>inventory := db_tick (inventory S)\<rparr>)
       in if a \<le> 200 then reply_with reply t x else (Next, x))"
    and "if a \<le> 200 then alert_text (env_json E) ''Low Stock Alert: ''
        ''Stock levels are <= 20 per cent of max capacity'' i (o_product_name r) t else t = alertOut s"
proof -
  obtain t where "checkLowStockAlert (env_json E) (env_mysql E) root (alertOut s) (inventory S)
      = Inr ((a \<le> 200, t), db_tick (inventory S))"
    "if a \<le> 200 then alert_text (env_json E) ''Low Stock Alert: ''
        ''Stock levels are <= 20 per cent of max capacity'' i (o_product_name r) t else t = alertOut s"
    using checkLowStockAlert_level[OF assms] by blast
  then show ?thesis by (intro that[of t]) (simp_all add: low_stock_stage_def Let_def)
qed

lemma restock_stage_warehouse:
  assumes "jsoncpp_ok (env_json E)" and "db_ok (env_mysql E) (inventory S)" and "db_reliable (env_mysql E) (inventory S)"
    and "order_reads (env_json E) root r" and "o_source_type r = ''warehouse''" and "stoi (o_product_id r) = Inr i"
    and "stock_at (env_mysql E) (inventory S) Warehouse (o_source_location r) (o_product_name r) = Some a"
  obtains t d where "restock_stage E reply root (s, S) =
      reply_with reply t (s\<lparr>reStocked := True, alertOut := t\<rparr>, S\<lparr>inventory := d\<rparr>)"
    and "stock_at (env_mysql E) d = (if a \<le> 100
        then move (env_mysql E) Warehouse (o_source_location r) (o_product_name r) (1000 - a)
          (stock_at (env_mysql E) (inventory S)) else stock_at (env_mysql E) (inventory S))"
    and "if a \<le> 100 then alert_text (env_json E) ''Re-stock Alert: ''
        ''Stock replenished to full capacity (1000 units)'' i (o_product_name r) t else t = alertOut s"
proof (cases "a \<le> 100")
  case True
  then obtain t d where "reStock (env_json E) (env_mysql E) root (alertOut s) (inventory S) = Inr ((True, t), d)"
    "stock_at (env_mysql E) d = move (env_mysql E) Warehouse (o_source_location r) (o_product_name r) (1000 - a)
       (stock_at (env_mysql E) (inventory S))"
    "alert_text (env_json E) ''Re-stock Alert: '' ''Stock replenished to full capacity (1000 units)'' i (o_product_name r) t"
    using reStock_level[OF assms] by blast
  with True show ?thesis by (intro that[of t d]) (simp_all add: restock_stage_def Let_def)
next
  case False
  then have "reStock (env_json E) (env_mysql E) root (alertOut s) (inventory S)
      = Inr ((True, alertOut s), db_tick (inventory S))"
    using reStock_above[OF assms(2-7)] by simp
  with False show ?thesis by (intro that[of "alertOut s" "db_tick (inventory S)"]) (simp_all add: restock_stage_def Let_def)
qed

lemma udp_warehouse_order_pass:
  assumes "quiet E" and "state_ok E Next S" and "db_reliable (env_mysql E) (inventory S)"
    and "order_message (env_json E) (recv_buffer 2048 bytes) root r p"
    and "order_ready (env_mysql E) (inventory S) r Warehouse a"
    and "total_ordered (env_json E) (o_product_name r) (storedOrders (orders S)) + o_quantity r \<le> INT_MAX"
    and "jsoncpp_ok (env_json E)" and "stoi (o_product_id r) = Inr i"
  shows "\<exists>s' S' low re. udp_pass E now (Datagram bytes cli) (s, S) = (Next, s', S')
    \<and> stock_at (env_mysql E) (inventory S') = (if a - o_quantity r \<le> 100
        then move (env_mysql E) Warehouse (o_source_location r) (o_product_name r) (1000 - (a - o_quantity r))
          (moved_stock (env_mysql E) r (inventory S))
        else moved_stock (env_mysql E) r (inventory S))
    \<and> sent S' = sent S @ [Sendto cli ''UDP Server received your message.'', Sendto cli ''Successful order!''] @
        (if a - o_quantity r \<le> 200 then [Sendto cli low] else []) @ [Sendto cli re] @
        forward_events (tables S) (forward_text r) (o_source_location r) (map c_tolower p)
    \<and> (if a - o_quantity r \<le> 200
       then alert_text (env_json E) ''Low Stock Alert: '' ''Stock levels are <= 20 per cent of max capacity''
              i (o_product_name r) low
       else low = alertOut s)
    \<and> (if a - o_quantity r \<le> 100
       then alert_text (env_json E) ''Re-stock Alert: '' ''Stock replenished to full capacity (1000 units)''
              i (o_product_name r) re
       else re = low)"
proof -
  let ?n = "a - o_quantity r" and ?R = "udp_reply E cli"
  note reads = order_messageD(5)[OF assms(4)]
  have src: "o_source_type r = ''warehouse''"
    using order_readyD(3)[OF assms(5)] by (simp add: site_of_def split: if_splits)
  obtain s1 S1 where s1: "isValid s1" "productStock s1" "alertOut s1 = alertOut s"
    and run: "udp_pass E now (Datagram bytes cli) (s, S) =
       run_stages [\<lambda>x. run_stages [low_stock_stage E ?R root, restock_stage E ?R root] x,
         process_stage E (recv_buffer 2048 bytes) ''UDP''] (s1, S1)"
    and S1: "db_ok (env_mysql E) (inventory S1)" "db_reliable (env_mysql E) (inventory S1)" "tables S1 = tables S"
    "stock_at (env_mysql E) (inventory S1) = moved_stock (env_mysql E) r (inventory S)"
    "sent S1 = sent S @ [Sendto cli udp_ack, Sendto cli ''Successful order!'']"
    by (rule udp_order_pass[OF assms(1-6)]) (rule that)
  have left: "stock_at (env_mysql E) (inventory S1) Warehouse (o_source_location r) (o_product_name r) = Some ?n"
    using moved_stock_source[OF _ assms(5)] assms(2) by (simp add: S1(4) state_ok_def db_ok_def)
  obtain low where low: "low_stock_stage E ?R root (s1, S1) =
      (let x = (s1\<lparr>lowStock := ?n \<le> 200, alertOut := low\<rparr>, S1\<lparr>inventory := db_tick (inventory S1)\<rparr>)
       in if ?n \<le> 200 then reply_with ?R low x else (Next, x))"
    "if ?n \<le> 200 then alert_text (env_json E) ''Low Stock Alert: ''
        ''Stock levels are <= 20 per cent of max capacity'' i (o_product_name r) low else low = alertOut s"
    using low_stock_stage_warehouse[OF assms(7) S1(1,2) reads src assms(8) left, of ?R s1] s1(3) by metis
  define s2 where "s2 = s1\<lparr>lowStock := ?n \<le> 200, alertOut := low\<rparr>"
  define S2 where "S2 = said (if ?n \<le> 200 then [Sendto cli low] else []) (S1\<lparr>inventory := db_tick (inventory S1)\<rparr>)"
  have low_run: "low_stock_stage E ?R root (s1, S1) = (Next, s2, S2)"
    unfolding low(1) s2_def S2_def by (simp add: udp_reply_quiet[OF assms(1)] Let_def)
  have S2: "db_ok (env_mysql E) (inventory S2)" "db_reliable (env_mysql E) (inventory S2)"
    "stock_at (env_mysql E) (inventory S2) Warehouse (o_source_location r) (o_product_name r) = Some ?n"
    using S1(1,2) left by (simp_all add: S2_def db_reliable_tick)
  obtain re d where re: "restock_stage E ?R root (s2, S2) =
      reply_with ?R re (s2\<lparr>reStocked := True, alertOut := re\<rparr>, S2\<lparr>inventory := d\<rparr>)"
    "stock_at (env_mysql E) d = (if ?n \<le> 100
        then move (env_mysql E) Warehouse (o_source_location r) (o_product_name r) (1000 - ?n)
          (stock_at (env_mysql E) (inventory S2)) else stock_at (env_mysql E) (inventory S2))"
    "if ?n \<le> 100 then alert_text (env_json E) ''Re-stock Alert: ''
        ''Stock replenished to full capacity (1000 units)'' i (o_product_name r) re else re = alertOut s2"
    by (rule restock_stage_warehouse[OF assms(7) S2(1,2) reads src assms(8) S2(3), of ?R s2]) (rule that)
  have stock: "stock_at (env_mysql E) (inventory S2) = moved_stock (env_mysql E) r (inventory S)"
    using S1(4) by (simp add: S2_def)
  have events: "sent S2 = sent S1 @ (if ?n \<le> 200 then [Sendto cli low] else [])" "tables S2 = tables S"
    using S1(3) by (simp_all add: S2_def)
  let ?s3 = "s2\<lparr>reStocked := True, alertOut := re\<rparr>"
  let ?S3 = "said [Sendto cli re] (S2\<lparr>inventory := d\<rparr>)"
  let ?S4 = "said (forward_events (tables S) (forward_text r) (o_source_location r) (map c_tolower p)) ?S3"
  have flags: "isValid ?s3" "productStock ?s3" using s1 by (simp_all add: s2_def)
  have "udp_pass E now (Datagram bytes cli) (s, S) = (Next, ?s3, ?S4)"
    using process_stage_order[OF assms(1,4) flags, of "''UDP''" ?S3] events(2)
    by (simp add: run low_run re(1) udp_reply_quiet[OF assms(1)])
  then show ?thesis
    using low(2) re(2,3) stock events S1(5)
    by (intro exI[of _ ?s3] exI[of _ ?S4] exI[of _ low] exI[of _ re]) (simp add: s2_def)
qed

text \<open>
  C13: an accepted UDP order from a warehouse is carried out in the same way, and then the sender
  gets the low-stock alert when 200 units or fewer are left; the warehouse is filled up to 1000 units
  when 100 or fewer are left.  A last message is sent in every case: the re-stock alert, or, when
  nothing was re-stocked, whatever alert text the session still holds.
\<close>

theorem udp_warehouse_order_carried_out:
  assumes "quiet E" and "state_ok E Next S" and "db_reliable (env_mysql E) (inventory S)"
    and "order_message (env_json E) (recv_buffer 2048 bytes) root r p"
    and "order_ready (env_mysql E) (inventory S) r Warehouse a"
    and "total_ordered (env_json E) (o_product_name r) (storedOrders (orders S)) + o_quantity r \<le> INT_MAX"
    and "jsoncpp_ok (env_json E)" and "stoi (o_product_id r) = Inr i"
  shows "\<exists>s' S' low re. udp_pass E now (Datagram bytes cli) (s, S) = (Next, s', S')
    \<and> stock_at (env_mysql E) (inventory S') = (if a - o_quantity r \<le> 100
        then move (env_mysql E) Warehouse (o_source_location r) (o_product_name r) (1000 - (a - o_quantity r))
          (moved_stock (env_mysql E) r (inventory S))
        else moved_stock (env_mysql E) r (inventory S))
    \<and> sent S' = sent S @ [Sendto cli ''UDP Server received your message.'', Sendto cli ''Successful order!''] @
        (if a - o_quantity r \<le> 200 then [Sendto cli low] else []) @ [Sendto cli re] @
        forward_events (tables S) (forward_text r) (o_source_location r) (map c_tolower p)
    \<and> (if a - o_quantity r \<le> 200
       then alert_text (env_json E) ''Low Stock Alert: '' ''Stock levels are <= 20 per cent of max capacity''
              i (o_product_name r) low
       else low = alertOut s)
    \<and> (if a - o_quantity r \<le> 100
       then alert_text (env_json E) ''Re-stock Alert: '' ''Stock replenished to full capacity (1000 units)''
              i (o_product_name r) re
       else re = low)"
  using assms by (rule udp_warehouse_order_pass)

section \<open>Rejected orders\<close>

lemma checkProductStock_total:
  assumes "jsoncpp_ok J" and "order_reads J root r" and "site_of (o_source_type r) = Some s"
    and "o_product_name r \<noteq> []" and "0 < o_quantity r"
  obtains v t where "checkProductStock J M root e d = Inr ((v, t), db_tick d)"
proof -
  let ?n = "fst (get_at M s (o_source_location r) (o_product_name r) d)"
  show ?thesis
  proof (cases "0 \<le> ?n \<and> o_quantity r \<le> ?n")
    case True
    then have "check_available J (o_quantity r) ?n e = Inr (True, e)" by (simp add: check_available_True)
    then show ?thesis by (intro that[of True e]) (simp add: checkProductStock_reads[OF assms(2-5)])
  next
    case False
    then have "?n < 0 \<or> ?n < o_quantity r" by auto
    from check_available_False[OF assms(1) this, of e] obtain t
      where "check_available J (o_quantity r) ?n e = Inr (False, t)" by blast
    then show ?thesis by (intro that[of False t]) (simp add: checkProductStock_reads[OF assms(2-5)])
  qed
qed

text \<open>Up to the alerts: two error texts at most, no transfer.\<close>

lemma udp_rejected_pass:
  assumes Q: "quiet E" and ok: "state_ok E Next S" and J: "jsoncpp_ok (env_json E)"
    and m: "order_message (env_json E) (recv_buffer 2048 bytes) root r p"
    and src: "site_of (o_source_type r) = Some st" and qty: "0 < o_quantity r"
    and known: "known_product (o_product_name r)" and bad: "\<not> order_allowed r"
    and fits: "total_ordered (env_json E) (o_product_name r) (storedOrders (orders S)) + o_quantity r \<le> INT_MAX"
  obtains s' S' e es where "\<not> isValid s'" "alertOut s' = alertOut s"
    "udp_pass E now (Datagram bytes cli) (s, S) =
       run_stages [\<lambda>x. run_stages [low_stock_stage E (udp_reply E cli) root, restock_stage E (udp_reply E cli) root] x,
         process_stage E (recv_buffer 2048 bytes) ''UDP''] (s', S')"
    "inventory S' = db_tick (inventory S)" "tables S' = tables S"
    "\<exists>msg dsc. error_text (env_json E) (rejection_code r) msg dsc ERROR e"
    "sent S' = sent S @ [Sendto cli udp_ack, Sendto cli e] @ map (Sendto cli) es"
proof -
  let ?b = "recv_buffer 2048 bytes"
  let ?R = "udp_reply E cli"
  let ?S1 = "said [Sendto cli udp_ack] S"
  note reads = order_messageD(5)[OF m]
  have name: "o_product_name r \<noteq> []" using known by (rule known_product_nonempty)
  have store: "store_ok (env_json E) (orders ?S1)" using ok by (simp add: state_ok_def)
  have "total_ordered (env_json E) (o_product_name r) (storedOrders (orders ?S1)) + o_quantity r \<le> INT_MAX"
    using fits by simp
  then obtain os where os: "store_stage E ?b (s, ?S1) = (Next, s, ?S1\<lparr>orders := os\<rparr>)"
    by (rule store_stage_order[OF store m name qty]) (rule that)
  obtain e where e: "validateOrderLimits (env_json E) root (errorMessage s) = Inr (False, e)"
    "\<exists>msg dsc. error_text (env_json E) (rejection_code r) msg dsc ERROR e"
    using validate_rejects[OF reads known bad] reject_text[OF J] by metis
  let ?s2 = "s\<lparr>isValid := False, errorMessage := e\<rparr>"
  let ?S2 = "said [Sendto cli e] (?S1\<lparr>orders := os\<rparr>)"
  have v: "validate_stage E ?R root (s, ?S1\<lparr>orders := os\<rparr>) = (Next, ?s2, ?S2)"
    by (simp add: validate_stage_def e(1) udp_reply_quiet[OF Q])
  obtain enough t where c: "checkProductStock (env_json E) (env_mysql E) root e (inventory ?S2) =
      Inr ((enough, t), db_tick (inventory ?S2))"
    by (rule checkProductStock_total[OF J reads src name qty])
  let ?s3 = "?s2\<lparr>productStock := enough, errorMessage := t\<rparr>"
  let ?es = "if enough then [] else [t]"
  let ?S3 = "said (map (Sendto cli) ?es) (?S2\<lparr>inventory := db_tick (inventory S)\<rparr>)"
  have cs: "stock_stage E ?R root (?s2, ?S2) = (Next, ?s3, ?S3)"
    using c by (simp add: stock_stage_def udp_reply_quiet[OF Q])
  have ts: "transfer_stage E ?R root (?s3, ?S3) = (Next, ?s3, ?S3)"
    by (simp add: transfer_stage_def)
  have "atoi ?b = 0" using order_messageD(3,4)[OF m] by (rule atoi_brace)
  then have run: "udp_pass E now (Datagram bytes cli) (s, S) =
       run_stages [\<lambda>x. run_stages [low_stock_stage E ?R root, restock_stage E ?R root] x,
         process_stage E ?b ''UDP''] (?s3, ?S3)"
    using order_messageD[OF m] os v cs ts
    by (simp only: udp_pass_unfold BUFFER_SIZE_SERVER_def message_stages_def udp_input.case Let_def prod.case
        run_stages.simps append.simps udp_reply_quiet[OF Q] flow.case if_True if_False simp_thms
        parse_stage_def order_stages_def sum.case option.case)
  show ?thesis
    by (rule that[OF _ _ run]) (simp_all add: e(2))
qed

text \<open>
  C14: a UDP order from a hub outside the limits moves nothing: the sender gets the acknowledgement
  and the error of the first limit it broke, every level stays as it was, nothing is forwarded, and
  the session is marked invalid.
\<close>

theorem udp_hub_order_rejected:
  assumes "quiet E" and "state_ok E Next S" and "jsoncpp_ok (env_json E)"
    and "order_message (env_json E) (recv_buffer 2048 bytes) root r p"
    and "site_of (o_source_type r) = Some Hub" and "0 < o_quantity r"
    and "known_product (o_product_name r)" and "\<not> order_allowed r"
    and "total_ordered (env_json E) (o_product_name r) (storedOrders (orders S)) + o_quantity r \<le> INT_MAX"
  shows "\<exists>s' S' e es msg dsc. udp_pass E now (Datagram bytes cli) (s, S) = (Next, s', S') \<and> \<not> isValid s'
    \<and> error_text (env_json E) (rejection_code r) msg dsc ERROR e
    \<and> sent S' = sent S @ [Sendto cli ''UDP Server received your message.'', Sendto cli e] @ map (Sendto cli) es
    \<and> stock_at (env_mysql E) (inventory S') = stock_at (env_mysql E) (inventory S)"
proof -
  have hub: "o_source_type r \<noteq> ''warehouse''" using assms(5) by (simp add: site_of_def split: if_splits)
  obtain s1 S1 e es msg dsc where s1: "\<not> isValid s1"
    and run: "udp_pass E now (Datagram bytes cli) (s, S) =
       run_stages [\<lambda>x. run_stages [low_stock_stage E (udp_reply E cli) root, restock_stage E (udp_reply E cli) root] x,
         process_stage E (recv_buffer 2048 bytes) ''UDP''] (s1, S1)"
    and S1: "inventory S1 = db_tick (inventory S)"
    "error_text (env_json E) (rejection_code r) msg dsc ERROR e"
    "sent S1 = sent S @ [Sendto cli udp_ack, Sendto cli e] @ map (Sendto cli) es"
    by (rule udp_rejected_pass[OF assms(1-9)]) (auto intro: that)
  let ?s = "s1\<lparr>lowStock := False, alertOut := alertOut s1, reStocked := False\<rparr>"
  have "udp_pass E now (Datagram bytes cli) (s, S) = (Next, ?s, S1)"
    using s1 by (simp add: run low_stock_stage_def restock_stage_def process_stage_def
        stock_functions_hub[OF order_messageD(5)[OF assms(4)] hub])
  with s1 S1 show ?thesis
    by (intro exI[of _ ?s] exI[of _ S1] exI[of _ e] exI[of _ es] exI[of _ msg] exI[of _ dsc]) simp
qed

text \<open>
  C15: the re-stock does not depend on the verdict: a rejected order from a warehouse that holds 100
  units or fewer fills it up to 1000.
\<close>

theorem udp_rejected_order_restocks:
  assumes "quiet E" and "state_ok E Next S" and "jsoncpp_ok (env_json E)"
    and "order_message (env_json E) (recv_buffer 2048 bytes) root r p"
    and "site_of (o_source_type r) = Some Warehouse" and "0 < o_quantity r"
    and "known_product (o_product_name r)" and "\<not> order_allowed r"
    and "total_ordered (env_json E) (o_product_name r) (storedOrders (orders S)) + o_quantity r \<le> INT_MAX"
    and "db_reliable (env_mysql E) (inventory S)" and "stoi (o_product_id r) = Inr i"
    and "stock_at (env_mysql E) (inventory S) Warehouse (o_source_location r) (o_product_name r) = Some a"
    and "a \<le> 100"
  shows "\<exists>s' S'. udp_pass E now (Datagram bytes cli) (s, S) = (Next, s', S') \<and> \<not> isValid s'
    \<and> stock_at (env_mysql E) (inventory S') Warehouse (o_source_location r) (o_product_name r) = Some 1000"
proof -
  let ?R = "udp_reply E cli"
  note reads = order_messageD(5)[OF assms(4)]
  have src: "o_source_type r = ''warehouse''" using assms(5) by (simp add: site_of_def split: if_splits)
  obtain s1 S1 where s1: "\<not> isValid s1"
    and run: "udp_pass E now (Datagram bytes cli) (s, S) =
       run_stages [\<lambda>x. run_stages [low_stock_stage E ?R root, restock_stage E ?R root] x,
         process_stage E (recv_buffer 2048 bytes) ''UDP''] (s1, S1)"
    and S1: "inventory S1 = db_tick (inventory S)"
    by (rule udp_rejected_pass[OF assms(1-9)]) (rule that)
  have db: "db_ok (env_mysql E) (inventory S1)" "db_reliable (env_mysql E) (inventory S1)"
    "stock_at (env_mysql E) (inventory S1) Warehouse (o_source_location r) (o_product_name r) = Some a"
    using assms(2,10,12) by (simp_all add: S1 state_ok_def db_reliable_tick)
  obtain low where low: "low_stock_stage E ?R root (s1, S1) =
      (let x = (s1\<lparr>lowStock := a \<le> 200, alertOut := low\<rparr>, S1\<lparr>inventory := db_tick (inventory S1)\<rparr>)
       in if a \<le> 200 then reply_with ?R low x else (Next, x))"
    by (rule low_stock_stage_warehouse[OF assms(3) db(1,2) reads src assms(11) db(3), of ?R s1]) (rule that)
  let ?s2 = "s1\<lparr>lowStock := True, alertOut := low\<rparr>"
  let ?S2 = "said [Sendto cli low] (S1\<lparr>inventory := db_tick (inventory S1)\<rparr>)"
  have low_run: "low_stock_stage E ?R root (s1, S1) = (Next, ?s2, ?S2)"
    using assms(13) by (simp add: low udp_reply_quiet[OF assms(1)])
  have db2: "db_ok (env_mysql E) (inventory ?S2)" "db_reliable (env_mysql E) (inventory ?S2)"
    "stock_at (env_mysql E) (inventory ?S2) Warehouse (o_source_location r) (o_product_name r) = Some a"
    using db by (simp_all add: db_reliable_tick)
  obtain re d where re: "restock_stage E ?R root (?s2, ?S2) =
      reply_with ?R re (?s2\<lparr>reStocked := True, alertOut := re\<rparr>, ?S2\<lparr>inventory := d\<rparr>)"
    "stock_at (env_mysql E) d = move (env_mysql E) Warehouse (o_source_location r) (o_product_name r) (1000 - a)
        (stock_at (env_mysql E) (inventory ?S2))"
    using restock_stage_warehouse[OF assms(3) db2(1,2) reads src assms(11) db2(3), of ?R ?s2] assms(13) by metis
  have "collation_ok (env_mysql E)" using assms(2) by (simp add: state_ok_def db_ok_def)
  then have "stock_at (env_mysql E) d Warehouse (o_source_location r) (o_product_name r) = Some 1000"
    using db2(3) by (simp add: re(2) move_apply collation_refl)
  moreover have "udp_pass E now (Datagram bytes cli) (s, S) =
      (Next, ?s2\<lparr>reStocked := True, alertOut := re\<rparr>, said [Sendto cli re] (?S2\<lparr>inventory := d\<rparr>))"
    using s1 by (simp add: run low_run re(1) udp_reply_quiet[OF assms(1)] process_stage_def)
  ultimately show ?thesis using s1
    by (intro exI[of _ "?s2\<lparr>reStocked := True, alertOut := re\<rparr>"] exI[of _ "said [Sendto cli re] (?S2\<lparr>inventory := d\<rparr>)"]) simp
qed

section \<open>Orders that terminate the process\<close>

text \<open>
  One UDP order for a product the server does not know terminates the process: it is
  acknowledged and stored, and then the lookup of the product throws.
\<close>

theorem udp_unknown_product_terminates:
  assumes "quiet E" and "state_ok E Next S"
    and "order_message (env_json E) (recv_buffer 2048 bytes) root r p"
    and "\<not> known_product (o_product_name r)" and "o_product_name r \<noteq> []" and "0 < o_quantity r"
    and "o_destination_type r \<noteq> []" and "o_action_type r = ''request''"
    and "total_ordered (env_json E) (o_product_name r) (storedOrders (orders S)) + o_quantity r \<le> INT_MAX"
  shows "\<exists>s' S'. udp_pass E now (Datagram bytes cli) (s, S) = (Throw Std_out_of_range, s', S')
    \<and> sent S' = sent S @ [Sendto cli ''UDP Server received your message.'']
    \<and> storedOrders (orders S') = storedOrders (orders S) @ [recv_buffer 2048 bytes]"
proof -
  let ?b = "recv_buffer 2048 bytes" and ?S1 = "said [Sendto cli udp_ack] S"
  note m = assms(3)
  have store: "store_ok (env_json E) (orders ?S1)" using assms(2) by (simp add: state_ok_def)
  have "total_ordered (env_json E) (o_product_name r) (storedOrders (orders ?S1)) + o_quantity r \<le> INT_MAX"
    using assms(9) by simp
  then obtain os where os: "store_stage E ?b (s, ?S1) = (Next, s, ?S1\<lparr>orders := os\<rparr>)"
      "storedOrders os = storedOrders (orders S) @ [?b]"
    by (rule store_stage_order[OF store m assms(5,6)]) (rule that, simp_all)
  have "validateOrderLimits (env_json E) root (errorMessage s) = Inl Std_out_of_range"
    using assms(4-8) by (auto simp: validate_reads[OF order_messageD(5)[OF m]] criticalProducts_at_unknown)
  then have "validate_stage E (udp_reply E cli) root (s, ?S1\<lparr>orders := os\<rparr>) =
      (Throw Std_out_of_range, s, ?S1\<lparr>orders := os\<rparr>)"
    by (simp add: validate_stage_def)
  moreover have "atoi ?b = 0" using order_messageD(3,4)[OF m] by (rule atoi_brace)
  ultimately have "udp_pass E now (Datagram bytes cli) (s, S) = (Throw Std_out_of_range, s, ?S1\<lparr>orders := os\<rparr>)"
    using order_messageD[OF m] os
    by (simp add: udp_pass_unfold BUFFER_SIZE_SERVER_def message_stages_def udp_reply_quiet[OF assms(1)]
        parse_stage_def order_stages_def)
  then show ?thesis using os(2) by simp
qed

text \<open>
  C16: An accepted UDP order from a warehouse whose product id is not a number is carried out, the
  sender is told so, and then the process terminates.
\<close>

theorem udp_bad_product_id_terminates:
  assumes "quiet E" and "state_ok E Next S" and "db_reliable (env_mysql E) (inventory S)"
    and "order_message (env_json E) (recv_buffer 2048 bytes) root r p"
    and "order_ready (env_mysql E) (inventory S) r Warehouse a"
    and "total_ordered (env_json E) (o_product_name r) (storedOrders (orders S)) + o_quantity r \<le> INT_MAX"
    and "stoi (o_product_id r) = Inl x"
  shows "\<exists>s' S'. udp_pass E now (Datagram bytes cli) (s, S) = (Throw x, s', S')
    \<and> stock_at (env_mysql E) (inventory S') = moved_stock (env_mysql E) r (inventory S)
    \<and> sent S' = sent S @ [Sendto cli ''UDP Server received your message.'', Sendto cli ''Successful order!'']"
proof -
  note reads = order_messageD(5)[OF assms(4)]
  have src: "o_source_type r = ''warehouse''"
    using order_readyD(3)[OF assms(5)] by (simp add: site_of_def split: if_splits)
  obtain s1 S1 where run: "udp_pass E now (Datagram bytes cli) (s, S) =
       run_stages [\<lambda>x. run_stages [low_stock_stage E (udp_reply E cli) root, restock_stage E (udp_reply E cli) root] x,
         process_stage E (recv_buffer 2048 bytes) ''UDP''] (s1, S1)"
    and S1: "stock_at (env_mysql E) (inventory S1) = moved_stock (env_mysql E) r (inventory S)"
    "sent S1 = sent S @ [Sendto cli udp_ack, Sendto cli ''Successful order!'']"
    by (rule udp_order_pass[OF assms(1-6)]) (rule that)
  have "low_stock_stage E (udp_reply E cli) root (s1, S1) = (Throw x, s1, S1)"
    using stock_functions_bad_id[OF reads src assms(7)] by (simp add: low_stock_stage_def)
  with S1 show ?thesis by (simp add: run)
qed

section \<open>Listings\<close>

text \<open>A message that is neither an order nor a new process id, with a session that is in order.\<close>

lemma udp_command_pass:
  assumes "quiet E" and "recv_buffer 2048 bytes = cmd" and "cmd \<noteq> []" and "hd cmd \<noteq> CHR ''{''" and "atoi cmd = 0"
  shows "udp_pass E now (Datagram bytes cli) (s, S) =
    process_stage E cmd ''UDP'' (s, said [Sendto cli udp_ack] S)"
proof -
  have "run_stages [f] x = f x" for f x
    by (cases "f x"; cases "fst (f x)") simp_all
  then show ?thesis
    using assms(2-5) by (simp add: udp_pass_unfold BUFFER_SIZE_SERVER_def message_stages_def udp_reply_quiet[OF assms(1)])
qed

lemma listing_commands [simp]:
  "recv_buffer 2048 ''LIST_CLIENTS'' = ''LIST_CLIENTS''" "recv_buffer 2048 ''SHOW_REPORT'' = ''SHOW_REPORT''"
  "atoi ''LIST_CLIENTS'' = 0" "atoi ''SHOW_REPORT'' = 0"
  by (simp_all add: recv_buffer_def c_str_def atoi_def strtol_value_no_digit c_isspace_def c_isdigit_def)

text \<open>Commands with the times and the addresses they come from.\<close>

definition is_command :: "string \<Rightarrow> bool" where
  "is_command cmd \<longleftrightarrow> cmd = ''LIST_CLIENTS'' \<or> cmd = ''SHOW_REPORT''"

lemma udp_command_ignored:
  assumes "quiet E" and "\<not> (isValid s \<and> productStock s)" and "is_command cmd"
  shows "udp_pass E now (Datagram cmd cli) (s, S) = (Next, s, said [Sendto cli udp_ack] S)"
  using assms by (auto simp: is_command_def udp_command_pass process_stage_def)

text \<open>
  C17: after a rejected order the UDP session answers no command: whatever sequence of
  \<open>LIST_CLIENTS\<close> and \<open>SHOW_REPORT\<close> arrives, from whatever clients, each gets the acknowledgement and
  nothing else, and the session stays as it is.
\<close>

theorem udp_commands_ignored_after_rejection:
  assumes "quiet E" and "\<not> (isValid s \<and> productStock s)" and "list_all (\<lambda>(now, cmd, cli). is_command cmd) cmds"
  shows "udp_passes E (map (\<lambda>(now, cmd, cli). (now, Datagram cmd cli)) cmds) (s, S) =
    (s, said (map (\<lambda>(now, cmd, cli). Sendto cli ''UDP Server received your message.'') cmds) S)"
  using assms(3)
proof (induction cmds arbitrary: S)
  case (Cons c cmds)
  obtain now cmd cli where c: "c = (now, cmd, cli)" by (cases c)
  have "is_command cmd" using Cons.prems c by simp
  note pass = udp_command_ignored[OF assms(1,2) this]
  from Cons show ?case by (simp add: c pass)
qed simp



section \<open>TCP sessions\<close>

text \<open>
  A second TCP connection that announces the process id of a registered client gets the number
  -1, and when it ends it unregisters the first client, which is still connected.
\<close>

theorem tcp_duplicate_pid_unregisters_first:
  assumes "state_ok E Next S" and "map_of (clientMapTcp (tables S)) pid = Some c" and "pid \<noteq> 0"
    and "bytes \<noteq> []" and "atoi (recv_buffer 2048 bytes) = pid"
  shows "tcp_first E now fd cli (Bytes bytes) (s, S) = (Next, pid, s\<lparr>s_client_id := - 1\<rparr>, S)
    \<and> findClientById (client_id c) ''tcp'' (tables S) = Some c
    \<and> (\<exists>S'. tcp_pass E fd pid Read_error (s\<lparr>s_client_id := - 1\<rparr>, S) = (Leave, s\<lparr>s_client_id := - 1\<rparr>, S')
         \<and> findClientById (client_id c) ''tcp'' (tables S') = None)"
proof -
  let ?R = "erase_tcp pid (tables S)"
  have ok: "registry_ok (tables S)" using assms(1) by (simp add: state_ok_def)
  have kp: "known_protocol ''TCP''" by (simp add: known_protocol_def)
  have t: "table_ok ''TCP'' (clientMapTcp (tables S)) (nextClientId_tcp (tables S))"
    using ok by (simp add: registry_ok_def)
  have "findClientById (client_id c) ''tcp'' ?R = None"
  proof (rule findClientById_None[OF registry_ok_erase_tcp[OF ok]])
    show "known_protocol (map c_toupper ''tcp'')" by (simp add: kp)
    fix k c' assume "map_of (client_table (map c_toupper ''tcp'') ?R) k = Some c'"
    then have "map_of (clientMapTcp (tables S)) k = Some c'" "k \<noteq> pid"
      using om.find_erase[OF table_okD(1)[OF t], of pid k]
      by (auto simp: client_table_def erase_tcp_def split: if_splits)
    then show "client_id c' \<noteq> client_id c" using table_okD(5)[OF t _ assms(2)] by blast
  qed
  moreover have "findClientById (client_id c) ''tcp'' (tables S) = Some c"
    using findClientById_entry[OF ok, of "''tcp''" "client_id c" c] assms(2) by (auto simp: kp client_table_def)
  moreover have "tcp_first E now fd cli (Bytes bytes) (s, S) = (Next, pid, s\<lparr>s_client_id := - 1\<rparr>, S)"
    using assms(2-5) by (simp add: tcp_first_def BUFFER_SIZE_SERVER_def registerClient_def Let_def)
  ultimately show ?thesis using assms(3) by (simp add: tcp_pass_unfold Let_def)
qed

text \<open>
  Two states that differ only in the way the same messages went out, by datagrams or on a stream.
\<close>

definition agree :: "sockaddr_in \<Rightarrow> int \<Rightarrow> net_event list \<Rightarrow> server_state \<Rightarrow> server_state \<Rightarrow> bool" where
  "agree a fd evs S T \<longleftrightarrow> tables S = tables T \<and> orders S = orders T \<and> inventory S = inventory T
     \<and> (\<exists>ms. sent S = evs @ map (Sendto a) ms \<and> sent T = evs @ map (Write fd) ms)"

definition agree_stage :: "sockaddr_in \<Rightarrow> int \<Rightarrow> net_event list \<Rightarrow>
    (thread \<Rightarrow> flow \<times> thread) \<Rightarrow> (thread \<Rightarrow> flow \<times> thread) \<Rightarrow> bool" where
  "agree_stage a fd evs f g \<longleftrightarrow> (\<forall>s S T. agree a fd evs S T \<longrightarrow>
     (\<exists>w s' S' T'. f (s, S) = (w, s', S') \<and> g (s, T) = (w, s', T') \<and> agree a fd evs S' T'))"

lemma agree_stageI:
  assumes "\<And>s S T. \<lbrakk>agree a fd evs S T; inventory T = inventory S\<rbrakk> \<Longrightarrow>
    \<exists>w s' S' T'. f (s, S) = (w, s', S') \<and> g (s, T) = (w, s', T') \<and> agree a fd evs S' T'"
  shows "agree_stage a fd evs f g"
  using assms unfolding agree_stage_def by (simp add: agree_def)

lemma agree_inventory: "agree a fd evs S T \<Longrightarrow> agree a fd evs (S\<lparr>inventory := d\<rparr>) (T\<lparr>inventory := d\<rparr>)"
  by (simp add: agree_def)

lemma agree_said:
  assumes "agree a fd evs S T"
  shows "agree a fd evs (said [Sendto a m] S) (said [Write fd m] T)"
proof -
  from assms obtain ms where "sent S = evs @ map (Sendto a) ms" "sent T = evs @ map (Write fd) ms"
    by (auto simp: agree_def)
  then show ?thesis using assms unfolding agree_def by (intro conjI exI[of _ "ms @ [m]"]) simp_all
qed

named_theorems agree_intros \<open>stages that agree\<close>

lemmas agree_replies = udp_reply_quiet tcp_reply_quiet

lemma agree_validate [agree_intros]:
  "quiet E \<Longrightarrow> agree_stage a fd evs (validate_stage E (udp_reply E a) root) (validate_stage E (tcp_reply E fd) root)"
  by (auto simp: agree_stage_def validate_stage_def agree_replies Let_def intro: agree_said split: sum.split)

lemma agree_stock [agree_intros]:
  "quiet E \<Longrightarrow> agree_stage a fd evs (stock_stage E (udp_reply E a) root) (stock_stage E (tcp_reply E fd) root)"
  by (rule agree_stageI) (auto simp: stock_stage_def agree_replies Let_def
      intro: agree_said agree_inventory split: sum.split)

lemma agree_transfer [agree_intros]:
  "quiet E \<Longrightarrow> agree_stage a fd evs (transfer_stage E (udp_reply E a) root) (transfer_stage E (tcp_reply E fd) root)"
  by (rule agree_stageI) (auto simp: transfer_stage_def agree_replies Let_def
      intro: agree_said agree_inventory split: sum.split)

lemma agree_low_stock [agree_intros]:
  "quiet E \<Longrightarrow> agree_stage a fd evs (low_stock_stage E (udp_reply E a) root) (low_stock_stage E (tcp_reply E fd) root)"
  by (rule agree_stageI) (auto simp: low_stock_stage_def agree_replies Let_def
      intro: agree_said agree_inventory split: sum.split)

lemma agree_restock [agree_intros]:
  "quiet E \<Longrightarrow> agree_stage a fd evs (restock_stage E (udp_reply E a) root) (restock_stage E (tcp_reply E fd) root)"
  by (rule agree_stageI) (auto simp: restock_stage_def agree_replies Let_def
      intro: agree_said agree_inventory split: sum.split)

lemma agree_run:
  "list_all2 (agree_stage a fd evs) fs gs \<Longrightarrow> agree_stage a fd evs (run_stages fs) (run_stages gs)"
proof (induction rule: list_all2_induct)
  case (Cons f fs g gs)
  show ?case
    unfolding agree_stage_def
  proof (intro allI impI)
    fix s S T
    assume "agree a fd evs S T"
    then obtain w s' S' T' where first: "f (s, S) = (w, s', S')" "g (s, T) = (w, s', T')" "agree a fd evs S' T'"
      using Cons.hyps(1) unfolding agree_stage_def by metis
    show "\<exists>w s' S' T'. run_stages (f # fs) (s, S) = (w, s', S') \<and> run_stages (g # gs) (s, T) = (w, s', T')
        \<and> agree a fd evs S' T'"
    proof (cases "w = Next")
      case True
      with first Cons.IH show ?thesis by (simp add: agree_stage_def)
    next
      case False
      with first show ?thesis by (cases w) simp_all
    qed
  qed
qed (simp add: agree_stage_def)

lemma agree_store [agree_intros]: "agree_stage a fd evs (store_stage E buffer) (store_stage E buffer)"
  by (auto simp: agree_stage_def store_stage_def agree_def Let_def split: prod.split sum.split)

lemma agree_parse [agree_intros]:
  assumes "quiet E"
  shows "agree_stage a fd evs (parse_stage E (udp_reply E a) buffer) (parse_stage E (tcp_reply E fd) buffer)"
proof -
  have "agree_stage a fd evs (run_stages (order_stages E (udp_reply E a) root))
      (run_stages (order_stages E (tcp_reply E fd) root))" for root
    unfolding order_stages_def by (intro agree_run list.rel_intros agree_intros assms(1))
  then show ?thesis unfolding agree_stage_def parse_stage_def by (auto split: sum.split option.split)
qed

text \<open>
  C20: on a network that delivers, the two copies of the code that handle an order, in the UDP and
  in the TCP loop, agree: they store the same order, end the same way with the same variables, make
  the same changes to the stock and send the same texts to the sender, by \<open>sendto\<close> or by \<open>write\<close>.
\<close>

theorem tcp_udp_orders_agree:
  assumes "quiet E"
    and "run_stages [udp_store_stage E buffer, udp_parse_stage E a buffer] (s, S) = (w, s', S')"
    and "run_stages [tcp_store_stage E buffer, tcp_parse_stage E fd buffer] (s, S) = (w', s'', S'')"
  shows "w' = w \<and> s'' = s' \<and> tables S'' = tables S' \<and> orders S'' = orders S' \<and> inventory S'' = inventory S'
    \<and> (\<exists>ms. sent S' = sent S @ map (Sendto a) ms \<and> sent S'' = sent S @ map (Write fd) ms)"
proof -
  have "agree_stage a fd (sent S)
      (run_stages [udp_store_stage E buffer, udp_parse_stage E a buffer])
      (run_stages [tcp_store_stage E buffer, tcp_parse_stage E fd buffer])"
    unfolding copies by (intro agree_run list.rel_intros agree_intros assms(1))
  moreover have "agree a fd (sent S) S S" by (simp add: agree_def)
  ultimately obtain w1 s1 S1 T1
    where "run_stages [udp_store_stage E buffer, udp_parse_stage E a buffer] (s, S) = (w1, s1, S1)"
      "run_stages [tcp_store_stage E buffer, tcp_parse_stage E fd buffer] (s, S) = (w1, s1, T1)"
      "agree a fd (sent S) S1 T1"
    unfolding agree_stage_def by blast
  with assms(2,3) show ?thesis by (auto simp: agree_def)
qed

section \<open>Witnesses\<close>

text \<open>
  A server with one registered client of each protocol that receives the text \<open>{A\<close>, which stands for
  one order of 50 or 150 units.
\<close>

definition sample_env :: "sample_json \<Rightarrow> sample_json env" where
  "sample_env doc = \<lparr>env_json = sample [(''{A'', doc)], env_mysql = sample_mysql, send_fails = (\<lambda>_. False),
     quantities_order = (\<lambda>m. m)\<rparr>"

definition sample_server :: "int \<Rightarrow> server_state" where
  "sample_server q = \<lparr>tables = sample_registry, orders = empty_store, inventory = seed_db q, sent = [], send_calls = 0\<rparr>"

lemma sample_env_simps [simp]:
  "env_json (sample_env doc) = sample [(''{A'', doc)]" "env_mysql (sample_env doc) = sample_mysql"
  "quantities_order (sample_env doc) = (\<lambda>m. m)"
  by (simp_all add: sample_env_def)

lemma sample_server_simps [simp]:
  "tables (sample_server q) = sample_registry" "orders (sample_server q) = empty_store"
  "inventory (sample_server q) = seed_db q" "sent (sample_server q) = []"
  by (simp_all add: sample_server_def)

lemma quiet_sample: "quiet (sample_env doc)"
  by (simp add: quiet_def sample_env_def)

lemma state_ok_sample: "\<lbrakk>0 \<le> q; q \<le> INT_MAX\<rbrakk> \<Longrightarrow> state_ok (sample_env doc) Next (sample_server q)"
  by (simp add: state_ok_def sample_registry_ok db_ok_seed store_ok_empty)

lemma sample_buffer [simp]: "recv_buffer 2048 ''{A'' = ''{A''"
  by (simp add: recv_buffer_def c_str_def)

lemma order_message_sample:
  "\<lbrakk>in_int32 sl; in_int32 dl; in_int32 q\<rbrakk> \<Longrightarrow>
   order_message (env_json (sample_env (sample_order st sl dt dl act pid name q))) (recv_buffer 2048 ''{A'')
     (sample_order st sl dt dl act pid name q) (sample_order_fields st sl dt dl act pid name q) ''TCP''"
  unfolding order_message_def using order_reads_sample[of sl dl q "[(''{A'', sample_order st sl dt dl act pid name q)]"]
  by (simp add: json_string_def sample_order_def)

abbreviation hub_order :: "int \<Rightarrow> sample_json" where
  "hub_order q \<equiv> sample_order ''hub'' 1 ''hub'' 2 ''request'' ''2'' ''Water'' q"
abbreviation hub_fields :: "int \<Rightarrow> order" where
  "hub_fields q \<equiv> sample_order_fields ''hub'' 1 ''hub'' 2 ''request'' ''2'' ''Water'' q"
abbreviation warehouse_order :: "string \<Rightarrow> int \<Rightarrow> sample_json" where
  "warehouse_order i q \<equiv> sample_order ''warehouse'' 1 ''hub'' 2 ''request'' i ''Water'' q"
abbreviation warehouse_fields :: "string \<Rightarrow> int \<Rightarrow> order" where
  "warehouse_fields i q \<equiv> sample_order_fields ''warehouse'' 1 ''hub'' 2 ''request'' i ''Water'' q"

lemma sample_fits [simp]: "total_ordered J p (storedOrders empty_store) = 0"
  by (simp add: total_ordered_def empty_store_def)

lemma hub_order_ready: "order_ready sample_mysql (seed_db 1000) (hub_fields 50) Hub 1000"
  by code_simp

lemma warehouse_order_ready: "order_ready sample_mysql (seed_db 150) (warehouse_fields ''2'' 50) Warehouse 150"
  by code_simp

lemma bad_id_order_ready: "order_ready sample_mysql (seed_db 1000) (warehouse_fields ''W2'' 50) Warehouse 1000"
  by code_simp

lemma sample_fields [simp]:
  "o_source_type (sample_order_fields st sl dt dl act pid name q) = st"
  "o_source_location (sample_order_fields st sl dt dl act pid name q) = sl"
  "o_destination_type (sample_order_fields st sl dt dl act pid name q) = dt"
  "o_destination_location (sample_order_fields st sl dt dl act pid name q) = dl"
  "o_action_type (sample_order_fields st sl dt dl act pid name q) = act"
  "o_product_id (sample_order_fields st sl dt dl act pid name q) = pid"
  "o_product_name (sample_order_fields st sl dt dl act pid name q) = name"
  "o_quantity (sample_order_fields st sl dt dl act pid name q) = q"
  by (simp_all add: sample_order_fields_def)

lemmas sample_facts = in_int32_def db_reliable_sample jsoncpp_ok_sample site_of_def move_apply

text \<open>The hypotheses the order theorems share, on the samples.\<close>

lemmas hub_sample = order_message_sample[of 1 2 50 "''hub''" "''hub''" "''request''" "''2''" "''Water''"]
lemmas warehouse_sample = order_message_sample[of 1 2 50 "''warehouse''" "''hub''" "''request''" "''2''" "''Water''"]

theorem udp_hub_order_carried_out_witness:
  "\<exists>s' S'. udp_pass (sample_env (hub_order 50)) 0 (Datagram ''{A'' (sample_addr 7000)) (new_session, sample_server 1000)
     = (Next, s', S') \<and> stock_at sample_mysql (inventory S') Hub 2 ''Water'' = Some 1050"
proof -
  have "moved_stock sample_mysql (hub_fields 50) (seed_db 1000) Hub 2 ''Water'' = Some 1050" by code_simp
  moreover note udp_hub_order_carried_out[where now = 0 and cli = "sample_addr 7000" and s = new_session
      and S = "sample_server 1000" and a = 1000, OF quiet_sample state_ok_sample _ hub_sample]
  ultimately show ?thesis using hub_order_ready by (auto simp: sample_facts)
qed

theorem udp_warehouse_order_carried_out_witness:
  "\<exists>s' S'. udp_pass (sample_env (warehouse_order ''2'' 50)) 0 (Datagram ''{A'' (sample_addr 7000)) (new_session, sample_server 150)
     = (Next, s', S') \<and> stock_at sample_mysql (inventory S') Warehouse 1 ''Water'' = Some 1000"
proof -
  have "moved_stock sample_mysql (warehouse_fields ''2'' 50) (seed_db 150) Warehouse 1 ''Water'' = Some 100" by code_simp
  moreover note udp_warehouse_order_carried_out[where now = 0 and cli = "sample_addr 7000" and s = new_session
      and S = "sample_server 150" and a = 150, OF quiet_sample state_ok_sample _ warehouse_sample]
  ultimately show ?thesis using warehouse_order_ready stoi_2 by (auto simp: sample_facts)
qed

lemma rejected_sample: "\<not> order_allowed (hub_fields 150)" "\<not> order_allowed (warehouse_fields ''2'' 150)"
  "rejection_code (hub_fields 150) = 1005" "known_product ''Water''" "\<not> known_product ''Fuel''"
  "stoi ''W2'' = Inl Std_invalid_argument"
  by code_simp+

theorem udp_hub_order_rejected_witness:
  "\<exists>s' S' e msg dsc. udp_pass (sample_env (hub_order 150)) 0 (Datagram ''{A'' (sample_addr 7000)) (new_session, sample_server 1000)
     = (Next, s', S') \<and> error_text (sample [(''{A'', hub_order 150)]) 1005 msg dsc ERROR e"
proof -
  note udp_hub_order_rejected[where now = 0 and cli = "sample_addr 7000" and s = new_session
      and S = "sample_server 1000", OF quiet_sample state_ok_sample _
        order_message_sample[of 1 2 150 "''hub''" "''hub''" "''request''" "''2''" "''Water''"]]
  then show ?thesis using rejected_sample by (simp add: sample_facts) blast
qed

theorem udp_rejected_order_restocks_witness:
  "\<exists>s' S'. udp_pass (sample_env (warehouse_order ''2'' 150)) 0 (Datagram ''{A'' (sample_addr 7000)) (new_session, sample_server 100)
     = (Next, s', S') \<and> stock_at sample_mysql (inventory S') Warehouse 1 ''Water'' = Some 1000"
proof -
  note udp_rejected_order_restocks[where now = 0 and cli = "sample_addr 7000" and s = new_session
      and S = "sample_server 100" and a = 100, OF quiet_sample state_ok_sample _
        order_message_sample[of 1 2 150 "''warehouse''" "''hub''" "''request''" "''2''" "''Water''"]]
  then show ?thesis using rejected_sample stoi_2 seed_stock[of 100] by (simp add: sample_facts) blast
qed

theorem udp_unknown_product_terminates_witness:
  "\<exists>s' S'. udp_pass (sample_env (sample_order ''hub'' 1 ''hub'' 2 ''request'' ''9'' ''Fuel'' 50)) 0
     (Datagram ''{A'' (sample_addr 7000)) (new_session, sample_server 1000) = (Throw Std_out_of_range, s', S')"
proof -
  note udp_unknown_product_terminates[where now = 0 and cli = "sample_addr 7000" and s = new_session
      and S = "sample_server 1000", OF quiet_sample state_ok_sample
        order_message_sample[of 1 2 50 "''hub''" "''hub''" "''request''" "''9''" "''Fuel''"]]
  then show ?thesis using rejected_sample by (simp add: sample_facts) blast
qed

theorem udp_bad_product_id_terminates_witness:
  "\<exists>s' S'. udp_pass (sample_env (warehouse_order ''W2'' 50)) 0 (Datagram ''{A'' (sample_addr 7000)) (new_session, sample_server 1000)
     = (Throw Std_invalid_argument, s', S')"
proof -
  note udp_bad_product_id_terminates[where now = 0 and cli = "sample_addr 7000" and s = new_session
      and S = "sample_server 1000" and a = 1000, OF quiet_sample state_ok_sample _
        order_message_sample[of 1 2 50 "''warehouse''" "''hub''" "''request''" "''W2''" "''Water''"]]
  then show ?thesis using rejected_sample bad_id_order_ready by (simp add: sample_facts) blast
qed

theorem udp_commands_ignored_after_rejection_witness:
  "sent (snd (udp_passes (sample_env SNull) [(0, Datagram ''LIST_CLIENTS'' (sample_addr 7000)),
     (1, Datagram ''SHOW_REPORT'' (sample_addr 7001))] (new_session\<lparr>isValid := False\<rparr>, sample_server 0))) =
   [Sendto (sample_addr 7000) ''UDP Server received your message.'',
    Sendto (sample_addr 7001) ''UDP Server received your message.'']"
  using udp_commands_ignored_after_rejection[OF quiet_sample, of "new_session\<lparr>isValid := False\<rparr>"
      "[(0, ''LIST_CLIENTS'', sample_addr 7000), (1, ''SHOW_REPORT'', sample_addr 7001)]"]
  by (simp add: is_command_def new_session_def)

lemma sample_pid: "recv_buffer 2048 ''99'' = ''99''" "atoi ''99'' = 99" "recv_buffer 2048 ''77'' = ''77''" "atoi ''77'' = 77"
  by (simp_all add: recv_buffer_def c_str_def) code_simp+



definition sample_tcp_registry :: registry where
  "sample_tcp_registry = empty_registry
     \<lparr>clientMapTcp := [(77, new_client 1 ''TCP'' (sample_addr 5000) 4 5)], nextClientId_tcp := 2\<rparr>"

lemma sample_tcp_registry_ok: "registry_ok sample_tcp_registry"
proof (rule registry_ok_register[OF registry_ok_empty])
  show "registerClient 77 ''TCP'' (sample_addr 5000) 4 5 empty_registry = Inr (1, sample_tcp_registry)"
    by (simp add: registerClient_def empty_registry_def sample_tcp_registry_def int32_add_def in_int32_def
        MAX_CLIENTS_ID_def Let_def)
qed

theorem tcp_duplicate_pid_unregisters_first_witness:
  "\<exists>S'. tcp_pass (sample_env SNull) 6 77 Read_error (new_session\<lparr>s_client_id := - 1\<rparr>, (sample_server 0)\<lparr>tables := sample_tcp_registry\<rparr>)
     = (Leave, new_session\<lparr>s_client_id := - 1\<rparr>, S') \<and> findClientById 1 ''tcp'' (tables S') = None"
proof -
  have "state_ok (sample_env SNull) Next ((sample_server 0)\<lparr>tables := sample_tcp_registry\<rparr>)"
    by (simp add: state_ok_def sample_tcp_registry_ok db_ok_seed store_ok_empty)
  from tcp_duplicate_pid_unregisters_first[where pid = 77 and c = "new_client 1 ''TCP'' (sample_addr 5000) 4 5"
      and bytes = "''77''" and fd = 6 and cli = "sample_addr 6000" and s = new_session, OF this]
  show ?thesis by (simp add: sample_tcp_registry_def sample_pid)
qed

lemma triple_eta: "x = (fst x, fst (snd x), snd (snd x))"
  by simp

theorem tcp_udp_orders_agree_witness:
  "\<exists>ms. sent (snd (snd (run_stages [udp_store_stage (sample_env (hub_order 50)) ''{A'',
        udp_parse_stage (sample_env (hub_order 50)) (sample_addr 7000) ''{A''] (new_session, sample_server 1000))))
      = map (Sendto (sample_addr 7000)) ms
    \<and> sent (snd (snd (run_stages [tcp_store_stage (sample_env (hub_order 50)) ''{A'',
        tcp_parse_stage (sample_env (hub_order 50)) 4 ''{A''] (new_session, sample_server 1000))))
      = map (Write 4) ms"
proof -
  have "sent (sample_server 1000) = []" by simp
  with tcp_udp_orders_agree[OF quiet_sample triple_eta triple_eta] show ?thesis by (metis append_Nil)
qed

end
