(* ===== verification/Order_Programs.thy ===== *)
theory Order_Programs
  imports Server_Orders
begin

text \<open>
  The handling of a message as a program of single actions on the shared state: one call of the
  database, one \<open>sendto\<close> or \<open>write\<close>, one operation on the stored orders.  Between two actions of a
  thread the other threads run.  The functions of the other theories take a state and return one;
  here they are translated once more, call by call, and shown to agree with those functions when
  nothing interrupts them.
\<close>

section \<open>Actions and programs\<close>

text \<open>
  \<open>Process_message\<close> is one action: what it reads of the tables of clients and what it sends.
\<close>

datatype action =
    Read_stock site int string
  | Change_stock site int string int
  | Transmit net_event
  | Store_order string
  | Process_message string string int

text \<open>
  What one action does.  The answer is the number the call returns; -1 for a \<open>sendto\<close> or \<open>write\<close>
  that failed, and 0 where the caller looks at nothing.
\<close>

definition on_inventory :: "(inv_db \<Rightarrow> int \<times> inv_db) \<Rightarrow> server_state \<Rightarrow> int result \<times> server_state" where
  "on_inventory f S = (Inr (fst (f (inventory S))), S\<lparr>inventory := snd (f (inventory S))\<rparr>)"

fun perform :: "'j env \<Rightarrow> action \<Rightarrow> server_state \<Rightarrow> int result \<times> server_state" where
  "perform E (Read_stock s l p) S = on_inventory (get_at (env_mysql E) s l p) S"
| "perform E (Change_stock s l p q) S = on_inventory (update_at (env_mysql E) s l p q) S"
| "perform E (Transmit ev) S = (case net_send E ev S of (sent_ok, S') \<Rightarrow> (Inr (if sent_ok then 0 else - 1), S'))"
| "perform E (Store_order buffer) S =
     (case storeOrder (env_json E) buffer (orders S) of
        (Inl e, st) \<Rightarrow> (Inl e, S\<lparr>orders := st\<rparr>)
      | (Inr _, st) \<Rightarrow> (Inr 0, S\<lparr>orders := st\<rparr>))"
| "perform E (Process_message buffer proto cid) S =
     (case processMessage E buffer proto cid S of Inl e \<Rightarrow> (Inl e, S) | Inr S' \<Rightarrow> (Inr 0, S'))"

text \<open>A program ends with a value, throws, or does an action and goes on with its answer.\<close>

datatype 'a program =
    Return 'a
  | Raise cpp_exn
  | Act action "int \<Rightarrow> 'a program"

primrec run :: "'j env \<Rightarrow> 'a program \<Rightarrow> server_state \<Rightarrow> 'a result \<times> server_state" where
  "run E (Return v) S = (Inr v, S)"
| "run E (Raise e) S = (Inl e, S)"
| "run E (Act a k) S = (case perform E a S of (Inl e, S') \<Rightarrow> (Inl e, S') | (Inr n, S') \<Rightarrow> run E (k n) S')"

primrec bind_program :: "'a program \<Rightarrow> ('a \<Rightarrow> 'b program) \<Rightarrow> 'b program" where
  "bind_program (Return v) f = f v"
| "bind_program (Raise e) f = Raise e"
| "bind_program (Act a k) f = Act a (\<lambda>n. bind_program (k n) f)"

definition attempt :: "'a result \<Rightarrow> ('a \<Rightarrow> 'b program) \<Rightarrow> 'b program" where
  "attempt m f = (case m of Inl e \<Rightarrow> Raise e | Inr x \<Rightarrow> f x)"

lemma attempt_simps [simp]: "attempt (Inl e) f = Raise e" "attempt (Inr x) f = f x"
  by (simp_all add: attempt_def)

lemma bind_attempt [simp]: "bind_program (attempt m f) g = attempt m (\<lambda>x. bind_program (f x) g)"
  by (cases m) simp_all

lemma bind_Return [simp]: "bind_program p Return = p"
  by (induction p) simp_all

lemma bind_assoc: "bind_program (bind_program p f) g = bind_program p (\<lambda>v. bind_program (f v) g)"
  by (induction p) simp_all

lemma run_bind:
  "run E (bind_program p f) S = (case run E p S of (Inl e, S') \<Rightarrow> (Inl e, S') | (Inr v, S') \<Rightarrow> run E (f v) S')"
  by (induction p arbitrary: S) (auto split: prod.split sum.split)

lemma run_attempt:
  "run E (attempt m f) S = (case m of Inl e \<Rightarrow> (Inl e, S) | Inr x \<Rightarrow> run E (f x) S)"
  by (cases m) simp_all

section \<open>The four functions on the database, call by call\<close>

definition checkProductStock_steps :: "'j jsoncpp \<Rightarrow> 'j \<Rightarrow> string \<Rightarrow> (bool \<times> string) program" where
  "checkProductStock_steps J orderJson error_out =
     attempt (jv_index J orderJson ''general_info'') (\<lambda>generalInfo.
     if jv_isNull J generalInfo then
       attempt (reject J ERROR_INSUFFICIENT_STOCK ''Missing 'general_info' field''
         ''The 'general_info' object is required but was not found.'') Return
     else
     attempt (jv_index J generalInfo ''source'') (\<lambda>source.
     attempt (json_string J source [''type'']) (\<lambda>sourceType.
     attempt (json_string J source [''location'']) (\<lambda>sourceLocationStr.
     if sourceType = [] \<or> sourceLocationStr = [] then
       attempt (reject J ERROR_INSUFFICIENT_STOCK ''Missing source type or location''
         ''The 'source' object must include both 'type' and 'location' fields.'') Return
     else case stoi sourceLocationStr of
       Inl _ \<Rightarrow>
         attempt (reject J ERROR_INSUFFICIENT_STOCK ''Invalid source location format''
           ''The source location must be a valid integer string.'') Return
     | Inr sourceId \<Rightarrow>
     attempt (jv_index J generalInfo ''action'') (\<lambda>action.
     attempt (if jv_isNull J action then Inr True else rbind (jv_isMember J action ''product'') (\<lambda>b. Inr (\<not> b))) (\<lambda>missing.
     if missing then
       attempt (reject J ERROR_INSUFFICIENT_STOCK ''Missing 'action' or 'product' field''
         ''The 'action' object and its 'product' field must exist in the request.'') Return
     else
     attempt (jv_index J action ''product'') (\<lambda>product.
     attempt (json_string J product [''name'']) (\<lambda>productName.
     attempt (json_int J product [''quantity'']) (\<lambda>requestedQuantity.
     if productName = [] \<or> requestedQuantity \<le> 0 then
       attempt (reject J ERROR_INSUFFICIENT_STOCK ''Invalid product data''
         ''Product name must not be empty and quantity must be greater than 0.'') Return
     else if sourceType = ''hub'' then
       Act (Read_stock Hub sourceId productName) (\<lambda>availableStock.
       attempt (check_available J requestedQuantity availableStock error_out) Return)
     else if sourceType = ''warehouse'' then
       Act (Read_stock Warehouse sourceId productName) (\<lambda>availableStock.
       attempt (check_available J requestedQuantity availableStock error_out) Return)
     else
       attempt (reject J ERROR_INSUFFICIENT_STOCK ''Unknown source type''
         ''Source type must be either 'hub' or 'warehouse'.'') Return)))))))))"

definition realTimeUpdate_steps :: "'j jsoncpp \<Rightarrow> 'j \<Rightarrow> int program" where
  "realTimeUpdate_steps J request =
     attempt (json_string J request (p_source ''type'')) (\<lambda>sourceType.
     attempt (json_int J request (p_source ''location'')) (\<lambda>sourceLocation.
     attempt (json_string J request (p_destination ''type'')) (\<lambda>destinationType.
     attempt (json_int J request (p_destination ''location'')) (\<lambda>destinationLocation.
     attempt (json_string J request (p_product ''name'')) (\<lambda>productName.
     attempt (json_int J request (p_product ''quantity'')) (\<lambda>quantity.
     bind_program
       (if sourceType = ''hub'' then
          attempt (int32_neg quantity) (\<lambda>q. Act (Change_stock Hub sourceLocation productName q) Return)
        else if sourceType = ''warehouse'' then
          attempt (int32_neg quantity) (\<lambda>q. Act (Change_stock Warehouse sourceLocation productName q) Return)
        else Return 0) (\<lambda>result.
     if 0 < result then
       if destinationType = ''hub'' then Act (Change_stock Hub destinationLocation productName quantity) Return
       else if destinationType = ''warehouse'' then
         Act (Change_stock Warehouse destinationLocation productName quantity) Return
       else Return result
     else Return result)))))))"

definition checkLowStockAlert_steps :: "'j jsoncpp \<Rightarrow> 'j \<Rightarrow> string \<Rightarrow> (bool \<times> string) program" where
  "checkLowStockAlert_steps J pedidoJson alert_out =
     attempt (json_path J pedidoJson [''general_info'', ''source'']) (\<lambda>source.
     attempt (json_string J source [''type'']) (\<lambda>sourceType.
     if sourceType \<noteq> ''warehouse'' then Return (False, alert_out)
     else
     attempt (json_string J source [''location'']) (\<lambda>location.
     attempt (stoi location) (\<lambda>warehouseId.
     attempt (json_string J pedidoJson (p_product ''name'')) (\<lambda>productName.
     attempt (json_string J pedidoJson (p_product ''id'')) (\<lambda>productIdStr.
     attempt (stoi productIdStr) (\<lambda>productId.
     Act (Read_stock Warehouse warehouseId productName) (\<lambda>currentStock.
     if currentStock = - 1 then Return (False, alert_out)
     else if currentStock \<le> STOCK_THRESHOLD then
       attempt (generateAlert J ''Low Stock Alert: '' ''Stock levels are <= 20 per cent of max capacity''
                  productId productName) (\<lambda>alert. Return (True, alert))
     else Return (False, alert_out)))))))))"

definition reStock_steps :: "'j jsoncpp \<Rightarrow> 'j \<Rightarrow> string \<Rightarrow> (bool \<times> string) program" where
  "reStock_steps J pedidoJson alert_out =
     attempt (json_path J pedidoJson [''general_info'', ''source'']) (\<lambda>source.
     attempt (json_string J source [''type'']) (\<lambda>sourceType.
     if sourceType \<noteq> ''warehouse'' then Return (False, alert_out)
     else
     attempt (json_string J source [''location'']) (\<lambda>location.
     attempt (stoi location) (\<lambda>warehouseId.
     attempt (json_string J pedidoJson (p_product ''name'')) (\<lambda>productName.
     attempt (json_string J pedidoJson (p_product ''id'')) (\<lambda>productIdStr.
     attempt (stoi productIdStr) (\<lambda>productId.
     Act (Read_stock Warehouse warehouseId productName) (\<lambda>currentStock.
     if currentStock = - 1 then Return (False, alert_out)
     else
     attempt (int32_sub MAX_CAPACITY currentStock) (\<lambda>ammountToRestock.
     if currentStock \<le> RESTOCK_THRESHOLD then
       Act (Change_stock Warehouse warehouseId productName ammountToRestock) (\<lambda>updateResult.
       if updateResult = 1 then
         attempt (generateAlert J ''Re-stock Alert: '' ''Stock replenished to full capacity (1000 units)''
                    productId productName) (\<lambda>alert. Return (True, alert))
       else Return (False, alert_out))
     else Return (True, alert_out))))))))))"

section \<open>Run alone, they are the functions\<close>

text \<open>
  A program and a function on the database yield the same: both throw the same exception, or return
  the same value and leave the same tables.
\<close>

definition yields :: "'j env \<Rightarrow> 'a program \<Rightarrow> server_state \<Rightarrow> ('a \<times> inv_db) result \<Rightarrow> bool" where
  "yields E p S r \<longleftrightarrow> (case run E p S of
     (Inl e, _) \<Rightarrow> r = Inl e
   | (Inr v, S') \<Rightarrow> r = Inr (v, inventory S') \<and> S' = S\<lparr>inventory := inventory S'\<rparr>)"

named_theorems yields_intros \<open>programs and the functions they yield\<close>

lemma yields_Return [yields_intros]: "d = inventory S \<Longrightarrow> yields E (Return v) S (Inr (v, d))"
  by (simp add: yields_def)

lemma yields_attempt [yields_intros]:
  "(\<And>x. m = Inr x \<Longrightarrow> yields E (f x) S (g x)) \<Longrightarrow> yields E (attempt m f) S (rbind m g)"
  by (cases m) (simp_all add: yields_def)

lemma yields_if [yields_intros]:
  "\<lbrakk>c \<Longrightarrow> yields E p S r; \<not> c \<Longrightarrow> yields E p' S r'\<rbrakk> \<Longrightarrow> yields E (if c then p else p') S (if c then r else r')"
  by simp

lemma yields_sum [yields_intros]:
  "\<lbrakk>\<And>e. yields E (f e) S (g e); \<And>x. yields E (f' x) S (g' x)\<rbrakk> \<Longrightarrow>
   yields E (case v of Inl e \<Rightarrow> f e | Inr x \<Rightarrow> f' x) S (case v of Inl e \<Rightarrow> g e | Inr x \<Rightarrow> g' x)"
  by (cases v) simp_all

lemma yields_act:
  assumes "perform E a S = on_inventory F S" and "\<And>n S'. inventory S' = snd (F (inventory S)) \<Longrightarrow> yields E (k n) S' (g n (inventory S'))"
  shows "yields E (Act a k) S (case F (inventory S) of (n, d) \<Rightarrow> g n d)"
proof -
  let ?S = "S\<lparr>inventory := snd (F (inventory S))\<rparr>"
  have "yields E (k (fst (F (inventory S)))) ?S (g (fst (F (inventory S))) (snd (F (inventory S))))"
    using assms(2)[of ?S] by simp
  then show ?thesis
    by (cases "F (inventory S)") (auto simp: yields_def assms(1) on_inventory_def split: prod.splits sum.splits)
qed

lemmas yields_read = yields_act[OF perform.simps(1)]
lemmas yields_change = yields_act[OF perform.simps(2)]

lemma yields_bind:
  assumes "yields E p S r" and "\<And>v S'. yields E (f v) S' (g (v, inventory S'))"
  shows "yields E (bind_program p f) S (rbind r g)"
proof (cases "run E p S")
  case (Pair x S')
  show ?thesis
  proof (cases x)
    case (Inl e)
    with Pair assms(1) show ?thesis by (simp add: yields_def run_bind)
  next
    case (Inr v)
    with Pair assms(1) have r: "r = Inr (v, inventory S')" and S': "S' = S\<lparr>inventory := inventory S'\<rparr>"
      by (simp_all add: yields_def)
    then obtain d where "S' = S\<lparr>inventory := d\<rparr>" by blast
    with assms(2)[of v S'] Pair Inr r show ?thesis by (simp add: yields_def run_bind split: prod.splits sum.splits)
  qed
qed

lemma checkProductStock_yields:
  "yields E (checkProductStock_steps (env_json E) root e) S
     (checkProductStock (env_json E) (env_mysql E) root e (inventory S))"
  unfolding checkProductStock_steps_def checkProductStock_def Let_def
    get_at.simps[of "env_mysql E", symmetric]
  by (intro yields_intros yields_read refl)

lemma checkLowStockAlert_yields:
  "yields E (checkLowStockAlert_steps (env_json E) root e) S
     (checkLowStockAlert (env_json E) (env_mysql E) root e (inventory S))"
  unfolding checkLowStockAlert_steps_def checkLowStockAlert_def Let_def
    get_at.simps[of "env_mysql E", symmetric]
  by (intro yields_intros yields_read refl)

lemma reStock_yields:
  "yields E (reStock_steps (env_json E) root e) S
     (reStock (env_json E) (env_mysql E) root e (inventory S))"
  unfolding reStock_steps_def reStock_def Let_def
    get_at.simps[of "env_mysql E", symmetric] update_at.simps[of "env_mysql E", symmetric]
  by (intro yields_intros yields_read yields_change refl)

lemma realTimeUpdate_yields:
  "yields E (realTimeUpdate_steps (env_json E) root) S
     (realTimeUpdate (env_json E) (env_mysql E) root (inventory S))"
proof -
  have one: "yields E (Act (Change_stock s l p q) Return) S
      (Inr (update_at (env_mysql E) s l p q (inventory S)))" for s l p q S
    by (simp add: yields_def on_inventory_def)
  show ?thesis
    unfolding realTimeUpdate_steps_def realTimeUpdate_def update_at.simps[of "env_mysql E", symmetric]
    by (intro yields_attempt yields_bind yields_if one yields_Return refl)
      (auto simp: yields_Return one[of Hub, simplified] one[of Warehouse, simplified])
qed

section \<open>The stages of a message as programs\<close>

type_synonym handler = "session \<Rightarrow> (flow \<times> session) program"
type_synonym replier = "string \<Rightarrow> flow program"

fun run_steps :: "handler list \<Rightarrow> handler" where
  "run_steps [] s = Return (Next, s)"
| "run_steps (h # hs) s = bind_program (h s) (\<lambda>(f, s). if f = Next then run_steps hs s else Return (f, s))"

section \<open>An order over UDP, call by call\<close>

text \<open>The blocks of \<open>handleUdpClients\<close>.\<close>

definition udp_ack_steps :: "sockaddr_in \<Rightarrow> handler" where
  "udp_ack_steps cli_addr s =
     Act (Transmit (Sendto cli_addr ''UDP Server received your message.'')) (\<lambda>_. Return (Next, s))"

definition udp_store_steps :: "string \<Rightarrow> handler" where
  "udp_store_steps buffer s = Act (Store_order buffer) (\<lambda>_. Return (Next, s))"

definition udp_validate_steps :: "'j jsoncpp \<Rightarrow> sockaddr_in \<Rightarrow> 'j \<Rightarrow> handler" where
  "udp_validate_steps J cli_addr root s =
     attempt (validateOrderLimits J root (errorMessage s)) (\<lambda>(valid, error).
     let s = s\<lparr>isValid := valid, errorMessage := error\<rparr>
     in if \<not> isValid s then
          Act (Transmit (Sendto cli_addr (errorMessage s))) (\<lambda>_. Return (Next, s))
        else Return (Next, s))"

definition udp_stock_steps :: "'j jsoncpp \<Rightarrow> sockaddr_in \<Rightarrow> 'j \<Rightarrow> handler" where
  "udp_stock_steps J cli_addr root s =
     bind_program (checkProductStock_steps J root (errorMessage s)) (\<lambda>(enough, error).
     let s = s\<lparr>productStock := enough, errorMessage := error\<rparr>
     in if \<not> productStock s then
          Act (Transmit (Sendto cli_addr (errorMessage s))) (\<lambda>_. Return (Next, s))
        else Return (Next, s))"

definition udp_transfer_steps :: "'j jsoncpp \<Rightarrow> sockaddr_in \<Rightarrow> 'j \<Rightarrow> handler" where
  "udp_transfer_steps J cli_addr root s =
     (if productStock s \<and> isValid s then
        bind_program (realTimeUpdate_steps J root) (\<lambda>result.
        if 0 < result then
          Act (Transmit (Sendto cli_addr ''Successful order!'')) (\<lambda>_. Return (Next, s))
        else Return (Next, s))
      else Return (Next, s))"

definition udp_low_stock_steps :: "'j jsoncpp \<Rightarrow> sockaddr_in \<Rightarrow> 'j \<Rightarrow> handler" where
  "udp_low_stock_steps J cli_addr root s =
     bind_program (checkLowStockAlert_steps J root (alertOut s)) (\<lambda>(low, alert).
     let s = s\<lparr>lowStock := low, alertOut := alert\<rparr>
     in if lowStock s then
          Act (Transmit (Sendto cli_addr (alertOut s))) (\<lambda>_. Return (Next, s))
        else Return (Next, s))"

definition udp_restock_steps :: "'j jsoncpp \<Rightarrow> sockaddr_in \<Rightarrow> 'j \<Rightarrow> handler" where
  "udp_restock_steps J cli_addr root s =
     bind_program (reStock_steps J root (alertOut s)) (\<lambda>(restocked, alert).
     let s = s\<lparr>reStocked := restocked, alertOut := alert\<rparr>
     in if reStocked s then
          Act (Transmit (Sendto cli_addr (alertOut s))) (\<lambda>_. Return (Next, s))
        else Return (Next, s))"

definition udp_order_steps :: "'j jsoncpp \<Rightarrow> sockaddr_in \<Rightarrow> 'j \<Rightarrow> handler list" where
  "udp_order_steps J cli_addr root =
     [udp_validate_steps J cli_addr root, udp_stock_steps J cli_addr root,
      udp_transfer_steps J cli_addr root, udp_low_stock_steps J cli_addr root,
      udp_restock_steps J cli_addr root]"

definition udp_parse_steps :: "'j jsoncpp \<Rightarrow> sockaddr_in \<Rightarrow> string \<Rightarrow> handler" where
  "udp_parse_steps J cli_addr buffer s =
     attempt (jv_parse J True buffer) (\<lambda>doc. case doc of
       None \<Rightarrow> Return (Skip, s)
     | Some root \<Rightarrow> run_steps (udp_order_steps J cli_addr root) s)"

definition udp_process_steps :: "string \<Rightarrow> handler" where
  "udp_process_steps buffer s =
     (if isValid s \<and> productStock s then
        Act (Process_message buffer ''UDP'' (s_client_id s)) (\<lambda>_. Return (Next, s))
      else Return (Next, s))"

definition udp_message_steps :: "'j jsoncpp \<Rightarrow> sockaddr_in \<Rightarrow> string \<Rightarrow> handler list" where
  "udp_message_steps J cli_addr buffer =
     [udp_ack_steps cli_addr] @
     (if buffer \<noteq> [] \<and> hd buffer = CHR ''{'' then
        [udp_store_steps buffer, udp_parse_steps J cli_addr buffer]
      else []) @
     [udp_process_steps buffer]"

section \<open>An order over TCP, call by call\<close>

text \<open>The same blocks, as \<open>handleTcpClient\<close> writes them out once more.\<close>

definition tcp_ack_steps :: "int \<Rightarrow> handler" where
  "tcp_ack_steps client_sockfd s =
     Act (Transmit (Write client_sockfd ''TCP Server received your message.''))
       (\<lambda>written. Return (if written < 0 then Skip else Next, s))"

definition tcp_store_steps :: "string \<Rightarrow> handler" where
  "tcp_store_steps buffer s = Act (Store_order buffer) (\<lambda>_. Return (Next, s))"

definition tcp_validate_steps :: "'j jsoncpp \<Rightarrow> int \<Rightarrow> 'j \<Rightarrow> handler" where
  "tcp_validate_steps J client_sockfd root s =
     attempt (validateOrderLimits J root (errorMessage s)) (\<lambda>(valid, error).
     let s = s\<lparr>isValid := valid, errorMessage := error\<rparr>
     in if \<not> isValid s then
          Act (Transmit (Write client_sockfd (errorMessage s)))
            (\<lambda>written. Return (if written < 0 then Skip else Next, s))
        else Return (Next, s))"

definition tcp_stock_steps :: "'j jsoncpp \<Rightarrow> int \<Rightarrow> 'j \<Rightarrow> handler" where
  "tcp_stock_steps J client_sockfd root s =
     bind_program (checkProductStock_steps J root (errorMessage s)) (\<lambda>(enough, error).
     let s = s\<lparr>productStock := enough, errorMessage := error\<rparr>
     in if \<not> productStock s then
          Act (Transmit (Write client_sockfd (errorMessage s)))
            (\<lambda>written. Return (if written < 0 then Skip else Next, s))
        else Return (Next, s))"

definition tcp_transfer_steps :: "'j jsoncpp \<Rightarrow> int \<Rightarrow> 'j \<Rightarrow> handler" where
  "tcp_transfer_steps J client_sockfd root s =
     (if productStock s \<and> isValid s then
        bind_program (realTimeUpdate_steps J root) (\<lambda>result.
        if 0 < result then
          Act (Transmit (Write client_sockfd ''Successful order!''))
            (\<lambda>written. Return (if written < 0 then Skip else Next, s))
        else Return (Next, s))
      else Return (Next, s))"

definition tcp_low_stock_steps :: "'j jsoncpp \<Rightarrow> int \<Rightarrow> 'j \<Rightarrow> handler" where
  "tcp_low_stock_steps J client_sockfd root s =
     bind_program (checkLowStockAlert_steps J root (alertOut s)) (\<lambda>(low, alert).
     let s = s\<lparr>lowStock := low, alertOut := alert\<rparr>
     in if lowStock s then
          Act (Transmit (Write client_sockfd (alertOut s)))
            (\<lambda>written. Return (if written < 0 then Skip else Next, s))
        else Return (Next, s))"

definition tcp_restock_steps :: "'j jsoncpp \<Rightarrow> int \<Rightarrow> 'j \<Rightarrow> handler" where
  "tcp_restock_steps J client_sockfd root s =
     bind_program (reStock_steps J root (alertOut s)) (\<lambda>(restocked, alert).
     let s = s\<lparr>reStocked := restocked, alertOut := alert\<rparr>
     in if reStocked s then
          Act (Transmit (Write client_sockfd (alertOut s)))
            (\<lambda>written. Return (if written < 0 then Skip else Next, s))
        else Return (Next, s))"

definition tcp_order_steps :: "'j jsoncpp \<Rightarrow> int \<Rightarrow> 'j \<Rightarrow> handler list" where
  "tcp_order_steps J client_sockfd root =
     [tcp_validate_steps J client_sockfd root, tcp_stock_steps J client_sockfd root,
      tcp_transfer_steps J client_sockfd root, tcp_low_stock_steps J client_sockfd root,
      tcp_restock_steps J client_sockfd root]"

definition tcp_parse_steps :: "'j jsoncpp \<Rightarrow> int \<Rightarrow> string \<Rightarrow> handler" where
  "tcp_parse_steps J client_sockfd buffer s =
     attempt (jv_parse J True buffer) (\<lambda>doc. case doc of
       None \<Rightarrow> Return (Skip, s)
     | Some root \<Rightarrow> run_steps (tcp_order_steps J client_sockfd root) s)"

definition tcp_process_steps :: "string \<Rightarrow> handler" where
  "tcp_process_steps buffer s =
     (if isValid s \<and> productStock s then
        Act (Process_message buffer ''TCP'' (s_client_id s)) (\<lambda>_. Return (Next, s))
      else Return (Next, s))"

definition tcp_message_steps :: "'j jsoncpp \<Rightarrow> int \<Rightarrow> string \<Rightarrow> handler list" where
  "tcp_message_steps J client_sockfd buffer =
     [tcp_ack_steps client_sockfd] @
     (if buffer \<noteq> [] \<and> hd buffer = CHR ''{'' then
        [tcp_store_steps buffer, tcp_parse_steps J client_sockfd buffer]
      else []) @
     [tcp_process_steps buffer]"

section \<open>What the two copies have in common\<close>

text \<open>For the proofs only, as in \<open>Server_Handlers\<close>: the programs over any way to reply.\<close>

definition udp_reply_steps :: "sockaddr_in \<Rightarrow> replier" where
  "udp_reply_steps cli_addr message = Act (Transmit (Sendto cli_addr message)) (\<lambda>_. Return Next)"

definition tcp_reply_steps :: "int \<Rightarrow> replier" where
  "tcp_reply_steps client_sockfd message =
     Act (Transmit (Write client_sockfd message)) (\<lambda>written. Return (if written < 0 then Skip else Next))"

definition reply_steps :: "replier \<Rightarrow> string \<Rightarrow> handler" where
  "reply_steps reply message s = bind_program (reply message) (\<lambda>f. Return (f, s))"

definition store_steps :: "string \<Rightarrow> handler" where
  "store_steps buffer s = Act (Store_order buffer) (\<lambda>_. Return (Next, s))"

definition validate_steps :: "'j jsoncpp \<Rightarrow> replier \<Rightarrow> 'j \<Rightarrow> handler" where
  "validate_steps J reply root s =
     attempt (validateOrderLimits J root (errorMessage s)) (\<lambda>(valid, error).
     let s = s\<lparr>isValid := valid, errorMessage := error\<rparr>
     in if valid then Return (Next, s) else reply_steps reply (errorMessage s) s)"

definition stock_steps :: "'j jsoncpp \<Rightarrow> replier \<Rightarrow> 'j \<Rightarrow> handler" where
  "stock_steps J reply root s =
     bind_program (checkProductStock_steps J root (errorMessage s)) (\<lambda>(enough, error).
     let s = s\<lparr>productStock := enough, errorMessage := error\<rparr>
     in if enough then Return (Next, s) else reply_steps reply (errorMessage s) s)"

definition transfer_steps :: "'j jsoncpp \<Rightarrow> replier \<Rightarrow> 'j \<Rightarrow> handler" where
  "transfer_steps J reply root s =
     (if productStock s \<and> isValid s then
        bind_program (realTimeUpdate_steps J root) (\<lambda>result.
        if 0 < result then reply_steps reply ''Successful order!'' s else Return (Next, s))
      else Return (Next, s))"

definition low_stock_steps :: "'j jsoncpp \<Rightarrow> replier \<Rightarrow> 'j \<Rightarrow> handler" where
  "low_stock_steps J reply root s =
     bind_program (checkLowStockAlert_steps J root (alertOut s)) (\<lambda>(low, alert).
     let s = s\<lparr>lowStock := low, alertOut := alert\<rparr>
     in if low then reply_steps reply (alertOut s) s else Return (Next, s))"

definition restock_steps :: "'j jsoncpp \<Rightarrow> replier \<Rightarrow> 'j \<Rightarrow> handler" where
  "restock_steps J reply root s =
     bind_program (reStock_steps J root (alertOut s)) (\<lambda>(restocked, alert).
     let s = s\<lparr>reStocked := restocked, alertOut := alert\<rparr>
     in if restocked then reply_steps reply (alertOut s) s else Return (Next, s))"

definition order_steps :: "'j jsoncpp \<Rightarrow> replier \<Rightarrow> 'j \<Rightarrow> handler list" where
  "order_steps J reply root =
     [validate_steps J reply root, stock_steps J reply root, transfer_steps J reply root,
      low_stock_steps J reply root, restock_steps J reply root]"

definition parse_steps :: "'j jsoncpp \<Rightarrow> replier \<Rightarrow> string \<Rightarrow> handler" where
  "parse_steps J reply buffer s =
     attempt (jv_parse J True buffer) (\<lambda>doc. case doc of
       None \<Rightarrow> Return (Skip, s)
     | Some root \<Rightarrow> run_steps (order_steps J reply root) s)"

definition process_steps :: "string \<Rightarrow> string \<Rightarrow> handler" where
  "process_steps buffer proto s =
     (if isValid s \<and> productStock s then Act (Process_message buffer proto (s_client_id s)) (\<lambda>_. Return (Next, s))
      else Return (Next, s))"

definition message_steps :: "'j jsoncpp \<Rightarrow> replier \<Rightarrow> string \<Rightarrow> string \<Rightarrow> string \<Rightarrow> handler list" where
  "message_steps J reply response proto buffer =
     [reply_steps reply response] @
     (if buffer \<noteq> [] \<and> hd buffer = CHR ''{'' then [store_steps buffer, parse_steps J reply buffer] else []) @
     [process_steps buffer proto]"

lemma bind_cong: "(\<And>v. f v = g v) \<Longrightarrow> bind_program p f = bind_program p g"
  by (rule arg_cong[of f g], rule ext)

lemma attempt_cong: "(\<And>v. f v = g v) \<Longrightarrow> attempt m f = attempt m g"
  by (rule arg_cong[of f g], rule ext)

named_theorems program_copies \<open>the programs of each protocol as instances of the common ones\<close>

lemma udp_ack_steps_copy [program_copies]: "udp_ack_steps a = reply_steps (udp_reply_steps a) ''UDP Server received your message.''"
  by (rule ext) (simp add: udp_ack_steps_def reply_steps_def udp_reply_steps_def reply_steps_def)

lemma udp_store_steps_copy [program_copies]: "udp_store_steps buffer = store_steps buffer"
  by (rule ext) (simp add: udp_store_steps_def store_steps_def)

lemma udp_validate_steps_copy [program_copies]: "udp_validate_steps J a root = validate_steps J (udp_reply_steps a) root"
  by (rule ext) (auto simp: udp_validate_steps_def validate_steps_def udp_reply_steps_def reply_steps_def Let_def intro!: bind_cong attempt_cong split: prod.split)

lemma udp_stock_steps_copy [program_copies]: "udp_stock_steps J a root = stock_steps J (udp_reply_steps a) root"
  by (rule ext) (auto simp: udp_stock_steps_def stock_steps_def udp_reply_steps_def reply_steps_def Let_def intro!: bind_cong attempt_cong split: prod.split)

lemma udp_transfer_steps_copy [program_copies]: "udp_transfer_steps J a root = transfer_steps J (udp_reply_steps a) root"
  by (rule ext) (auto simp: udp_transfer_steps_def transfer_steps_def udp_reply_steps_def reply_steps_def Let_def intro!: bind_cong attempt_cong split: prod.split)

lemma udp_low_stock_steps_copy [program_copies]: "udp_low_stock_steps J a root = low_stock_steps J (udp_reply_steps a) root"
  by (rule ext) (auto simp: udp_low_stock_steps_def low_stock_steps_def udp_reply_steps_def reply_steps_def Let_def intro!: bind_cong attempt_cong split: prod.split)

lemma udp_restock_steps_copy [program_copies]: "udp_restock_steps J a root = restock_steps J (udp_reply_steps a) root"
  by (rule ext) (auto simp: udp_restock_steps_def restock_steps_def udp_reply_steps_def reply_steps_def Let_def intro!: bind_cong attempt_cong split: prod.split)

lemma udp_process_steps_copy [program_copies]: "udp_process_steps buffer = process_steps buffer ''UDP''"
  by (rule ext) (simp add: udp_process_steps_def process_steps_def)

lemma udp_order_steps_copy [program_copies]: "udp_order_steps J a root = order_steps J (udp_reply_steps a) root"
  by (simp add: udp_order_steps_def order_steps_def program_copies)

lemma udp_parse_steps_copy [program_copies]: "udp_parse_steps J a buffer = parse_steps J (udp_reply_steps a) buffer"
  by (rule ext) (simp only: udp_parse_steps_def parse_steps_def udp_order_steps_copy)

lemma udp_message_steps_copy [program_copies]:
  "udp_message_steps J a buffer =
   message_steps J (udp_reply_steps a) ''UDP Server received your message.'' ''UDP'' buffer"
  by (simp add: udp_message_steps_def message_steps_def program_copies)

lemma tcp_ack_steps_copy [program_copies]: "tcp_ack_steps fd = reply_steps (tcp_reply_steps fd) ''TCP Server received your message.''"
  by (rule ext) (simp add: tcp_ack_steps_def reply_steps_def tcp_reply_steps_def reply_steps_def)

lemma tcp_store_steps_copy [program_copies]: "tcp_store_steps buffer = store_steps buffer"
  by (rule ext) (simp add: tcp_store_steps_def store_steps_def)

lemma tcp_validate_steps_copy [program_copies]: "tcp_validate_steps J fd root = validate_steps J (tcp_reply_steps fd) root"
  by (rule ext) (auto simp: tcp_validate_steps_def validate_steps_def tcp_reply_steps_def reply_steps_def Let_def intro!: bind_cong attempt_cong split: prod.split)

lemma tcp_stock_steps_copy [program_copies]: "tcp_stock_steps J fd root = stock_steps J (tcp_reply_steps fd) root"
  by (rule ext) (auto simp: tcp_stock_steps_def stock_steps_def tcp_reply_steps_def reply_steps_def Let_def intro!: bind_cong attempt_cong split: prod.split)

lemma tcp_transfer_steps_copy [program_copies]: "tcp_transfer_steps J fd root = transfer_steps J (tcp_reply_steps fd) root"
  by (rule ext) (auto simp: tcp_transfer_steps_def transfer_steps_def tcp_reply_steps_def reply_steps_def Let_def intro!: bind_cong attempt_cong split: prod.split)

lemma tcp_low_stock_steps_copy [program_copies]: "tcp_low_stock_steps J fd root = low_stock_steps J (tcp_reply_steps fd) root"
  by (rule ext) (auto simp: tcp_low_stock_steps_def low_stock_steps_def tcp_reply_steps_def reply_steps_def Let_def intro!: bind_cong attempt_cong split: prod.split)

lemma tcp_restock_steps_copy [program_copies]: "tcp_restock_steps J fd root = restock_steps J (tcp_reply_steps fd) root"
  by (rule ext) (auto simp: tcp_restock_steps_def restock_steps_def tcp_reply_steps_def reply_steps_def Let_def intro!: bind_cong attempt_cong split: prod.split)

lemma tcp_process_steps_copy [program_copies]: "tcp_process_steps buffer = process_steps buffer ''TCP''"
  by (rule ext) (simp add: tcp_process_steps_def process_steps_def)

lemma tcp_order_steps_copy [program_copies]: "tcp_order_steps J fd root = order_steps J (tcp_reply_steps fd) root"
  by (simp add: tcp_order_steps_def order_steps_def program_copies)

lemma tcp_parse_steps_copy [program_copies]: "tcp_parse_steps J fd buffer = parse_steps J (tcp_reply_steps fd) buffer"
  by (rule ext) (simp only: tcp_parse_steps_def parse_steps_def tcp_order_steps_copy)

lemma tcp_message_steps_copy [program_copies]:
  "tcp_message_steps J fd buffer =
   message_steps J (tcp_reply_steps fd) ''TCP Server received your message.'' ''TCP'' buffer"
  by (simp add: tcp_message_steps_def message_steps_def program_copies)

section \<open>Run alone, the stages are the stages of a pass\<close>

text \<open>
  The outcome of a program against that of a stage: the same exception, or the same way to end with
  the same session and the same state of the server.
\<close>

definition agrees :: "(flow \<times> session) result \<times> server_state \<Rightarrow> flow \<times> thread \<Rightarrow> bool" where
  "agrees x y \<longleftrightarrow> (case x of
     (Inl e, _) \<Rightarrow> fst y = Throw e
   | (Inr (f, s), S) \<Rightarrow> y = (f, s, S) \<and> (f = Next \<or> f = Skip))"

definition implements :: "'j env \<Rightarrow> handler \<Rightarrow> (thread \<Rightarrow> flow \<times> thread) \<Rightarrow> bool" where
  "implements E h stage \<longleftrightarrow> (\<forall>s S. agrees (run E (h s) S) (stage (s, S)))"

definition sends :: "'j env \<Rightarrow> replier \<Rightarrow> reply \<Rightarrow> bool" where
  "sends E replier reply \<longleftrightarrow> (\<forall>m S. \<exists>f S'. run E (replier m) S = (Inr f, S') \<and> reply m S = (f, S')
     \<and> (f = Next \<or> f = Skip))"

named_theorems implements_intros \<open>programs that implement a stage\<close>

lemma sends_udp: "sends E (udp_reply_steps a) (udp_reply E a)"
  by (auto simp: sends_def udp_reply_steps_def udp_reply_def split: prod.split)

lemma sends_tcp: "sends E (tcp_reply_steps fd) (tcp_reply E fd)"
  by (auto simp: sends_def tcp_reply_steps_def tcp_reply_def Let_def split: prod.split)

lemma agrees_reply: "sends E replier reply \<Longrightarrow> agrees (run E (reply_steps replier m s) S) (reply_with reply m (s, S))"
  unfolding sends_def
  by (drule spec[of _ m], drule spec[of _ S]) (auto simp: agrees_def reply_steps_def reply_with_def run_bind)

lemma agrees_Return: "f = Next \<or> f = Skip \<Longrightarrow> agrees (run E (Return (f, s)) S) (f, s, S)"
  by (simp add: agrees_def)

lemma yields_cases:
  assumes "yields E p S r"
  obtains e S' where "run E p S = (Inl e, S')" "r = Inl e"
  | v d where "run E p S = (Inr v, S\<lparr>inventory := d\<rparr>)" "r = Inr (v, d)"
proof (cases "run E p S")
  case (Pair x S')
  show ?thesis
  proof (cases x)
    case (Inl e)
    with Pair assms show ?thesis by (intro that(1)[of e S']) (simp_all add: yields_def)
  next
    case (Inr v)
    with Pair assms have "r = Inr (v, inventory S')" "S' = S\<lparr>inventory := inventory S'\<rparr>"
      by (simp_all add: yields_def)
    with Pair Inr show ?thesis by (intro that(2)[of v "inventory S'"]) simp_all
  qed
qed

lemma implementsI: "(\<And>s S. agrees (run E (h s) S) (stage (s, S))) \<Longrightarrow> implements E h stage"
  unfolding implements_def by blast

lemma implements_reply [implements_intros]:
  "sends E replier reply \<Longrightarrow> implements E (reply_steps replier m) (reply_with reply m)"
  by (intro implementsI agrees_reply)

lemma implements_store [implements_intros]: "implements E (store_steps buffer) (store_stage E buffer)"
  by (rule implementsI) (auto simp: store_steps_def store_stage_def agrees_def Let_def split: prod.split sum.split)

lemma implements_process [implements_intros]: "implements E (process_steps buffer proto) (process_stage E buffer proto)"
  by (rule implementsI) (auto simp: process_steps_def process_stage_def agrees_def split: sum.split)

lemma implements_validate [implements_intros]:
  assumes "sends E replier reply"
  shows "implements E (validate_steps (env_json E) replier root) (validate_stage E reply root)"
proof (rule implementsI)
  fix s S
  show "agrees (run E (validate_steps (env_json E) replier root s) S) (validate_stage E reply root (s, S))"
  proof (cases "validateOrderLimits (env_json E) root (errorMessage s)")
    case (Inl e)
    then show ?thesis by (simp add: validate_steps_def validate_stage_def agrees_def)
  next
    case (Inr v)
    with assms show ?thesis
      by (cases v) (simp add: validate_steps_def validate_stage_def Let_def agrees_reply agrees_Return
          del: run.simps)
  qed
qed

text \<open>The four stages that use the database: a program that yields a function, and what is done with its value.\<close>

lemma agrees_database:
  assumes "yields E p S r" and "\<And>v S. agrees (run E (k v) S) (g v S)"
    and "y = (case r of Inl e \<Rightarrow> (Throw e, s, S) | Inr (v, d) \<Rightarrow> g v (S\<lparr>inventory := d\<rparr>))"
  shows "agrees (run E (bind_program p k) S) y"
  using assms(1)
proof (cases rule: yields_cases)
  case (1 e S')
  with assms(3) show ?thesis by (simp add: run_bind agrees_def)
next
  case (2 v d)
  with assms(2)[of v "S\<lparr>inventory := d\<rparr>"] assms(3) show ?thesis by (simp add: run_bind)
qed

lemma agrees_Next: "agrees (Inr (Next, s), S) (Next, s, S)"
  by (simp add: agrees_def)

lemma implements_stock [implements_intros]:
  assumes "sends E replier reply"
  shows "implements E (stock_steps (env_json E) replier root) (stock_stage E reply root)"
  unfolding stock_steps_def
  by (rule implementsI, rule agrees_database[OF checkProductStock_yields, rotated])
    (auto simp: stock_stage_def Let_def agrees_Next agrees_reply[OF assms] split: sum.split prod.split)

lemma implements_transfer [implements_intros]:
  assumes "sends E replier reply"
  shows "implements E (transfer_steps (env_json E) replier root) (transfer_stage E reply root)"
proof (rule implementsI)
  fix s S
  show "agrees (run E (transfer_steps (env_json E) replier root s) S) (transfer_stage E reply root (s, S))"
  proof (cases "productStock s \<and> isValid s")
    case True
    show ?thesis
      unfolding transfer_steps_def if_P[OF True]
      by (rule agrees_database[OF realTimeUpdate_yields, rotated])
        (auto simp: transfer_stage_def Let_def True agrees_Next agrees_reply[OF assms] split: sum.split prod.split)
  qed (auto simp: transfer_steps_def transfer_stage_def agrees_Next)
qed

lemma implements_low_stock [implements_intros]:
  assumes "sends E replier reply"
  shows "implements E (low_stock_steps (env_json E) replier root) (low_stock_stage E reply root)"
  unfolding low_stock_steps_def
  by (rule implementsI, rule agrees_database[OF checkLowStockAlert_yields, rotated])
    (auto simp: low_stock_stage_def Let_def agrees_Next agrees_reply[OF assms] split: sum.split prod.split)

lemma implements_restock [implements_intros]:
  assumes "sends E replier reply"
  shows "implements E (restock_steps (env_json E) replier root) (restock_stage E reply root)"
  unfolding restock_steps_def
  by (rule implementsI, rule agrees_database[OF reStock_yields, rotated])
    (auto simp: restock_stage_def Let_def agrees_Next agrees_reply[OF assms] split: sum.split prod.split)

lemma implements_run: "list_all2 (implements E) hs stages \<Longrightarrow> implements E (run_steps hs) (run_stages stages)"
proof (induction rule: list_all2_induct)
  case Nil
  show ?case by (rule implementsI) (simp add: agrees_def)
next
  case (Cons h hs stage stages)
  show ?case
  proof (rule implementsI)
    fix s S
    have first: "agrees (run E (h s) S) (stage (s, S))" using Cons(1) by (simp add: implements_def)
    show "agrees (run E (run_steps (h # hs) s) S) (run_stages (stage # stages) (s, S))"
    proof (cases "run E (h s) S")
      case (Pair x S1)
      show ?thesis
      proof (cases x)
        case (Inl e)
        with Pair first show ?thesis by (auto simp: agrees_def run_bind split: prod.splits)
      next
        case (Inr v)
        obtain f s1 where v: "v = (f, s1)" by (cases v)
        have st: "stage (s, S) = (f, s1, S1)" "f = Next \<or> f = Skip"
          using first Pair Inr v by (simp_all add: agrees_def)
        have rest: "agrees (run E (run_steps hs s1) S1) (run_stages stages (s1, S1))"
          using Cons(3) by (simp add: implements_def)
        from st(2) show ?thesis
          by (elim disjE) (simp_all add: Pair Inr v st(1) run_bind rest, simp add: agrees_def)
      qed
    qed
  qed
qed

lemma implements_order:
  "sends E replier reply \<Longrightarrow>
   implements E (run_steps (order_steps (env_json E) replier root)) (run_stages (order_stages E reply root))"
  unfolding order_steps_def order_stages_def
  by (rule implements_run) (simp add: implements_intros)

lemma implements_parse [implements_intros]:
  assumes "sends E replier reply"
  shows "implements E (parse_steps (env_json E) replier buffer) (parse_stage E reply buffer)"
proof (rule implementsI)
  fix s S
  show "agrees (run E (parse_steps (env_json E) replier buffer s) S) (parse_stage E reply buffer (s, S))"
    using implements_order[OF assms]
    by (auto simp: parse_steps_def parse_stage_def run_attempt implements_def agrees_def[of _ "(Throw e, x)" for e x]
        agrees_Return[of Skip, simplified] split: sum.split option.split)
qed

lemma implements_message:
  "sends E replier reply \<Longrightarrow>
   implements E (run_steps (message_steps (env_json E) replier response proto buffer))
     (run_stages (message_stages E reply response proto buffer))"
  unfolding message_steps_def message_stages_def
  by (rule implements_run) (simp add: implements_intros)

text \<open>Sequences of handlers can be cut anywhere, and the handling of an order is one sequence.\<close>

lemma run_steps_append:
  "run_steps (hs @ rest) s =
     bind_program (run_steps hs s) (\<lambda>(f, s). if f = Next then run_steps rest s else Return (f, s))"
proof (induction hs arbitrary: s)
  case (Cons h hs)
  have "(\<lambda>v. bind_program (case v of (f, s) \<Rightarrow> if f = Next then run_steps hs s else Return (f, s))
        (\<lambda>(f, s). if f = Next then run_steps rest s else Return (f, s))) =
      (\<lambda>(f, s). if f = Next then run_steps (hs @ rest) s else Return (f, s))"
    by (auto simp: Cons.IH)
  then show ?case by (simp add: bind_assoc)
qed simp

lemma message_steps_flat:
  assumes "buffer \<noteq> []" and "hd buffer = CHR ''{''" and "jv_parse J True buffer = Inr (Some root)"
  shows "run_steps (message_steps J replier response proto buffer) s =
    run_steps ([reply_steps replier response, store_steps buffer] @ order_steps J replier root @ [process_steps buffer proto]) s"
proof -
  have "parse_steps J replier buffer = run_steps (order_steps J replier root)"
    using assms(3) by (intro ext) (simp add: parse_steps_def)
  then have nested: "run_steps ([parse_steps J replier buffer] @ [process_steps buffer proto]) =
      run_steps (order_steps J replier root @ [process_steps buffer proto])"
    by (intro ext) (simp add: run_steps_append)
  have "message_steps J replier response proto buffer = [reply_steps replier response, store_steps buffer] @
      ([parse_steps J replier buffer] @ [process_steps buffer proto])"
    using assms(1,2) by (simp add: message_steps_def)
  then show ?thesis
    by (simp only: run_steps_append[of "[reply_steps replier response, store_steps buffer]"] nested)
qed

text \<open>
  A message that is handled without interruption, call by call, has the effect of the pass of
  \<open>Server_Handlers\<close>, over UDP and over TCP: the same exception, or the same way to end, the same
  variables of the thread and the same state of the server.
\<close>

lemma uninterrupted_message_is_pass:
  "agrees (run E (run_steps (udp_message_steps (env_json E) cli buffer) s) S)
      (run_stages (udp_message_stages E cli buffer) (s, S))
   \<and> agrees (run E (run_steps (tcp_message_steps (env_json E) fd buffer) s) S)
      (run_stages (tcp_message_stages E fd buffer) (s, S))"
  using implements_message[OF sends_udp] implements_message[OF sends_tcp]
  unfolding implements_def udp_message_steps_copy tcp_message_steps_copy udp_message_copy tcp_message_copy
  by blast

end
