(* ===== verification/Server_Start.thy ===== *)
theory Server_Start
  imports Server_Handlers
begin

text \<open>
  \<open>main.cpp\<close> and the start of \<open>server.cpp\<close>: the port from the environment, the two sockets, and
  the one instance of the server.  What the operating system answers is an argument.
\<close>

section \<open>The port\<close>

definition PORT :: int where "PORT = 8080"

text \<open>\<open>port_env\<close> is the environment variable \<open>SERVER_PORT\<close>; any exception of the conversion is caught.\<close>

definition main_port :: "string option \<Rightarrow> int" where
  "main_port port_env = (case port_env of None \<Rightarrow> PORT
     | Some s \<Rightarrow> (case stoi s of Inl _ \<Rightarrow> PORT | Inr n \<Rightarrow> n))"

text \<open>\<open>htons((uint16_t)port)\<close> keeps the low 16 bits.\<close>

definition bound_port :: "int \<Rightarrow> 16 word" where
  "bound_port port = word_of_int port"

section \<open>The sockets\<close>

text \<open>The results of the system calls, in the order of the calls; 0 and more is success for \<open>socket\<close> and
  \<open>listen\<close>, 0 for the others.\<close>

record udp_os =
  udp_socket_call :: int
  udp_bind_call :: int

record tcp_os =
  tcp_socket_call :: int
  tcp_setsockopt_call :: int
  tcp_bind_call :: int
  tcp_listen_call :: int

text \<open>
  A configured socket: its descriptor and the port it is bound to.  \<open>None\<close> is \<open>exit(1)\<close>.  The TCP
  socket that failed is closed.
\<close>

definition socketUdpConfig :: "udp_os \<Rightarrow> int \<Rightarrow> (int \<times> 16 word) option" where
  "socketUdpConfig os port =
     (if udp_socket_call os < 0 then None
      else if udp_bind_call os < 0 then None
      else Some (udp_socket_call os, bound_port port))"

definition socketTcpConfig :: "tcp_os \<Rightarrow> int \<Rightarrow> (int \<times> 16 word) option" where
  "socketTcpConfig os port =
     (if tcp_socket_call os < 0 then None
      else if tcp_setsockopt_call os \<noteq> 0 then None
      else if tcp_bind_call os \<noteq> 0 then Some (- 1, bound_port port)
      else if tcp_listen_call os < 0 then Some (- 1, bound_port port)
      else Some (tcp_socket_call os, bound_port port))"

section \<open>The instance\<close>

record server_object =
  so_port :: int
  socketUdpFd :: int
  socketTcpFd :: int
  running :: bool

text \<open>The constructor; \<open>running\<close> is set by \<open>startServer\<close>.\<close>

definition new_server :: "udp_os \<Rightarrow> tcp_os \<Rightarrow> int \<Rightarrow> server_object option" where
  "new_server uos tos port =
     (case socketUdpConfig uos port of None \<Rightarrow> None
      | Some (ufd, _) \<Rightarrow> (case socketTcpConfig tos port of None \<Rightarrow> None
         | Some (tfd, _) \<Rightarrow> Some \<lparr>so_port = port, socketUdpFd = ufd, socketTcpFd = tfd, running = False\<rparr>))"

text \<open>The static pointer \<open>instance\<close> before the call, and after it; \<open>None\<close>: the process exited.\<close>

definition getInstance ::
  "udp_os \<Rightarrow> tcp_os \<Rightarrow> int \<Rightarrow> server_object option \<Rightarrow> (server_object \<times> server_object option) option" where
  "getInstance uos tos port inst =
     (case inst of Some server \<Rightarrow> Some (server, inst)
      | None \<Rightarrow> (case new_server uos tos port of None \<Rightarrow> None | Some server \<Rightarrow> Some (server, Some server)))"

definition startServer :: "server_object \<Rightarrow> server_object" where
  "startServer server = server\<lparr>running := True\<rparr>"

text \<open>Both close the two descriptors; \<open>stopServer\<close> also ends the loops.\<close>

definition stopServer :: "server_object \<Rightarrow> server_object \<times> net_event list" where
  "stopServer server = (server\<lparr>running := False\<rparr>, [Close (socketUdpFd server), Close (socketTcpFd server)])"

definition closeServer :: "server_object option \<Rightarrow> server_object option \<times> net_event list" where
  "closeServer inst = (case inst of None \<Rightarrow> (None, [])
     | Some server \<Rightarrow> (None, [Close (socketUdpFd server), Close (socketTcpFd server)]))"

section \<open>Properties\<close>

lemma main_port_default: "main_port port_env = PORT \<or> (\<exists>s. port_env = Some s \<and> stoi s = Inr (main_port port_env))"
  by (auto simp: main_port_def split: option.splits sum.splits)

lemma main_port_to_string: "in_int32 n \<Longrightarrow> main_port (Some (to_string n)) = n"
  by (simp add: main_port_def stoi_to_string)

text \<open>
  The start tolerates a TCP socket that cannot be bound or listened on: the server comes up with
  the descriptor -1 for TCP, and only a failure of the UDP socket, or of creating or configuring the
  TCP socket, ends the process.  A second call returns the first server, whatever the port.
\<close>

theorem getInstance_outcome:
  shows "(getInstance uos tos port None = None \<longleftrightarrow>
      udp_socket_call uos < 0 \<or> udp_bind_call uos < 0 \<or> tcp_socket_call tos < 0 \<or> tcp_setsockopt_call tos \<noteq> 0)
    \<and> (getInstance uos tos port None = Some (server, inst) \<longrightarrow>
        inst = Some server \<and> so_port server = port \<and> socketUdpFd server = udp_socket_call uos
      \<and> socketTcpFd server = (if tcp_bind_call tos = 0 \<and> 0 \<le> tcp_listen_call tos then tcp_socket_call tos else - 1)
      \<and> getInstance uos' tos' port' inst = Some (server, inst))"
  by (auto simp: getInstance_def new_server_def socketUdpConfig_def socketTcpConfig_def)

theorem getInstance_outcome_witness:
  "\<exists>server. getInstance \<lparr>udp_socket_call = 3, udp_bind_call = 0\<rparr>
     \<lparr>tcp_socket_call = 4, tcp_setsockopt_call = 0, tcp_bind_call = - 1, tcp_listen_call = 0\<rparr> 8080 None
     = Some (server, Some server) \<and> socketTcpFd server = - 1"
proof -
  let ?u = "\<lparr>udp_socket_call = 3, udp_bind_call = 0\<rparr>"
  let ?t = "\<lparr>tcp_socket_call = 4, tcp_setsockopt_call = 0, tcp_bind_call = - 1, tcp_listen_call = 0\<rparr>"
  obtain server inst where run: "getInstance ?u ?t 8080 None = Some (server, inst)"
    using getInstance_outcome[of ?u ?t 8080] by (cases "getInstance ?u ?t 8080 None") auto
  with getInstance_outcome[of ?u ?t 8080 server inst] show ?thesis by auto
qed

end
