(* ===== verification/Server_System.thy ===== *)
theory Server_System
  imports Order_Programs Server_Start
begin

text \<open>
  The running server: the UDP thread, one thread per TCP connection, the clean-up thread and the
  clock, as a step relation.  A step is one action of one thread: it receives a message, calls the
  database once, sends one message, stores an order, or registers a client.  The threads interleave
  in any order.  The tables of clients are not locked in the source: a data race on them ends a run.
  The invariants hold in every reachable state.
\<close>

section \<open>States and steps\<close>

text \<open>
  A thread waits for input or works on a message.  A TCP thread before its first read has no process
  id yet.  \<open>leaving\<close> holds the process ids of the TCP threads that have closed their descriptor and not
  yet erased their client.  \<open>crashed\<close> holds the exception that terminated the process, or the data race
  after which its behaviour is undefined.
\<close>

datatype activity =
    Waiting session
  | Working "(flow \<times> session) program"

record tcp_thread =
  t_addr :: sockaddr_in
  t_pid :: "int option"
  t_activity :: activity

record system =
  udp :: activity
  tcp :: "int \<Rightarrow> tcp_thread option"
  leaving :: "int list"
  server :: server_state
  clock :: int
  last_cleanup :: int
  crashed :: "cpp_exn option"

definition CHRONO_TIMEOUT :: int where "CHRONO_TIMEOUT = 60"
definition CHRONO_TIMEOUT_SECONDS :: int where "CHRONO_TIMEOUT_SECONDS = 30"

definition initial :: "inv_db \<Rightarrow> int \<Rightarrow> system" where
  "initial d now = \<lparr>udp = Waiting new_session, tcp = (\<lambda>_. None), leaving = [],
     server = \<lparr>tables = empty_registry, orders = empty_store, inventory = d, sent = [], send_calls = 0\<rparr>,
     clock = now, last_cleanup = now, crashed = None\<rparr>"

text \<open>
  \<open>main\<close>: the instance is created, and the threads are started; the UDP thread connects to the database
  before its loop.  \<open>None\<close>: the process exited; the threads run from \<open>initial\<close> otherwise, unless the
  connection throws.
\<close>

definition server_main ::
  "string option \<Rightarrow> udp_os \<Rightarrow> tcp_os \<Rightarrow> string option \<Rightarrow> (int \<Rightarrow> bool) \<Rightarrow> inv_db \<Rightarrow> int \<Rightarrow> system option" where
  "server_main port_env uos tos db_port accepts d now =
     (case getInstance uos tos (main_port port_env) None of
        None \<Rightarrow> None
      | Some _ \<Rightarrow> (case connectToDb db_port accepts of
            Inl e \<Rightarrow> Some ((initial d now)\<lparr>crashed := Some e\<rparr>)
          | Inr _ \<Rightarrow> Some (initial d now)))"

text \<open>What one thread does: the next activity of the thread, or an exception, and the server's state.\<close>

fun advance :: "'j env \<Rightarrow> (flow \<times> session) program \<Rightarrow> server_state \<Rightarrow> activity result \<times> server_state" where
  "advance E (Return (f, s)) S = (Inr (Waiting s), S)"
| "advance E (Raise e) S = (Inl e, S)"
| "advance E (Act a k) S =
     (case perform E a S of (Inl e, S') \<Rightarrow> (Inl e, S') | (Inr n, S') \<Rightarrow> (Inr (Working (k n)), S'))"

definition udp_receive :: "'j env \<Rightarrow> int \<Rightarrow> udp_input \<Rightarrow> session \<Rightarrow> server_state \<Rightarrow> activity result \<times> server_state" where
  "udp_receive E now input s S = (case input of
     Recvfrom_error \<Rightarrow> (Inr (Waiting s), S)
   | Datagram bytes cli_addr \<Rightarrow>
       let buffer = recv_buffer BUFFER_SIZE_SERVER bytes; client_pid = atoi buffer
       in if map_of (clientMapUdp (tables S)) client_pid = None \<and> client_pid \<noteq> 0 then
            case registerClient client_pid ''UDP'' cli_addr 0 now (tables S) of
              Inl e \<Rightarrow> (Inl e, S)
            | Inr (cid, R) \<Rightarrow> (Inr (Waiting (s\<lparr>s_client_id := cid\<rparr>)), S\<lparr>tables := R\<rparr>)
          else (Inr (Working (run_steps (udp_message_steps (env_json E) cli_addr buffer) s)), S))"

lemmas udp_receive_unfold = udp_receive_def[unfolded udp_message_steps_copy]

text \<open>A read of a TCP thread; the connection is gone when it has ended.\<close>

definition tcp_receive ::
  "'j env \<Rightarrow> int \<Rightarrow> int \<Rightarrow> tcp_input \<Rightarrow> tcp_thread \<Rightarrow> session \<Rightarrow> server_state \<Rightarrow> tcp_thread option result \<times> server_state" where
  "tcp_receive E now fd input t s S =
     (case t_pid t of
        None \<Rightarrow>
          (case tcp_first E now fd (t_addr t) input (s, S) of
             (Throw e, _, _, S') \<Rightarrow> (Inl e, S')
           | (Leave, _, _, S') \<Rightarrow> (Inr None, S')
           | (_, client_pid, s', S') \<Rightarrow> (Inr (Some (t\<lparr>t_pid := Some client_pid, t_activity := Waiting s'\<rparr>)), S'))
      | Some client_pid \<Rightarrow>
          if bytes_read input = [] then (Inr None, S\<lparr>sent := sent S @ [Close fd]\<rparr>)
          else (Inr (Some (t\<lparr>t_activity := Working (run_steps (tcp_message_steps (env_json E) fd
                  (recv_buffer BUFFER_SIZE_SERVER (bytes_read input))) s)\<rparr>)), S))"

lemmas tcp_receive_unfold = tcp_receive_def[unfolded tcp_message_steps_copy]

text \<open>
  A thread that has announced a process id does not end with the \<open>close\<close>: it erases its client
  afterwards, when the descriptor may already belong to another connection.
\<close>

definition departs :: "tcp_thread \<Rightarrow> tcp_input \<Rightarrow> system \<Rightarrow> system" where
  "departs t input c = (case t_pid t of
     None \<Rightarrow> c
   | Some client_pid \<Rightarrow> if bytes_read input = [] then c\<lparr>leaving := client_pid # leaving c\<rparr> else c)"

definition erase_step :: "int \<Rightarrow> system \<Rightarrow> system" where
  "erase_step client_pid c = c\<lparr>leaving := remove1 client_pid (leaving c), server :=
     (if client_pid \<noteq> 0 then (server c)\<lparr>tables := erase_tcp client_pid (tables (server c))\<rparr> else server c)\<rparr>"

text \<open>An exception that leaves a thread's function terminates the process.\<close>

definition udp_goes :: "activity result \<times> server_state \<Rightarrow> system \<Rightarrow> system" where
  "udp_goes x c = (case x of
     (Inl e, S) \<Rightarrow> c\<lparr>server := S, crashed := Some e\<rparr>
   | (Inr a, S) \<Rightarrow> c\<lparr>udp := a, server := S\<rparr>)"

definition tcp_goes :: "int \<Rightarrow> tcp_thread option result \<times> server_state \<Rightarrow> system \<Rightarrow> system" where
  "tcp_goes fd x c = (case x of
     (Inl e, S) \<Rightarrow> c\<lparr>server := S, crashed := Some e\<rparr>
   | (Inr t, S) \<Rightarrow> c\<lparr>tcp := (tcp c)(fd := t), server := S\<rparr>)"

definition tcp_advance ::
  "'j env \<Rightarrow> tcp_thread \<Rightarrow> (flow \<times> session) program \<Rightarrow> server_state \<Rightarrow> tcp_thread option result \<times> server_state" where
  "tcp_advance E t p S = (case advance E p S of
     (Inl e, S') \<Rightarrow> (Inl e, S')
   | (Inr a, S') \<Rightarrow> (Inr (Some (t\<lparr>t_activity := a\<rparr>)), S'))"

text \<open>\<open>accept\<close> returns a descriptor that is not in use; the new thread opens its own session.\<close>

definition accept_step :: "string option \<Rightarrow> (int \<Rightarrow> bool) \<Rightarrow> int \<Rightarrow> sockaddr_in \<Rightarrow> system \<Rightarrow> system" where
  "accept_step db_port accepts client_sockfd cli_addr c =
     (case connectToDb db_port accepts of
        Inl e \<Rightarrow> c\<lparr>crashed := Some e\<rparr>
      | Inr _ \<Rightarrow> c\<lparr>tcp := (tcp c)(client_sockfd \<mapsto>
          \<lparr>t_addr = cli_addr, t_pid = None, t_activity = Waiting new_session\<rparr>)\<rparr>)"

definition cleanup_step :: "system \<Rightarrow> system" where
  "cleanup_step c = c\<lparr>server := (server c)\<lparr>tables :=
     cleanupInactiveUdpClients CHRONO_TIMEOUT (clock c) (tables (server c))\<rparr>, last_cleanup := clock c\<rparr>"

text \<open>
  A \<open>write\<close> to a connection whose other end is closed raises \<open>SIGPIPE\<close>, which the program neither
  ignores nor handles: it ends the process.  \<open>writes_tcp\<close>: the next action of a program writes to a TCP
  descriptor, its own or, when a message is forwarded, another client's.
\<close>

fun is_write :: "net_event \<Rightarrow> bool" where
  "is_write (Write fd m) \<longleftrightarrow> True"
| "is_write _ \<longleftrightarrow> False"

definition writes_tcp :: "'j env \<Rightarrow> (flow \<times> session) program \<Rightarrow> server_state \<Rightarrow> bool" where
  "writes_tcp E p S = (let sent' = sent (snd (advance E p S)) in sent' \<noteq> sent S \<and> is_write (last sent'))"

text \<open>
  The tables of clients are unlocked \<open>std::map\<close>s with plain counters.  What a thread may do with them
  next: the UDP thread looks a process id up and registers it; a TCP thread registers after its first
  read, and erases after its last; a message is processed with a lookup or a listing; the clean-up
  erases.  Two threads of which one writes and the other uses the same table at the same time are a
  data race, after which the program's behaviour is undefined.
\<close>

datatype table_access = Udp_read | Udp_write | Tcp_read | Tcp_write

fun collide :: "table_access \<Rightarrow> table_access \<Rightarrow> bool" where
  "collide Udp_write a \<longleftrightarrow> a = Udp_read \<or> a = Udp_write"
| "collide Udp_read a \<longleftrightarrow> a = Udp_write"
| "collide Tcp_write a \<longleftrightarrow> a = Tcp_read \<or> a = Tcp_write"
| "collide Tcp_read a \<longleftrightarrow> a = Tcp_write"

datatype actor = Udp_thread | Tcp_thread int | Leaving_thread nat | Cleanup_thread

fun work_accesses :: "(flow \<times> session) program \<Rightarrow> table_access list" where
  "work_accesses (Act (Process_message _ _ _) _) = [Udp_read, Tcp_read]"
| "work_accesses _ = []"

fun accesses :: "system \<Rightarrow> actor \<Rightarrow> table_access list" where
  "accesses c Udp_thread = (case udp c of Waiting _ \<Rightarrow> [Udp_write] | Working p \<Rightarrow> work_accesses p)"
| "accesses c (Tcp_thread fd) = (case tcp c fd of
     None \<Rightarrow> []
   | Some t \<Rightarrow> (case t_activity t of
       Waiting _ \<Rightarrow> (if t_pid t = None then [Tcp_write] else [])
     | Working p \<Rightarrow> work_accesses p))"
| "accesses c (Leaving_thread i) =
     (if i < length (leaving c) then [Tcp_write, Tcp_read, Udp_read] else [])"
| "accesses c Cleanup_thread =
     (if last_cleanup c + CHRONO_TIMEOUT_SECONDS * NANOS_PER_SECOND \<le> clock c then [Udp_write] else [])"

definition racing :: "system \<Rightarrow> actor \<Rightarrow> actor \<Rightarrow> bool" where
  "racing c x y \<longleftrightarrow> x \<noteq> y \<and> list_ex (\<lambda>a. list_ex (collide a) (accesses c y)) (accesses c x)"

inductive step :: "'j env \<Rightarrow> system \<Rightarrow> system \<Rightarrow> bool" for E where
  time: "\<lbrakk>crashed c = None; clock c \<le> now\<rbrakk> \<Longrightarrow> step E c (c\<lparr>clock := now\<rparr>)"
| datagram: "\<lbrakk>crashed c = None; udp c = Waiting s\<rbrakk>
    \<Longrightarrow> step E c (udp_goes (udp_receive E (clock c) input s (server c)) c)"
| udp_act: "\<lbrakk>crashed c = None; udp c = Working p\<rbrakk> \<Longrightarrow> step E c (udp_goes (advance E p (server c)) c)"
| accept: "\<lbrakk>crashed c = None; tcp c fd = None\<rbrakk> \<Longrightarrow> step E c (accept_step db_port accepts fd cli_addr c)"
| stream: "\<lbrakk>crashed c = None; tcp c fd = Some t; t_activity t = Waiting s\<rbrakk>
    \<Longrightarrow> step E c (tcp_goes fd (tcp_receive E (clock c) fd input t s (server c)) (departs t input c))"
| erases: "\<lbrakk>crashed c = None; pid \<in> set (leaving c)\<rbrakk> \<Longrightarrow> step E c (erase_step pid c)"
| tcp_act: "\<lbrakk>crashed c = None; tcp c fd = Some t; t_activity t = Working p\<rbrakk>
    \<Longrightarrow> step E c (tcp_goes fd (tcp_advance E t p (server c)) c)"
| cleanup: "\<lbrakk>crashed c = None; last_cleanup c + CHRONO_TIMEOUT_SECONDS * NANOS_PER_SECOND \<le> clock c\<rbrakk>
    \<Longrightarrow> step E c (cleanup_step c)"
| udp_sigpipe: "\<lbrakk>crashed c = None; udp c = Working p; writes_tcp E p (server c)\<rbrakk>
    \<Longrightarrow> step E c (c\<lparr>crashed := Some Sigpipe\<rparr>)"
| tcp_sigpipe: "\<lbrakk>crashed c = None; tcp c fd = Some t; t_activity t = Working p; writes_tcp E p (server c)\<rbrakk>
    \<Longrightarrow> step E c (c\<lparr>crashed := Some Sigpipe\<rparr>)"
| race: "\<lbrakk>crashed c = None; racing c x y\<rbrakk> \<Longrightarrow> step E c (c\<lparr>crashed := Some Data_race\<rparr>)"

inductive_cases step_elim: "step E c c'"

lemma departs_simps [simp]:
  "tcp (departs t input c) = tcp c" "udp (departs t input c) = udp c" "server (departs t input c) = server c"
  "crashed (departs t input c) = crashed c" "clock (departs t input c) = clock c"
  "last_cleanup (departs t input c) = last_cleanup c"
  by (simp_all add: departs_def split: option.split)

lemma leaving_departs: "set (leaving c) \<subseteq> set (leaving (departs t input c))"
  by (auto simp: departs_def split: option.split)

lemma crash_is_final: "crashed c \<noteq> None \<Longrightarrow> \<not> step E c c'"
  by (auto elim: step_elim)

inductive reachable :: "'j env \<Rightarrow> inv_db \<Rightarrow> system \<Rightarrow> bool" for E d where
  reach_start: "reachable E d (initial d now)"
| reach_step: "\<lbrakk>reachable E d c; step E c c'\<rbrakk> \<Longrightarrow> reachable E d c'"

lemma server_main_reachable:
  "\<lbrakk>server_main port_env uos tos db_port accepts d now = Some c; crashed c = None\<rbrakk> \<Longrightarrow> reachable E d c"
  by (auto simp: server_main_def reach_start split: option.splits sum.splits)

section \<open>What every action keeps\<close>

text \<open>How an action or a read ends, as a way for a stage to end.\<close>

definition ending :: "'a result \<Rightarrow> flow" where
  "ending r = (case r of Inl e \<Rightarrow> Throw e | Inr _ \<Rightarrow> Next)"

lemma ending_simps [simp]: "ending (Inl e) = Throw e" "ending (Inr v) = Next"
  by (simp_all add: ending_def)

lemma db_ok_get_at: "db_ok M d \<Longrightarrow> db_ok M (snd (get_at M s l p d))"
  by (simp add: get_at_state)

lemma db_ok_update_at: "db_ok M d \<Longrightarrow> db_ok M (snd (update_at M s l p q d))"
  by (cases s) (simp_all add: db_ok_updates)

lemma perform_keeps:
  assumes "state_ok E Next S" and "perform E a S = (r, S')"
  shows "state_ok E (ending r) S'"
proof (cases a)
  case (Read_stock s l p)
  with assms show ?thesis by (auto simp: on_inventory_def state_ok_def db_ok_get_at)
next
  case (Change_stock s l p q)
  with assms show ?thesis by (auto simp: on_inventory_def state_ok_def db_ok_update_at)
next
  case (Transmit ev)
  with assms show ?thesis by (auto simp: split_beta intro: state_ok_same)
next
  case (Store_order buffer)
  obtain x st where x: "storeOrder (env_json E) buffer (orders S) = (x, st)" by fastforce
  then have "store_stage E buffer (undefined, S) = (ending x, undefined, S\<lparr>orders := st\<rparr>)"
    by (cases x) (simp_all add: store_stage_def Let_def)
  from keepsD[OF keeps_store _ this] assms Store_order x show ?thesis by (cases x) auto
next
  case (Process_message buffer proto cid)
  then show ?thesis
  proof (cases "processMessage E buffer proto cid S")
    case (Inl e)
    with assms Process_message show ?thesis by (auto simp: state_ok_def)
  next
    case (Inr S1)
    with assms Process_message on_valueD[OF processMessage_forwards_only Inr] show ?thesis
      by (auto intro: state_ok_same)
  qed
qed

lemma perform_tables: "perform E a S = (r, S') \<Longrightarrow> tables S' = tables S"
proof (cases a)
  case (Process_message buffer proto cid)
  then show "perform E a S = (r, S') \<Longrightarrow> tables S' = tables S"
    using on_valueD[OF processMessage_forwards_only, of E buffer proto cid S]
    by (cases "processMessage E buffer proto cid S") auto
qed (auto simp: on_inventory_def split_beta split: prod.splits sum.splits)

lemma advance_keeps:
  assumes "state_ok E Next S" and "advance E p S = (r, S')"
  shows "state_ok E (ending r) S' \<and> tables S' = tables S"
proof (cases p)
  case (Return v)
  with assms show ?thesis by (cases v) auto
next
  case (Raise e)
  with assms show ?thesis by (auto simp: state_ok_def)
next
  case (Act a k)
  obtain x S1 where x: "perform E a S = (x, S1)" by fastforce
  with assms(2) Act have "S' = S1" "ending r = ending x" by (auto split: sum.splits)
  with perform_keeps[OF assms(1) x] perform_tables[OF x] show ?thesis by simp
qed

lemma udp_receive_keeps:
  assumes "state_ok E Next S" and "udp_receive E now input s S = (r, S')"
  shows "state_ok E (ending r) S' \<and> clientMapTcp (tables S') = clientMapTcp (tables S)"
proof (cases input)
  case Recvfrom_error
  with assms show ?thesis by (auto simp: udp_receive_unfold)
next
  case (Datagram bytes a)
  let ?p = "atoi (recv_buffer BUFFER_SIZE_SERVER bytes)"
  show ?thesis
  proof (cases "map_of (clientMapUdp (tables S)) ?p = None \<and> ?p \<noteq> 0")
    case False
    with assms Datagram show ?thesis by (auto simp: udp_receive_unfold Let_def)
  next
    case new: True
    show ?thesis
    proof (cases "registerClient ?p ''UDP'' a 0 now (tables S)")
      case (Inl e)
      with new assms Datagram show ?thesis by (auto simp: udp_receive_unfold Let_def state_ok_def)
    next
      case (Inr v)
      then obtain cid R where v: "registerClient ?p ''UDP'' a 0 now (tables S) = Inr (cid, R)" by (cases v) simp
      have R: "clientMapTcp R = clientMapTcp (tables S)"
        by (rule registerClient_cases[OF v]) simp_all
      have "registry_ok R" using assms(1) by (intro registry_ok_register[OF _ v]) (simp add: state_ok_def)
      with R new assms Datagram v show ?thesis by (auto simp: udp_receive_unfold Let_def state_ok_def)
    qed
  qed
qed

text \<open>What a read of a TCP thread does to the thread and to the tables of clients.\<close>

lemma tcp_first_outcome:
  assumes "tcp_first E now fd a input (s, S) = (f, pid, s', S')"
  shows "f = Leave \<and> tables S' = tables S
    \<or> f \<noteq> Leave \<and> (tables S' = tables S \<or> pid \<noteq> 0 \<and> (\<exists>cid. registerClient pid ''TCP'' a fd now (tables S) = Inr (cid, tables S')))"
proof (cases "bytes_read input = []")
  case True
  with assms show ?thesis by (auto simp: tcp_first_def)
next
  case False
  let ?p = "atoi (recv_buffer BUFFER_SIZE_SERVER (bytes_read input))"
  show ?thesis
  proof (cases "registerClient ?p ''TCP'' a fd now (tables S)")
    case (Inl e)
    with False assms show ?thesis by (auto simp: tcp_first_def Let_def split: if_splits)
  next
    case (Inr v)
    with False assms show ?thesis by (cases v) (auto simp: tcp_first_def Let_def split: if_splits)
  qed
qed

lemma tcp_receive_cases:
  assumes "tcp_receive E now fd input t s S = (r, S')"
  obtains (thrown) e where "r = Inl e"
  | (left) "t_pid t = None" "r = Inr None" "tables S' = tables S"
  | (announced) p s' where "t_pid t = None" "r = Inr (Some (t\<lparr>t_pid := Some p, t_activity := Waiting s'\<rparr>))"
      "tables S' = tables S \<or> p \<noteq> 0 \<and> (\<exists>cid. registerClient p ''TCP'' (t_addr t) fd now (tables S) = Inr (cid, tables S'))"
  | (closed) p where "t_pid t = Some p" "r = Inr None" "bytes_read input = []" "tables S' = tables S"
  | (message) a where "t_pid t \<noteq> None" "r = Inr (Some (t\<lparr>t_activity := a\<rparr>))" "tables S' = tables S"
proof (cases "t_pid t")
  case None
  obtain f pid s' S1 where run: "tcp_first E now fd (t_addr t) input (s, S) = (f, pid, s', S1)" by (rule prod_cases4)
  from tcp_first_outcome[OF run] show ?thesis
    using assms None that(1,2,3) by (cases f) (auto simp: tcp_receive_unfold run)
next
  case (Some p)
  with assms that(4,5) show ?thesis by (auto simp: tcp_receive_unfold Let_def split: if_splits)
qed

lemma tcp_receive_keeps:
  assumes "state_ok E Next S" and "tcp_receive E now fd input t s S = (r, S')"
  shows "state_ok E (ending r) S'"
proof (cases "t_pid t")
  case None
  obtain f pid s' S1 where run: "tcp_first E now fd (t_addr t) input (s, S) = (f, pid, s', S1)" by (rule prod_cases4)
  from state_ok_tcp_first[OF assms(1) run] show ?thesis
    using assms(2) None by (cases f) (auto simp: tcp_receive_unfold run state_ok_def)
next
  case (Some p)
  with assms show ?thesis
    by (auto simp: tcp_receive_unfold Let_def state_ok_def registry_ok_erase_tcp split: if_splits)
qed

lemma tcp_advance_cases:
  assumes "tcp_advance E t p S = (r, S')"
  obtains (thrown) e where "r = Inl e" | (goes_on) a where "r = Inr (Some (t\<lparr>t_activity := a\<rparr>))"
  using assms by (cases "advance E p S"; cases "fst (advance E p S)") (auto simp: tcp_advance_def)

lemma tcp_advance_keeps:
  assumes "state_ok E Next S" and "tcp_advance E t p S = (r, S')"
  shows "state_ok E (ending r) S' \<and> tables S' = tables S"
proof -
  obtain x S1 where x: "advance E p S = (x, S1)" by fastforce
  with assms(2) have "S' = S1" "ending r = ending x" by (auto simp: tcp_advance_def split: sum.splits)
  with advance_keeps[OF assms(1) x] show ?thesis by simp
qed

section \<open>Well-formed states\<close>

definition system_ok :: "'j env \<Rightarrow> system \<Rightarrow> bool" where
  "system_ok E c \<longleftrightarrow> state_ok E (case crashed c of None \<Rightarrow> Next | Some e \<Rightarrow> Throw e) (server c)"

lemma system_ok_goes:
  assumes "crashed c = None" and "state_ok E (ending (fst x)) (snd x)"
  shows "system_ok E (udp_goes x c)"
  using assms by (auto simp: system_ok_def udp_goes_def split: prod.split sum.split)

lemma system_ok_tcp_goes:
  assumes "crashed c = None" and "state_ok E (ending (fst x)) (snd x)"
  shows "system_ok E (tcp_goes fd x c)"
  using assms by (auto simp: system_ok_def tcp_goes_def split: prod.split sum.split)

lemma system_okD: "\<lbrakk>system_ok E c; crashed c = None\<rbrakk> \<Longrightarrow> state_ok E Next (server c)"
  by (simp add: system_ok_def)

lemma step_system_ok:
  assumes "step E c c'" and ok: "system_ok E c"
  shows "system_ok E c'"
  using assms(1)
proof cases
  case (time now)
  with ok show ?thesis by (simp add: system_ok_def)
next
  case (datagram s input)
  then show ?thesis
    using udp_receive_keeps[OF system_okD[OF ok]] by (simp add: system_ok_goes)
next
  case (udp_act p)
  then show ?thesis
    using advance_keeps[OF system_okD[OF ok]] by (simp add: system_ok_goes)
next
  case (accept fd db_port accepts cli_addr)
  with ok show ?thesis
    by (auto simp: system_ok_def accept_step_def state_ok_def split: sum.splits)
next
  case (stream fd t s input)
  then show ?thesis
    using tcp_receive_keeps[OF system_okD[OF ok]] by (simp add: system_ok_tcp_goes)
next
  case (erases pid)
  with ok show ?thesis by (simp add: system_ok_def erase_step_def state_ok_def registry_ok_erase_tcp)
next
  case (tcp_act fd t p)
  then show ?thesis
    using tcp_advance_keeps[OF system_okD[OF ok]] by (simp add: system_ok_tcp_goes)
next
  case cleanup
  with ok show ?thesis
    by (simp add: system_ok_def cleanup_step_def state_ok_def registry_ok_cleanup)
next
  case (udp_sigpipe p)
  with ok show ?thesis by (simp add: system_ok_def state_ok_def)
next
  case (tcp_sigpipe fd t p)
  with ok show ?thesis by (simp add: system_ok_def state_ok_def)
next
  case (race x y)
  with ok show ?thesis by (simp add: system_ok_def state_ok_def)
qed

lemma initial_system_ok: "db_ok (env_mysql E) d \<Longrightarrow> system_ok E (initial d now)"
  by (simp add: system_ok_def initial_def state_ok_def registry_ok_empty store_ok_empty)

lemma reachable_system_ok: "\<lbrakk>reachable E d c; db_ok (env_mysql E) d\<rbrakk> \<Longrightarrow> system_ok E c"
  by (induction rule: reachable.induct) (auto simp: initial_system_ok intro: step_system_ok)

text \<open>
  Every TCP client in the table has a connection, the thread of its descriptor, which announced its
  process id; or a thread with its process id is about to erase it.
\<close>

definition sockets_ok :: "system \<Rightarrow> bool" where
  "sockets_ok c \<longleftrightarrow> (\<forall>p ci. map_of (clientMapTcp (tables (server c))) p = Some ci \<longrightarrow>
     p \<noteq> 0 \<and> (p \<in> set (leaving c) \<or> (\<exists>t. tcp c (socket_fd ci) = Some t \<and> t_pid t = Some p)))"

lemma sockets_okD:
  "\<lbrakk>sockets_ok c; map_of (clientMapTcp (tables (server c))) p = Some ci\<rbrakk> \<Longrightarrow>
   p \<noteq> 0 \<and> (p \<in> set (leaving c) \<or> (\<exists>t. tcp c (socket_fd ci) = Some t \<and> t_pid t = Some p))"
  unfolding sockets_ok_def by blast

text \<open>
  A step that keeps the table, and the process id of every connection that announced one unless its
  thread leaves.
\<close>

lemma sockets_ok_keep:
  assumes "sockets_ok c" and "clientMapTcp (tables (server c')) = clientMapTcp (tables (server c))"
    and "set (leaving c) \<subseteq> set (leaving c')"
    and "\<And>fd t p. \<lbrakk>tcp c fd = Some t; t_pid t = Some p\<rbrakk>
      \<Longrightarrow> p \<in> set (leaving c') \<or> (\<exists>t'. tcp c' fd = Some t' \<and> t_pid t' = Some p)"
  shows "sockets_ok c'"
  unfolding sockets_ok_def assms(2) using sockets_okD[OF assms(1)] assms(3,4) by blast

lemma sockets_ok_same_pid:
  assumes "sockets_ok c" and "clientMapTcp (tables (server c')) = clientMapTcp (tables (server c))"
    and "set (leaving c) \<subseteq> set (leaving c')"
    and "tcp c fd = Some t" and "tcp c' = (tcp c)(fd \<mapsto> t')" and "t_pid t' = t_pid t"
  shows "sockets_ok c'"
  using assms(1-3)
proof (rule sockets_ok_keep)
  fix fd' u p assume "tcp c fd' = Some u" "t_pid u = Some p"
  with assms(4-6) show "p \<in> set (leaving c') \<or> (\<exists>t'. tcp c' fd' = Some t' \<and> t_pid t' = Some p)"
    by (cases "fd' = fd") simp_all
qed

lemma sockets_ok_announced:
  assumes sok: "sockets_ok c" and reg: "registry_ok (tables (server c))" and fd: "tcp c fd = Some t" "t_pid t = None"
    and p: "p \<noteq> 0" and new: "registerClient p ''TCP'' a fd now (tables (server c)) = Inr (cid, tables S)"
    and t': "t_pid t' = Some p" and c': "tcp c' = (tcp c)(fd \<mapsto> t')" "server c' = S" "leaving c' = leaving c"
  shows "sockets_ok c'"
  unfolding sockets_ok_def c'
proof (intro allI impI)
  fix q ci
  assume "map_of (clientMapTcp (tables S)) q = Some ci"
  from registerClient_other_tcp[OF reg new this]
  show "q \<noteq> 0 \<and> (q \<in> set (leaving c) \<or> (\<exists>t. ((tcp c)(fd \<mapsto> t')) (socket_fd ci) = Some t \<and> t_pid t = Some q))"
  proof
    assume "map_of (clientMapTcp (tables (server c))) q = Some ci"
    from sockets_okD[OF sok this] show ?thesis
      by (elim conjE disjE exE; cases "socket_fd ci = fd") (simp_all add: fd)
  next
    assume "''TCP'' = ''TCP'' \<and> q = p \<and> socket_fd ci = fd"
    with p t' show ?thesis by simp
  qed
qed

lemma sockets_ok_erased:
  assumes sok: "sockets_ok c" and reg: "registry_ok (tables (server c))"
  shows "sockets_ok (erase_step p c)"
proof -
  have om: "om_ok (clientMapTcp (tables (server c)))" using reg by (auto simp: registry_ok_def dest: table_okD(1))
  have keep: "map_of (clientMapTcp (tables (server c))) q = Some ci \<and> q \<noteq> p"
    if "map_of (clientMapTcp (tables (server (erase_step p c)))) q = Some ci" for q ci
    using that om.find_erase[OF om, of p q] sockets_okD[OF sok, of q ci]
    by (auto simp: erase_step_def erase_tcp_def split: if_splits)
  have rest: "leaving (erase_step p c) = remove1 p (leaving c)" "tcp (erase_step p c) = tcp c"
    by (simp_all add: erase_step_def)
  show ?thesis
    unfolding sockets_ok_def rest using keep sockets_okD[OF sok] by (metis in_set_remove1)
qed

lemma stream_sockets_ok:
  assumes "system_ok E c" and sok: "sockets_ok c" and c: "crashed c = None" "tcp c fd = Some t"
    and run: "tcp_receive E (clock c) fd input t s (server c) = (r, S)"
  shows "sockets_ok (tcp_goes fd (r, S) (departs t input c))"
proof -
  have reg: "registry_ok (tables (server c))" using assms(1) by (simp add: system_ok_def state_ok_def)
  note keep = sockets_ok_keep[OF sok, of "tcp_goes fd (r, S) (departs t input c)"]
  have leave: "set (leaving c) \<subseteq> set (leaving (tcp_goes fd (r, S) (departs t input c)))"
    using leaving_departs by (simp add: tcp_goes_def split: sum.split)
  from run show ?thesis
  proof (cases rule: tcp_receive_cases)
    case (thrown e)
    have "tables S = tables (server c)"
      using run thrown
      by (auto simp: tcp_receive_unfold tcp_first_def Let_def split: option.splits if_splits sum.splits prod.splits flow.splits)
    with thrown show ?thesis by (intro keep[OF _ leave]) (simp_all add: tcp_goes_def)
  next
    case left
    with c show ?thesis by (intro keep[OF _ leave]) (auto simp: tcp_goes_def)
  next
    case (announced p s')
    then show ?thesis
    proof (cases "tables S = tables (server c)")
      case True
      with announced c show ?thesis by (intro keep[OF _ leave]) (auto simp: tcp_goes_def)
    next
      case False
      with announced obtain cid where new: "p \<noteq> 0"
        "registerClient p ''TCP'' (t_addr t) fd (clock c) (tables (server c)) = Inr (cid, tables S)" by blast
      from announced(1,2) show ?thesis
        by (intro sockets_ok_announced[OF sok reg c(2) announced(1) new])
          (simp_all add: tcp_goes_def departs_def)
    qed
  next
    case (closed p)
    with c show ?thesis by (intro keep[OF _ leave]) (auto simp: tcp_goes_def departs_def)
  next
    case (message a)
    with leave show ?thesis by (intro sockets_ok_same_pid[OF sok _ _ c(2), where t' = "t\<lparr>t_activity := a\<rparr>"]) (simp_all add: tcp_goes_def)
  qed
qed

lemma step_sockets_ok:
  assumes "step E c c'" and ok: "system_ok E c" and sok: "sockets_ok c"
  shows "sockets_ok c'"
  using assms(1)
proof cases
  case (time now)
  with sok show ?thesis by (simp add: sockets_ok_def)
next
  case (datagram s input)
  obtain r S where run: "udp_receive E (clock c) input s (server c) = (r, S)" by fastforce
  with udp_receive_keeps[OF system_okD[OF ok datagram(2)] run] datagram show ?thesis
    by (intro sockets_ok_keep[OF sok]) (auto simp: udp_goes_def split: sum.splits)
next
  case (udp_act p)
  obtain r S where run: "advance E p (server c) = (r, S)" by fastforce
  with advance_keeps[OF system_okD[OF ok udp_act(2)] run] udp_act show ?thesis
    by (intro sockets_ok_keep[OF sok]) (auto simp: udp_goes_def split: sum.splits)
next
  case (accept fd db_port accepts cli_addr)
  then show ?thesis
    by (intro sockets_ok_keep[OF sok]) (auto simp: accept_step_def split: sum.splits)
next
  case (stream fd t s input)
  obtain r S where "tcp_receive E (clock c) fd input t s (server c) = (r, S)" by fastforce
  with stream_sockets_ok[OF ok sok stream(2,3) this] stream(1) show ?thesis by simp
next
  case (erases pid)
  have "registry_ok (tables (server c))" using ok by (simp add: system_ok_def state_ok_def)
  with sockets_ok_erased[OF sok] erases(1) show ?thesis by simp
next
  case (tcp_act fd t p)
  obtain r S where run: "tcp_advance E t p (server c) = (r, S)" by fastforce
  have c': "c' = tcp_goes fd (r, S) c" using tcp_act(1) by (simp add: run)
  have "tables S = tables (server c)" using tcp_advance_keeps[OF system_okD[OF ok tcp_act(2)] run] by simp
  with run tcp_act(3) show ?thesis
    unfolding c' by (cases rule: tcp_advance_cases)
      (auto simp: tcp_goes_def intro: sockets_ok_same_pid[OF sok _ _ tcp_act(3)] sockets_ok_keep[OF sok])
next
  case cleanup
  with sok show ?thesis by (simp add: sockets_ok_def cleanup_step_def cleanupInactiveUdpClients_def)
qed (use sok in \<open>simp_all add: sockets_ok_def\<close>)

lemma reachable_sockets_ok:
  assumes "reachable E d c" and "db_ok (env_mysql E) d"
  shows "sockets_ok c"
  using assms
proof induction
  case (reach_start now)
  then show ?case by (simp add: sockets_ok_def initial_def empty_registry_def)
next
  case (reach_step c c')
  then show ?case using step_sockets_ok reachable_system_ok by blast
qed

section \<open>Properties\<close>

text \<open>
  C37: in every state the server can reach, through any interleaving of the single actions of its
  threads, any input and any failure of the network and the database, up to the first data race on
  the tables of clients (nothing holds after one): the client numbers are distinct and within bounds,
  and the tables of the database are well formed, with no negative level.  Until an exception ends the
  process, the totals of the report are those of the stored orders.
\<close>

theorem reachable_well_formed:
  assumes "reachable E d c" and "db_ok (env_mysql E) d" and "crashed c \<noteq> Some Data_race"
  shows "registry_ok (tables (server c)) \<and> db_ok (env_mysql E) (inventory (server c))
    \<and> (\<forall>s l p a. stock_at (env_mysql E) (inventory (server c)) s l p = Some a \<longrightarrow> 0 \<le> a \<and> a \<le> INT_MAX)
    \<and> (crashed c = None \<longrightarrow> store_ok (env_json E) (orders (server c)))"
proof -
  have "system_ok E c" using assms(1,2) by (rule reachable_system_ok)
  then have "registry_ok (tables (server c))" "db_ok (env_mysql E) (inventory (server c))"
    "crashed c = None \<Longrightarrow> store_ok (env_json E) (orders (server c))"
    by (auto simp: system_ok_def state_ok_def split: option.splits)
  then show ?thesis using stock_range by blast
qed

text \<open>
  C38: in every state of the running server, a TCP client found by number is registered under a process
  id that its connection announced: either that connection is still open on the client's descriptor,
  or a thread has closed its descriptor and is about to erase this process id.
\<close>

theorem tcp_client_has_connection:
  assumes "reachable E d c" and "db_ok (env_mysql E) d" and "crashed c \<noteq> Some Data_race"
    and "findClientById i ''tcp'' (tables (server c)) = Some ci"
  shows "\<exists>p. map_of (clientMapTcp (tables (server c))) p = Some ci \<and> p \<noteq> 0
    \<and> ((\<exists>t. tcp c (socket_fd ci) = Some t \<and> t_pid t = Some p) \<or> p \<in> set (leaving c))"
proof -
  have ok: "registry_ok (tables (server c))"
    using reachable_system_ok[OF assms(1,2)] by (simp add: system_ok_def state_ok_def)
  have kp: "known_protocol (map c_toupper ''tcp'')" by (simp add: known_protocol_def)
  from assms(4) obtain p where p: "map_of (clientMapTcp (tables (server c))) p = Some ci"
    by (auto simp: findClientById_entry[OF ok kp] client_table_def)
  from sockets_okD[OF reachable_sockets_ok[OF assms(1,2)] p] p show ?thesis by blast
qed

lemma udp_passes_keep_client:
  assumes "registry_ok (tables (snd x))" and "findClientById i ''UDP'' (tables (snd x)) = Some ci"
  shows "registry_ok (tables (snd (udp_passes E inputs x)))
    \<and> findClientById i ''UDP'' (tables (snd (udp_passes E inputs x))) = Some ci"
  using assms
proof (induction E inputs x rule: udp_passes.induct)
  case (2 E now input inputs x)
  obtain s S where x: "x = (s, S)" by (cases x)
  obtain f s' S' where run: "udp_pass E now input (s, S) = (f, s', S')" by (rule prod_cases3)
  have "registry_ok (tables S') \<and> findClientById i ''UDP'' (tables S') = Some ci"
    using udp_pass_tables[OF run] 2(2,3) x registry_ok_register registerClient_keeps_client
    by (auto simp: known_protocol_def)
  with 2(1) x run show ?case by simp
qed simp

text \<open>
  C40: the time of a client's last activity is the time of its registration: whatever it sends, the
  first clean-up more than 60 seconds after the registration removes it.
\<close>

theorem active_udp_client_removed:
  assumes "registry_ok (tables S)" and "findClientById i ''UDP'' (tables S) = Some ci"
    and "last_seen ci + 60 * 1000000000 < now"
  shows "findClientById i ''UDP'' (tables (snd (udp_passes E inputs (s, S)))) = Some ci
    \<and> findClientById i ''UDP'' (cleanupInactiveUdpClients 60 now (tables (snd (udp_passes E inputs (s, S))))) = None"
  using udp_passes_keep_client[of "(s, S)" i ci E inputs] assms
  by (simp add: cleanup_erases NANOS_PER_SECOND_def)

section \<open>Witnesses\<close>

text \<open>A UDP client and a TCP client connect to a server with full tables.\<close>

abbreviation env0 :: "sample_json env" where "env0 \<equiv> sample_env SNull"

abbreviation new_thread :: tcp_thread where
  "new_thread \<equiv> \<lparr>t_addr = sample_addr 5001, t_pid = None, t_activity = Waiting new_session\<rparr>"

definition connected :: system where
  "connected = (let c = accept_step None (\<lambda>_. True) 4 (sample_addr 5001) (initial (seed_db 1000) 0)
     in tcp_goes 4 (tcp_receive env0 (clock c) 4 (Bytes ''88'') new_thread new_session (server c))
          (departs new_thread (Bytes ''88'') c))"

lemma reachable_connected: "reachable env0 (seed_db 1000) connected"
proof -
  let ?c = "accept_step None (\<lambda>_. True) 4 (sample_addr 5001) (initial (seed_db 1000) 0)"
  have first: "step env0 (initial (seed_db 1000) 0) ?c"
    by (rule step.accept) (simp_all add: initial_def)
  have "crashed ?c = None" "tcp ?c 4 = Some new_thread"
    by (simp_all add: accept_step_def connectToDb_def initial_def)
  then have second: "step env0 ?c connected" unfolding connected_def Let_def by (rule step.stream) simp
  show ?thesis by (rule reach_step[OF reach_step[OF reach_start first] second])
qed

lemma connected_runs: "crashed connected = None" "leaving connected = []"
proof -
  have "recv_buffer 2048 ''88'' = ''88''" by (simp add: recv_buffer_def c_str_def)
  moreover have "atoi ''88'' = 88" by code_simp
  ultimately show "crashed connected = None" "leaving connected = []"
    by (simp_all add: connected_def tcp_receive_def tcp_goes_def tcp_first_def BUFFER_SIZE_SERVER_def accept_step_def
        connectToDb_def initial_def registerClient_def empty_registry_def int32_add_def in_int32_def
        MAX_CLIENTS_ID_def departs_def Let_def)
qed

theorem reachable_well_formed_witness:
  "registry_ok (tables (server connected)) \<and> db_ok sample_mysql (inventory (server connected))"
  using reachable_well_formed[OF reachable_connected] by (simp add: db_ok_seed connected_runs)

lemma connected_client:
  "findClientById 1 ''tcp'' (tables (server connected)) = Some (new_client 1 ''TCP'' (sample_addr 5001) 4 0)"
proof -
  have "recv_buffer 2048 ''88'' = ''88''" by (simp add: recv_buffer_def c_str_def)
  moreover have "atoi ''88'' = 88" by code_simp
  ultimately show ?thesis
    by (simp add: connected_def tcp_receive_unfold tcp_goes_def tcp_first_def BUFFER_SIZE_SERVER_def accept_step_def connectToDb_def
        initial_def registerClient_def empty_registry_def int32_add_def in_int32_def MAX_CLIENTS_ID_def
        findClientById_def departs_def Let_def)
qed

theorem tcp_client_has_connection_witness: "\<exists>t. tcp connected 4 = Some t"
  using tcp_client_has_connection[OF reachable_connected _ _ connected_client]
  by (auto simp: db_ok_seed connected_runs)

theorem active_udp_client_removed_witness:
  "findClientById 1 ''UDP'' (cleanupInactiveUdpClients 60 60000000006 (tables (snd (udp_passes env0
     [(60000000005, Datagram ''LIST_CLIENTS'' (sample_addr 5000))] (new_session, sample_server 0))))) = None"
  using active_udp_client_removed[where S = "sample_server 0" and ci = "new_client 1 ''UDP'' (sample_addr 5000) 0 5"
      and i = 1 and now = 60000000006 and s = new_session and E = env0
      and inputs = "[(60000000005, Datagram ''LIST_CLIENTS'' (sample_addr 5000))]"] sample_registry_ok
  by (simp add: findClientById_def sample_registry_def)

end
