(* ===== verification/Server_Races.thy ===== *)
theory Server_Races
  imports Server_Schedules
begin

text \<open>
  What two TCP clients can bring about together.  The server calls the database one procedure at a
  time, without a transaction: the stock check and the update of one order, and the reading and the
  filling of a re-stock, can be apart.  The theorems give the schedules and where they end.
\<close>

section \<open>An order between its check and its transfer\<close>

abbreviation tcp_ack :: string where "tcp_ack \<equiv> ''TCP Server received your message.''"

text \<open>A connection that has announced its process id and waits for input.\<close>

definition tcp_idle :: "system \<Rightarrow> int \<Rightarrow> tcp_thread \<Rightarrow> session \<Rightarrow> bool" where
  "tcp_idle c fd t s \<longleftrightarrow> crashed c = None \<and> tcp c fd = Some t \<and> t_activity t = Waiting s \<and> t_pid t \<noteq> None"

text \<open>The handlers from the transfer on.\<close>

definition rest_of_order :: "'j env \<Rightarrow> int \<Rightarrow> 'j \<Rightarrow> string \<Rightarrow> handler list" where
  "rest_of_order E fd root buffer =
     [transfer_steps (env_json E) (tcp_reply_steps fd) root, low_stock_steps (env_json E) (tcp_reply_steps fd) root,
      restock_steps (env_json E) (tcp_reply_steps fd) root, process_steps buffer ''TCP'']"

definition rest_stages :: "'j env \<Rightarrow> int \<Rightarrow> 'j \<Rightarrow> string \<Rightarrow> (thread \<Rightarrow> flow \<times> thread) list" where
  "rest_stages E fd root buffer =
     [transfer_stage E (tcp_reply E fd) root, low_stock_stage E (tcp_reply E fd) root,
      restock_stage E (tcp_reply E fd) root, process_stage E buffer ''TCP'']"

lemma rest_implements: "list_all2 (implements E) (rest_of_order E fd root buffer) (rest_stages E fd root buffer)"
  by (simp add: rest_of_order_def rest_stages_def implements_intros sends_tcp)

lemma tcp_order_received:
  assumes "tcp_idle c fd t s" and "recv_buffer 2048 bytes \<noteq> []"
  shows "step E c (tcp_working fd t (run_steps (message_steps (env_json E) (tcp_reply_steps fd) tcp_ack ''TCP''
    (recv_buffer 2048 bytes)) s) (server c) c)"
proof -
  have "bytes \<noteq> []" using assms(2) by (auto simp: recv_buffer_def c_str_def)
  moreover have "tcp_working fd t p (server c) c = c\<lparr>tcp := (tcp c)(fd \<mapsto> t\<lparr>t_activity := Working p\<rparr>)\<rparr>" for p
    using assms(1) by (simp add: tcp_working_def tcp_idle_def)
  ultimately show ?thesis
    using step.stream[of c fd t s E "Bytes bytes"] assms(1)
    by (auto simp: tcp_idle_def tcp_receive_unfold tcp_goes_def departs_def BUFFER_SIZE_SERVER_def)
qed

lemma tcp_order_checked:
  assumes idle: "tcp_idle c fd t s" and S: "S = server c" and Q: "quiet E" and ok: "state_ok E Next S"
    and rel: "db_reliable (env_mysql E) (inventory S)"
    and m: "order_message (env_json E) (recv_buffer 2048 bytes) root r p"
    and ready: "order_ready (env_mysql E) (inventory S) r st a"
    and fits: "total_ordered (env_json E) (o_product_name r) (storedOrders (orders S)) + o_quantity r \<le> INT_MAX"
  obtains s' S' where "isValid s'" "productStock s'"
    "steps E c (tcp_working fd t (run_steps (rest_of_order E fd root (recv_buffer 2048 bytes)) s') S' c)"
    "state_ok E Next S'" "db_reliable (env_mysql E) (inventory S')" "tables S' = tables S"
    "sent S' = sent S @ [Write fd tcp_ack]"
    "storedOrders (orders S') = storedOrders (orders S) @ [recv_buffer 2048 bytes]"
    "stock_at (env_mysql E) (inventory S') = stock_at (env_mysql E) (inventory S)"
proof -
  let ?b = "recv_buffer 2048 bytes" and ?R = "tcp_reply E fd"
  let ?S1 = "said [Write fd tcp_ack] S"
  note reads = order_messageD(5)[OF m]
  note readyD = order_readyD[OF ready]
  have store: "store_ok (env_json E) (orders ?S1)" using ok by (simp add: state_ok_def)
  obtain os where os: "store_stage E ?b (s, ?S1) = (Next, s, ?S1\<lparr>orders := os\<rparr>)"
      "storedOrders os = storedOrders (orders S) @ [?b]"
    by (rule store_stage_order[OF store m readyD(7,8)]) (use fits in simp, rule that, simp_all)
  have "state_ok E Next ?S1" using ok by (simp add: state_ok_def)
  with keepsD[OF keeps_store _ os(1)] have os_ok: "store_ok (env_json E) os" by (simp add: state_ok_def)
  let ?s2 = "s\<lparr>isValid := True, errorMessage := errorMessage s\<rparr>"
  let ?s3 = "?s2\<lparr>productStock := True, errorMessage := errorMessage ?s2\<rparr>"
  let ?S2 = "?S1\<lparr>orders := os\<rparr>" and ?S3 = "?S1\<lparr>orders := os, inventory := db_tick (inventory S)\<rparr>"
  have v: "validate_stage E ?R root (s, ?S2) = (Next, ?s2, ?S2)"
    by (rule validate_stage_accepts[OF reads readyD(1,2)])
  have c: "stock_stage E ?R root (?s2, ?S2) = (Next, ?s3, ?S3)"
    using stock_stage_accepts[OF reads, of ?S2 st a ?R ?s2] rel ready by simp
  let ?hs = "[reply_steps (tcp_reply_steps fd) tcp_ack, store_steps ?b,
      validate_steps (env_json E) (tcp_reply_steps fd) root, stock_steps (env_json E) (tcp_reply_steps fd) root]"
  let ?stages = "[reply_with ?R tcp_ack, store_stage E ?b, validate_stage E ?R root, stock_stage E ?R root]"
  have "list_all2 (implements E) ?hs ?stages" by (simp add: implements_intros sends_tcp)
  moreover have "run_stages ?stages (s, S) = (Next, ?s3, ?S3)"
    by (simp add: tcp_reply_quiet[OF Q] os(1) v[simplified] c[simplified])
  ultimately have work: "steps E
      (tcp_working fd t (run_steps (?hs @ rest_of_order E fd root ?b) s) S c)
      (tcp_working fd t (run_steps (rest_of_order E fd root ?b) ?s3) ?S3 c)"
    by (rule tcp_worker.work_through)
  have flat: "run_steps (message_steps (env_json E) (tcp_reply_steps fd) tcp_ack ''TCP'' ?b) s =
      run_steps (?hs @ rest_of_order E fd root ?b) s"
    using message_steps_flat[OF order_messageD(3,4,1)[OF m]] by (simp add: order_steps_def rest_of_order_def)
  have "step E c (tcp_working fd t (run_steps (?hs @ rest_of_order E fd root ?b) s) S c)"
    using tcp_order_received[OF idle order_messageD(3)[OF m], of E] unfolding flat S .
  with work have "steps E c (tcp_working fd t (run_steps (rest_of_order E fd root ?b) ?s3) ?S3 c)"
    by (rule converse_rtranclp_into_rtranclp[rotated])
  with os(2) os_ok ok rel show ?thesis
    by (intro that[of ?s3 ?S3]) (simp_all add: state_ok_def db_reliable_tick)
qed

section \<open>The transfer when the units are gone\<close>

lemma transfer_refused:
  assumes "db_ok M d" and "order_reads J root r" and "0 < o_quantity r" and "site_of (o_source_type r) = Some s"
    and "stock_at M d s (o_source_location r) (o_product_name r) = Some x" and "x < o_quantity r"
  obtains d' where "realTimeUpdate J M root d = Inr (- 1, d')" "stock_at M d' = stock_at M d" "db_ok M d'"
proof -
  have run: "realTimeUpdate J M root d = Inr (transfer M r d)"
    by (rule realTimeUpdate_transfer[OF assms(2) in_int32_neg[OF assms(3) order_readsD(12)[OF assms(2)]]])
  show ?thesis
    by (cases rule: transfer_cases[OF assms(1), of r]) (use assms(4-6) run that in auto)
qed

text \<open>How an order from a hub ends after its check: with the transfer, or without one.\<close>

lemma hub_order_done:
  assumes "quiet E" and "order_message (env_json E) buffer root r p" and "isValid s" "productStock s"
    and "db_ok (env_mysql E) (inventory S)" and "db_reliable (env_mysql E) (inventory S)"
    and "order_ready (env_mysql E) (inventory S) r Hub a"
  obtains s' S' where "run_stages (rest_stages E fd root buffer) (s, S) = (Next, s', S')"
    and "sent S' = sent S @ Write fd ''Successful order!'' #
      forward_events (tables S) (forward_text r) (o_source_location r) (map c_tolower p)"
    and "tables S' = tables S" and "orders S' = orders S" and "db_ok (env_mysql E) (inventory S')"
    and "stock_at (env_mysql E) (inventory S') = moved_stock (env_mysql E) r (inventory S)"
proof -
  note reads = order_messageD(5)[OF assms(2)]
  have "o_source_type r = ''hub''"
    using order_readyD(3)[OF assms(7)] by (simp add: site_of_def split: if_splits)
  then have hub: "o_source_type r \<noteq> ''warehouse''" by simp
  obtain d where d: "transfer_stage E (tcp_reply E fd) root (s, S) =
      reply_with (tcp_reply E fd) ''Successful order!'' (s, S\<lparr>inventory := d\<rparr>)"
    "db_ok (env_mysql E) d" "stock_at (env_mysql E) d = moved_stock (env_mysql E) r (inventory S)"
    by (rule transfer_stage_succeeds[OF reads assms(5,6,7,3,4)])
  let ?evs = "Write fd ''Successful order!'' #
      forward_events (tables S) (forward_text r) (o_source_location r) (map c_tolower p)"
  let ?s = "s\<lparr>lowStock := False, alertOut := alertOut s, reStocked := False\<rparr>"
  have "run_stages (rest_stages E fd root buffer) (s, S) = (Next, ?s, (said ?evs S)\<lparr>inventory := d\<rparr>)"
    using d assms(3,4)
    by (simp add: rest_stages_def tcp_reply_quiet[OF assms(1)] low_stock_stage_def restock_stage_def
        stock_functions_hub[OF reads hub] process_stage_order[OF assms(1,2)] said_def)
  with d show ?thesis by (intro that[of ?s "(said ?evs S)\<lparr>inventory := d\<rparr>"]) simp_all
qed

lemma hub_order_refused:
  assumes "quiet E" and "order_message (env_json E) buffer root r p" and "isValid s" "productStock s"
    and "db_ok (env_mysql E) (inventory S)" and "o_source_type r = ''hub''" and "0 < o_quantity r"
    and "stock_at (env_mysql E) (inventory S) Hub (o_source_location r) (o_product_name r) = Some x" and "x < o_quantity r"
  obtains s' S' where "run_stages (rest_stages E fd root buffer) (s, S) = (Next, s', S')"
    and "sent S' = sent S @ forward_events (tables S) (forward_text r) (o_source_location r) (map c_tolower p)"
    and "orders S' = orders S"
    and "stock_at (env_mysql E) (inventory S') = stock_at (env_mysql E) (inventory S)"
proof -
  note reads = order_messageD(5)[OF assms(2)]
  have hub: "o_source_type r \<noteq> ''warehouse''" "site_of (o_source_type r) = Some Hub"
    using assms(6) by (simp_all add: site_of_def)
  obtain d where d: "realTimeUpdate (env_json E) (env_mysql E) root (inventory S) = Inr (- 1, d)"
    "stock_at (env_mysql E) d = stock_at (env_mysql E) (inventory S)" "db_ok (env_mysql E) d"
    by (rule transfer_refused[OF assms(5) reads assms(7) hub(2) assms(8,9)])
  let ?evs = "forward_events (tables S) (forward_text r) (o_source_location r) (map c_tolower p)"
  let ?s = "s\<lparr>lowStock := False, alertOut := alertOut s, reStocked := False\<rparr>"
  have "run_stages (rest_stages E fd root buffer) (s, S) = (Next, ?s, (said ?evs S)\<lparr>inventory := d\<rparr>)"
    using d(1) assms(3,4)
    by (simp add: rest_stages_def transfer_stage_def low_stock_stage_def restock_stage_def
        stock_functions_hub[OF reads hub(1)] process_stage_order[OF assms(1,2)] said_def)
  with d show ?thesis by (intro that[of ?s "(said ?evs S)\<lparr>inventory := d\<rparr>"]) simp_all
qed

section \<open>Two threads\<close>

lemma tcp_idle_other:
  "\<lbrakk>fd \<noteq> fd'; tcp_idle c fd' t' s'\<rbrakk> \<Longrightarrow> tcp_idle (tcp_working fd t p S c) fd' t' s'"
  by (simp add: tcp_idle_def tcp_working_def)

lemma tcp_working_server [simp]: "server (tcp_working fd t p S c) = S"
  by (simp add: tcp_working_def)

text \<open>Two connections at work, and what one of them does alone.\<close>

definition both_working ::
  "int \<Rightarrow> tcp_thread \<Rightarrow> (flow \<times> session) program \<Rightarrow> int \<Rightarrow> tcp_thread \<Rightarrow> (flow \<times> session) program \<Rightarrow>
   server_state \<Rightarrow> system \<Rightarrow> system" where
  "both_working fd1 t1 q1 fd2 t2 q2 S c = tcp_working fd1 t1 q1 S (tcp_working fd2 t2 q2 S c)"

lemma both_swap: "fd1 \<noteq> fd2 \<Longrightarrow> both_working fd1 t1 q1 fd2 t2 q2 S c = both_working fd2 t2 q2 fd1 t1 q1 S c"
  by (simp add: both_working_def tcp_working_def fun_upd_twist)

lemma both_first:
  assumes "\<And>x. steps E (tcp_working fd1 t1 q S x) (tcp_working fd1 t1 q' S' x)"
  shows "steps E (both_working fd1 t1 q fd2 t2 q2 S c) (both_working fd1 t1 q' fd2 t2 q2 S' c)"
  using assms[of "tcp_working fd2 t2 q2 S c"] by (simp add: both_working_def tcp_working_def)

lemma both_second:
  assumes "fd1 \<noteq> fd2" and "\<And>x. steps E (tcp_working fd2 t2 q S x) (tcp_working fd2 t2 q' S' x)"
  shows "steps E (both_working fd1 t1 q1 fd2 t2 q S c) (both_working fd1 t1 q1 fd2 t2 q' S' c)"
  unfolding both_swap[OF assms(1)] using assms(2) by (rule both_first)

text \<open>Both threads return to their loops.\<close>

lemma both_return:
  assumes "fd1 \<noteq> fd2"
  shows "steps E (both_working fd1 t1 (Return (f1, s1)) fd2 t2 (Return (f2, s2)) S c)
    (tcp_waiting fd1 t1 s1 S (tcp_waiting fd2 t2 s2 S c))"
proof -
  let ?x = "tcp_waiting fd1 t1 s1 S c"
  have "step E (both_working fd1 t1 (Return (f1, s1)) fd2 t2 (Return (f2, s2)) S c)
      (tcp_waiting fd1 t1 s1 S (tcp_working fd2 t2 (Return (f2, s2)) S c))"
    unfolding both_working_def by (rule tcp_worker.returns)
  moreover have "tcp_waiting fd1 t1 s1 S (tcp_working fd2 t2 (Return (f2, s2)) S c) = tcp_working fd2 t2 (Return (f2, s2)) S ?x"
    "tcp_waiting fd2 t2 s2 S ?x = tcp_waiting fd1 t1 s1 S (tcp_waiting fd2 t2 s2 S c)"
    using assms by (simp_all add: tcp_waiting_def tcp_working_def fun_upd_twist)
  moreover have "step E (tcp_working fd2 t2 (Return (f2, s2)) S ?x) (tcp_waiting fd2 t2 s2 S ?x)"
    by (rule tcp_worker.returns)
  ultimately show ?thesis by (simp add: converse_rtranclp_into_rtranclp)
qed

lemma rest_done:
  assumes "run_stages (rest_stages E fd root buffer) (s, S) = (Next, s', S')"
  shows "steps E (tcp_working fd t (run_steps (rest_of_order E fd root buffer) s) S x) (tcp_working fd t (Return (Next, s')) S' x)"
  using tcp_worker.work_through[OF rest_implements assms, where t = t and rest = "[]" and c = x] by simp

lemma state_ok_db: "state_ok E f S \<Longrightarrow> db_ok (env_mysql E) (inventory S)"
  by (simp add: state_ok_def)

text \<open>What an order finds at the tables depends on the levels alone.\<close>

lemma same_stock:
  assumes "stock_at M d' = stock_at M d"
  shows "order_ready M d' r s a = order_ready M d r s a" and "moved_stock M r d' = moved_stock M r d"
  by (simp_all only: order_ready_def room_for_def moved_stock_def assms)

text \<open>
  Two idle clients whose orders the same location can serve, each by itself; and the point a schedule
  reaches where both orders have passed their checks and no unit has moved.
\<close>

definition rival_orders ::
  "'j env \<Rightarrow> system \<Rightarrow> int \<Rightarrow> tcp_thread \<Rightarrow> session \<Rightarrow> string \<Rightarrow> 'j \<Rightarrow> order \<Rightarrow> string \<Rightarrow>
   int \<Rightarrow> tcp_thread \<Rightarrow> session \<Rightarrow> string \<Rightarrow> 'j \<Rightarrow> order \<Rightarrow> string \<Rightarrow> site \<Rightarrow> int \<Rightarrow> bool" where
  "rival_orders E c fd1 t1 s1 bytes1 root1 r1 p1 fd2 t2 s2 bytes2 root2 r2 p2 st a \<longleftrightarrow>
     quiet E \<and> state_ok E Next (server c) \<and> db_reliable (env_mysql E) (inventory (server c))
   \<and> fd1 \<noteq> fd2 \<and> tcp_idle c fd1 t1 s1 \<and> tcp_idle c fd2 t2 s2
   \<and> order_message (env_json E) (recv_buffer 2048 bytes1) root1 r1 p1
   \<and> order_message (env_json E) (recv_buffer 2048 bytes2) root2 r2 p2
   \<and> order_ready (env_mysql E) (inventory (server c)) r1 st a \<and> order_ready (env_mysql E) (inventory (server c)) r2 st a
   \<and> o_source_location r1 = o_source_location r2 \<and> o_product_name r1 = o_product_name r2
   \<and> total_ordered (env_json E) (o_product_name r1) (storedOrders (orders (server c)))
       + o_quantity r1 + o_quantity r2 \<le> INT_MAX"

lemma rival_ordersD:
  assumes "rival_orders E c fd1 t1 s1 bytes1 root1 r1 p1 fd2 t2 s2 bytes2 root2 r2 p2 st a"
  shows "quiet E" and "state_ok E Next (server c)" and "db_reliable (env_mysql E) (inventory (server c))"
    and "fd1 \<noteq> fd2" and "tcp_idle c fd1 t1 s1" and "tcp_idle c fd2 t2 s2"
    and "order_message (env_json E) (recv_buffer 2048 bytes1) root1 r1 p1"
    and "order_message (env_json E) (recv_buffer 2048 bytes2) root2 r2 p2"
    and "order_ready (env_mysql E) (inventory (server c)) r1 st a"
    and "order_ready (env_mysql E) (inventory (server c)) r2 st a"
    and "o_source_location r1 = o_source_location r2" and "o_product_name r1 = o_product_name r2"
    and "total_ordered (env_json E) (o_product_name r1) (storedOrders (orders (server c)))
       + o_quantity r1 + o_quantity r2 \<le> INT_MAX"
  using assms unfolding rival_orders_def by blast+

lemma both_checked:
  assumes "rival_orders E c fd1 t1 s1 bytes1 root1 r1 p1 fd2 t2 s2 bytes2 root2 r2 p2 st a"
  obtains s1' s2' S where "isValid s1'" "productStock s1'" "isValid s2'" "productStock s2'"
    "steps E c (both_working fd1 t1 (run_steps (rest_of_order E fd1 root1 (recv_buffer 2048 bytes1)) s1')
       fd2 t2 (run_steps (rest_of_order E fd2 root2 (recv_buffer 2048 bytes2)) s2') S c)"
    "state_ok E Next S" "db_reliable (env_mysql E) (inventory S)" "tables S = tables (server c)"
    "sent S = sent (server c) @ [Write fd1 tcp_ack, Write fd2 tcp_ack]"
    "storedOrders (orders S) = storedOrders (orders (server c)) @ [recv_buffer 2048 bytes1, recv_buffer 2048 bytes2]"
    "stock_at (env_mysql E) (inventory S) = stock_at (env_mysql E) (inventory (server c))"
proof -
  let ?S = "server c" and ?M = "env_mysql E"
  let ?b1 = "recv_buffer 2048 bytes1" and ?b2 = "recv_buffer 2048 bytes2"
  note riv = rival_ordersD[OF assms]
  note r1 = order_readyD[OF riv(9)] and r2 = order_readyD[OF riv(10)]
  obtain s1a S1 where 1: "isValid s1a" "productStock s1a"
    "steps E c (tcp_working fd1 t1 (run_steps (rest_of_order E fd1 root1 ?b1) s1a) S1 c)"
    "state_ok E Next S1" "db_reliable ?M (inventory S1)" "tables S1 = tables ?S" "sent S1 = sent ?S @ [Write fd1 tcp_ack]"
    "storedOrders (orders S1) = storedOrders (orders ?S) @ [?b1]" "stock_at ?M (inventory S1) = stock_at ?M (inventory ?S)"
    by (rule tcp_order_checked[OF riv(5) refl riv(1-3,7,9)]) (use riv(13) r2(8) in simp, rule that)
  let ?p1 = "run_steps (rest_of_order E fd1 root1 ?b1) s1a"
  let ?c1 = "tcp_working fd1 t1 ?p1 S1 c"
  have ready1: "order_ready ?M (inventory S1) r2 st a" using same_stock(1)[OF 1(9)] riv(10) by simp
  have fits1: "total_ordered (env_json E) (o_product_name r2) (storedOrders (orders S1)) + o_quantity r2 \<le> INT_MAX"
    using riv(13) total_ordered_order[OF riv(7) r1(7,8)] by (simp add: 1(8) riv(12))
  obtain s2a S2 where 2: "isValid s2a" "productStock s2a"
    "steps E ?c1 (tcp_working fd2 t2 (run_steps (rest_of_order E fd2 root2 ?b2) s2a) S2 ?c1)"
    "state_ok E Next S2" "db_reliable ?M (inventory S2)" "tables S2 = tables S1" "sent S2 = sent S1 @ [Write fd2 tcp_ack]"
    "storedOrders (orders S2) = storedOrders (orders S1) @ [?b2]" "stock_at ?M (inventory S2) = stock_at ?M (inventory S1)"
    by (rule tcp_order_checked[OF tcp_idle_other[OF riv(4,6)] tcp_working_server[symmetric] riv(1) 1(4,5) riv(8)
          ready1 fits1]) (rule that)
  have "tcp_working fd2 t2 q S2 ?c1 = both_working fd1 t1 ?p1 fd2 t2 q S2 c" for q
    unfolding both_swap[OF riv(4)] by (simp add: both_working_def tcp_working_def)
  with rtranclp_trans[OF 1(3) 2(3)] show ?thesis
    by (intro that[OF 1(1,2) 2(1,2) _ 2(4,5)]) (simp_all add: 1(6-9) 2(6-9))
qed

section \<open>Two orders for the same units\<close>

text \<open>
  C23: the stock check does not reserve anything.  Two connected clients order from the same hub,
  each no more than the hub holds, together more.  There is a schedule in which both orders pass the
  check, and then the second is transferred and confirmed; the first is not transferred and its
  client gets the acknowledgement and nothing else, but it stays in the stored orders and is
  forwarded like the other.
\<close>

theorem concurrent_orders_oversell:
  assumes "rival_orders E c fd1 t1 s1 bytes1 root1 r1 p1 fd2 t2 s2 bytes2 root2 r2 p2 Hub a"
    and "o_destination_type r2 = ''external''" and "a < o_quantity r1 + o_quantity r2"
  shows "\<exists>c' s1' s2'. steps E c c' \<and> crashed c' = None
    \<and> tcp c' fd1 = Some (t1\<lparr>t_activity := Waiting s1'\<rparr>) \<and> tcp c' fd2 = Some (t2\<lparr>t_activity := Waiting s2'\<rparr>)
    \<and> stock_at (env_mysql E) (inventory (server c')) = moved_stock (env_mysql E) r2 (inventory (server c))
    \<and> storedOrders (orders (server c')) = storedOrders (orders (server c)) @ [recv_buffer 2048 bytes1, recv_buffer 2048 bytes2]
    \<and> sent (server c') = sent (server c) @
        [Write fd1 ''TCP Server received your message.'', Write fd2 ''TCP Server received your message.'',
         Write fd2 ''Successful order!''] @
        forward_events (tables (server c)) (forward_text r2) (o_source_location r2) (map c_tolower p2) @
        forward_events (tables (server c)) (forward_text r1) (o_source_location r1) (map c_tolower p1)"
proof -
  let ?M = "env_mysql E" and ?b1 = "recv_buffer 2048 bytes1" and ?b2 = "recv_buffer 2048 bytes2"
  note riv = rival_ordersD[OF assms(1)]
  note r1 = order_readyD[OF riv(9)] and r2 = order_readyD[OF riv(10)]
  have hub: "o_source_type r1 = ''hub''" using r1(3) by (simp add: site_of_def split: if_splits)
  from both_checked[OF assms(1)] obtain s1a s2a S2 where 2: "isValid s1a" "productStock s1a" "isValid s2a" "productStock s2a"
    "steps E c (both_working fd1 t1 (run_steps (rest_of_order E fd1 root1 ?b1) s1a)
       fd2 t2 (run_steps (rest_of_order E fd2 root2 ?b2) s2a) S2 c)"
    "state_ok E Next S2" "db_reliable ?M (inventory S2)" "tables S2 = tables (server c)"
    "sent S2 = sent (server c) @ [Write fd1 tcp_ack, Write fd2 tcp_ack]"
    "storedOrders (orders S2) = storedOrders (orders (server c)) @ [?b1, ?b2]"
    "stock_at ?M (inventory S2) = stock_at ?M (inventory (server c))" by metis
  have ready2: "order_ready ?M (inventory S2) r2 Hub a" using same_stock(1)[OF 2(11)] riv(10) by simp
  obtain s2b S3 where 3: "run_stages (rest_stages E fd2 root2 ?b2) (s2a, S2) = (Next, s2b, S3)"
    "sent S3 = sent S2 @ Write fd2 ''Successful order!'' #
       forward_events (tables S2) (forward_text r2) (o_source_location r2) (map c_tolower p2)"
    "tables S3 = tables S2" "orders S3 = orders S2" "db_ok ?M (inventory S3)"
    "stock_at ?M (inventory S3) = moved_stock ?M r2 (inventory S2)"
    by (rule hub_order_done[OF riv(1,8) 2(3,4) state_ok_db[OF 2(6)] 2(7) ready2]) (rule that)
  have moved: "stock_at ?M (inventory S3) = moved_stock ?M r2 (inventory (server c))"
    using 3(6) same_stock(2)[OF 2(11)] by simp
  have left: "stock_at ?M (inventory S3) Hub (o_source_location r1) (o_product_name r1) = Some (a - o_quantity r2)"
    using moved_stock_out[OF _ r2(3) _ r2(4)] riv(2,11,12) assms(2) unfolding moved
    by (simp add: state_ok_def db_ok_def site_of_def)
  obtain s1b S4 where 4: "run_stages (rest_stages E fd1 root1 ?b1) (s1a, S3) = (Next, s1b, S4)"
    "sent S4 = sent S3 @ forward_events (tables S3) (forward_text r1) (o_source_location r1) (map c_tolower p1)"
    "orders S4 = orders S3" "stock_at ?M (inventory S4) = stock_at ?M (inventory S3)"
    by (rule hub_order_refused[OF riv(1,7) 2(1,2) 3(5) hub r1(8) left]) (use assms(3) in simp, rule that)
  let ?c' = "tcp_waiting fd1 t1 s1b S4 (tcp_waiting fd2 t2 s2b S4 c)"
  note 2(5)
  also note both_second[OF riv(4) rest_done[OF 3(1)]]
  also note both_first[OF rest_done[OF 4(1)]]
  also note both_return[OF riv(4)]
  finally have "steps E c ?c'" .
  then show ?thesis
    using riv(4)
    by (intro exI[of _ ?c'] exI[of _ s1b] exI[of _ s2b])
      (simp add: tcp_waiting_def 2 3 4 moved[unfolded 3(6)])
qed

section \<open>Two re-stocks of one warehouse\<close>

text \<open>A re-stock cut after its read: what is left of it, once the level \<open>n\<close> is known.\<close>

definition restock_rest :: "'j jsoncpp \<Rightarrow> int \<Rightarrow> string \<Rightarrow> int \<Rightarrow> string \<Rightarrow> int \<Rightarrow> (bool \<times> string) program" where
  "restock_rest J l p i e n =
     (if n = - 1 then Return (False, e)
      else attempt (int32_sub MAX_CAPACITY n) (\<lambda>k.
        if n \<le> RESTOCK_THRESHOLD then
          Act (Change_stock Warehouse l p k) (\<lambda>u.
          if u = 1 then
            attempt (generateAlert J ''Re-stock Alert: '' ''Stock replenished to full capacity (1000 units)'' i p)
              (\<lambda>alert. Return (True, alert))
          else Return (False, e))
        else Return (True, e)))"

lemma reStock_steps_reads:
  assumes "order_reads J root r" and "o_source_type r = ''warehouse''" and "stoi (o_product_id r) = Inr i"
  shows "reStock_steps J root e = Act (Read_stock Warehouse (o_source_location r) (o_product_name r))
    (restock_rest J (o_source_location r) (o_product_name r) i e)"
proof -
  obtain sr where "json_path J root [''general_info'', ''source''] = Inr sr"
    "json_string J sr [''type''] = Inr (o_source_type r)"
    "json_string J sr [''location''] = Inr (to_string (o_source_location r))"
    by (rule warehouse_reads[OF assms(1)]) (rule that)
  then show ?thesis
    using assms order_readsD[OF assms(1)] stoi_to_string[OF order_readsD(10)[OF assms(1)]]
    by (simp add: reStock_steps_def restock_rest_def[abs_def])
qed

lemma reStock_reliable:
  "db_reliable M d \<Longrightarrow> on_value (\<lambda>v. db_reliable M (snd v)) (reStock J M root e d)"
  unfolding reStock_def case_prod_unfold Let_def
  by (intro on_value_intros) (simp_all add: warehouse.get_reliable warehouse.upd_reliable)

text \<open>The second addition of the same difference.\<close>

lemma restock_rest_overfills:
  assumes "jsoncpp_ok (env_json E)" and "db_ok (env_mysql E) (inventory S)" and "db_reliable (env_mysql E) (inventory S)"
    and "stock_at (env_mysql E) (inventory S) Warehouse l p = Some 1000" and "0 \<le> n" and "n \<le> 100"
  obtains t S' where "run E (restock_rest (env_json E) l p i e n) S = (Inr (True, t), S')"
    and "stock_at (env_mysql E) (inventory S') Warehouse l p = Some (2000 - n)" and "sent S' = sent S"
    and "alert_text (env_json E) ''Re-stock Alert: '' ''Stock replenished to full capacity (1000 units)'' i p t"
proof -
  let ?M = "env_mysql E"
  let ?u = "update_at ?M Warehouse l p (1000 - n) (inventory S)"
  obtain t where t: "generateAlert (env_json E) ''Re-stock Alert: '' ''Stock replenished to full capacity (1000 units)'' i p = Inr t"
    "alert_text (env_json E) ''Re-stock Alert: '' ''Stock replenished to full capacity (1000 units)'' i p t"
    using generateAlert_text[OF assms(1)] by blast
  have one: "fst ?u = 1"
    using update_at_succeeds(1)[OF assms(2,3,4), of "1000 - n"] assms(5,6) by simp
  have "stock_at ?M (snd ?u) = move ?M Warehouse l p (1000 - n) (stock_at ?M (inventory S))"
    using one by (cases rule: update_at_cases[OF assms(2), of Warehouse l p "1000 - n"]) simp_all
  moreover have "collation_ok ?M" using assms(2) by (simp add: db_ok_def)
  ultimately have "stock_at ?M (snd ?u) Warehouse l p = Some (2000 - n)"
    using assms(4) by (simp add: move_apply collation_refl)
  moreover have "run E (restock_rest (env_json E) l p i e n) S = (Inr (True, t), S\<lparr>inventory := snd ?u\<rparr>)"
    using assms(5,6) one t(1)
    by (simp add: restock_rest_def capacities int32_sub_def in_int32_def on_inventory_def)
  ultimately show ?thesis by (intro that[of t "S\<lparr>inventory := snd ?u\<rparr>"]) (simp_all add: t(2))
qed

text \<open>A warehouse order between its transfer and its re-stock.\<close>

lemma warehouse_order_moved:
  assumes "quiet E" and "jsoncpp_ok (env_json E)" and "db_ok (env_mysql E) (inventory S)"
    and "db_reliable (env_mysql E) (inventory S)" and "isValid s" "productStock s"
    and "order_reads (env_json E) root r" and "stoi (o_product_id r) = Inr i"
    and "order_ready (env_mysql E) (inventory S) r Warehouse a" and "o_destination_type r = ''external''"
  obtains s' S' where "run_stages [transfer_stage E (tcp_reply E fd) root, low_stock_stage E (tcp_reply E fd) root] (s, S) = (Next, s', S')"
    and "db_ok (env_mysql E) (inventory S')" and "db_reliable (env_mysql E) (inventory S')"
    and "stock_at (env_mysql E) (inventory S') Warehouse (o_source_location r) (o_product_name r) = Some (a - o_quantity r)"
proof -
  let ?M = "env_mysql E" and ?R = "tcp_reply E fd"
  note ready = order_readyD[OF assms(9)]
  have wh: "o_source_type r = ''warehouse''" using ready(3) by (simp add: site_of_def split: if_splits)
  obtain d where d: "transfer_stage E ?R root (s, S) = reply_with ?R ''Successful order!'' (s, S\<lparr>inventory := d\<rparr>)"
    "db_ok ?M d" "db_reliable ?M d" "stock_at ?M d = moved_stock ?M r (inventory S)"
    by (rule transfer_stage_succeeds[OF assms(7,3,4,9,5,6)])
  let ?S1 = "said [Write fd ''Successful order!''] (S\<lparr>inventory := d\<rparr>)"
  have left: "stock_at ?M d Warehouse (o_source_location r) (o_product_name r) = Some (a - o_quantity r)"
    using moved_stock_out[OF _ ready(3) _ ready(4)] assms(3,10) unfolding d(4) by (simp add: db_ok_def site_of_def)
  have pre: "db_ok ?M (inventory ?S1)" "db_reliable ?M (inventory ?S1)"
    "stock_at ?M (inventory ?S1) Warehouse (o_source_location r) (o_product_name r) = Some (a - o_quantity r)"
    using d(2,3) left by simp_all
  obtain t where t: "low_stock_stage E ?R root (s, ?S1) =
      (let x = (s\<lparr>lowStock := a - o_quantity r \<le> 200, alertOut := t\<rparr>, ?S1\<lparr>inventory := db_tick (inventory ?S1)\<rparr>)
       in if a - o_quantity r \<le> 200 then reply_with ?R t x else (Next, x))"
    by (rule low_stock_stage_warehouse[OF assms(2) pre(1,2) assms(7) wh assms(8) pre(3)])
  let ?S2 = "said (if a - o_quantity r \<le> 200 then [Write fd t] else []) (?S1\<lparr>inventory := db_tick d\<rparr>)"
  have "run_stages [transfer_stage E ?R root, low_stock_stage E ?R root] (s, S) =
      (Next, s\<lparr>lowStock := a - o_quantity r \<le> 200, alertOut := t\<rparr>, ?S2)"
    by (simp add: d(1) tcp_reply_quiet[OF assms(1)] t Let_def)
  with d(2,3) left show ?thesis by (intro that) (assumption, simp_all add: db_reliable_tick)
qed

lemma warehouse_restocked:
  assumes "quiet E" and "jsoncpp_ok (env_json E)" and "db_ok (env_mysql E) (inventory S)"
    and "db_reliable (env_mysql E) (inventory S)" and "order_reads (env_json E) root r"
    and "o_source_type r = ''warehouse''" and "stoi (o_product_id r) = Inr i"
    and "stock_at (env_mysql E) (inventory S) Warehouse (o_source_location r) (o_product_name r) = Some n" and "n \<le> 100"
  obtains s' S' t where "run_stages [restock_stage E (tcp_reply E fd) root] (s, S) = (Next, s', S')"
    and "db_ok (env_mysql E) (inventory S')" and "db_reliable (env_mysql E) (inventory S')"
    and "stock_at (env_mysql E) (inventory S') Warehouse (o_source_location r) (o_product_name r) = Some 1000"
    and "sent S' = sent S @ [Write fd t]"
    and "alert_text (env_json E) ''Re-stock Alert: '' ''Stock replenished to full capacity (1000 units)'' i (o_product_name r) t"
proof -
  obtain t d where t: "reStock (env_json E) (env_mysql E) root (alertOut s) (inventory S) = Inr ((True, t), d)"
    "stock_at (env_mysql E) d Warehouse (o_source_location r) (o_product_name r) = Some 1000"
    "alert_text (env_json E) ''Re-stock Alert: '' ''Stock replenished to full capacity (1000 units)'' i (o_product_name r) t"
    using reStock_level[OF assms(2-9), of "alertOut s"] by blast
  have "db_ok (env_mysql E) d" "db_reliable (env_mysql E) d"
    using on_valueD[OF reStock_ok[OF assms(3)] t(1)] on_valueD[OF reStock_reliable[OF assms(4)] t(1)] by simp_all
  moreover have "run_stages [restock_stage E (tcp_reply E fd) root] (s, S) =
      (Next, s\<lparr>reStocked := True, alertOut := t\<rparr>, said [Write fd t] (S\<lparr>inventory := d\<rparr>))"
    by (simp add: restock_stage_def t(1) Let_def tcp_reply_quiet[OF assms(1)])
  ultimately show ?thesis using t(2,3) by (intro that) (assumption, simp_all)
qed

text \<open>The thread that has read the level, and goes on once the other has filled the warehouse.\<close>

definition restock_end :: "replier \<Rightarrow> handler list \<Rightarrow> session \<Rightarrow> bool \<times> string \<Rightarrow> (flow \<times> session) program" where
  "restock_end replier hs s v = bind_program
     (let s = s\<lparr>reStocked := fst v, alertOut := snd v\<rparr>
      in if fst v then reply_steps replier (alertOut s) s else Return (Next, s))
     (\<lambda>(f, s). if f = Next then run_steps hs s else Return (f, s))"

lemma restock_cut:
  "run_steps (restock_steps J replier root # hs) s =
     bind_program (reStock_steps J root (alertOut s)) (restock_end replier hs s)"
  by (simp add: restock_steps_def bind_assoc restock_end_def[abs_def] split_beta)

lemma restock_read:
  assumes "order_reads (env_json E) root r" and "o_source_type r = ''warehouse''" and "stoi (o_product_id r) = Inr i"
    and "db_reliable (env_mysql E) (inventory S)"
    and "stock_at (env_mysql E) (inventory S) Warehouse (o_source_location r) (o_product_name r) = Some n"
  shows "steps E (tcp_working fd t (run_steps (restock_steps (env_json E) (tcp_reply_steps fd) root # hs) s) S x)
    (tcp_working fd t
      (bind_program (restock_rest (env_json E) (o_source_location r) (o_product_name r) i (alertOut s) n)
        (restock_end (tcp_reply_steps fd) hs s))
      (S\<lparr>inventory := db_tick (inventory S)\<rparr>) x)"
proof -
  let ?k = "\<lambda>n. bind_program (restock_rest (env_json E) (o_source_location r) (o_product_name r) i (alertOut s) n)
        (restock_end (tcp_reply_steps fd) hs s)"
  have read: "perform E (Read_stock Warehouse (o_source_location r) (o_product_name r)) S =
      (Inr n, S\<lparr>inventory := db_tick (inventory S)\<rparr>)"
    using get_at_value[OF assms(4), of Warehouse] assms(5)
    by (simp add: on_inventory_def get_at_state del: get_at.simps)
  have "run_steps (restock_steps (env_json E) (tcp_reply_steps fd) root # hs) s =
      Act (Read_stock Warehouse (o_source_location r) (o_product_name r)) ?k"
    by (simp add: restock_cut reStock_steps_reads[OF assms(1-3)] del: run_steps.simps)
  with tcp_worker.acts[OF read, of fd t ?k x] show ?thesis by simp
qed

lemma restock_written:
  assumes "quiet E" and "run E p S = (Inr (True, u), S')"
  obtains q where "\<And>x. steps E (tcp_working fd t (bind_program p (restock_end (tcp_reply_steps fd) hs s)) S x)
    (tcp_working fd t q (said [Write fd u] S') x)"
proof -
  let ?s = "s\<lparr>reStocked := True, alertOut := u\<rparr>"
  let ?k = "\<lambda>(f, s). if f = Next then run_steps hs s else Return (f, s)"
  have "run E (reply_steps (tcp_reply_steps fd) u ?s) S' = (Inr (Next, ?s), said [Write fd u] S')"
    by (simp add: reply_steps_def tcp_reply_steps_def net_send_quiet[OF assms(1)])
  from tcp_worker.solo[OF this, of fd t ?k]
  have "steps E (tcp_working fd t (restock_end (tcp_reply_steps fd) hs s (True, u)) S' x)
      (tcp_working fd t (?k (Next, ?s)) (said [Write fd u] S') x)" for x
    by (simp add: restock_end_def)
  with tcp_worker.solo[OF assms(2), of fd t "restock_end (tcp_reply_steps fd) hs s"] show ?thesis
    by (intro that) (blast intro: rtranclp_trans)
qed

text \<open>Both orders have been transferred, and both threads are about to re-stock.\<close>

abbreviation restock_on :: "'j env \<Rightarrow> int \<Rightarrow> 'j \<Rightarrow> string \<Rightarrow> handler list" where
  "restock_on E fd root buffer \<equiv>
     [restock_steps (env_json E) (tcp_reply_steps fd) root, process_steps buffer ''TCP'']"

lemma both_moved:
  assumes "rival_orders E c fd1 t1 s1 bytes1 root1 r1 p1 fd2 t2 s2 bytes2 root2 r2 p2 Warehouse a"
    and "o_destination_type r1 = ''external''" and "o_destination_type r2 = ''external''"
    and "jsoncpp_ok (env_json E)" and "stoi (o_product_id r1) = Inr i1" and "stoi (o_product_id r2) = Inr i2"
    and "o_quantity r1 + o_quantity r2 \<le> a"
  obtains s1' s2' S where
    "steps E c (both_working fd1 t1 (run_steps (restock_on E fd1 root1 (recv_buffer 2048 bytes1)) s1')
       fd2 t2 (run_steps (restock_on E fd2 root2 (recv_buffer 2048 bytes2)) s2') S c)"
    "db_ok (env_mysql E) (inventory S)" "db_reliable (env_mysql E) (inventory S)"
    "stock_at (env_mysql E) (inventory S) Warehouse (o_source_location r2) (o_product_name r2)
       = Some (a - o_quantity r1 - o_quantity r2)"
proof -
  let ?M = "env_mysql E" and ?b1 = "recv_buffer 2048 bytes1" and ?b2 = "recv_buffer 2048 bytes2" and ?J = "env_json E"
  note riv = rival_ordersD[OF assms(1)]
  note reads = order_messageD(5)[OF riv(7)] order_messageD(5)[OF riv(8)]
  from both_checked[OF assms(1)] obtain s1a s2a S2 where 2: "isValid s1a" "productStock s1a" "isValid s2a" "productStock s2a"
    "steps E c (both_working fd1 t1 (run_steps (rest_of_order E fd1 root1 ?b1) s1a)
       fd2 t2 (run_steps (rest_of_order E fd2 root2 ?b2) s2a) S2 c)"
    "state_ok E Next S2" "db_reliable ?M (inventory S2)"
    "stock_at ?M (inventory S2) = stock_at ?M (inventory (server c))" by metis
  have ready1: "order_ready ?M (inventory S2) r1 Warehouse a" using same_stock(1)[OF 2(8)] riv(9) by simp
  obtain s1b S3 where 3: "run_stages [transfer_stage E (tcp_reply E fd1) root1, low_stock_stage E (tcp_reply E fd1) root1]
      (s1a, S2) = (Next, s1b, S3)" "db_ok ?M (inventory S3)" "db_reliable ?M (inventory S3)"
    "stock_at ?M (inventory S3) Warehouse (o_source_location r2) (o_product_name r2) = Some (a - o_quantity r1)"
    by (rule warehouse_order_moved[OF riv(1) assms(4) state_ok_db[OF 2(6)] 2(7) 2(1,2) reads(1) assms(5) ready1 assms(2),
          unfolded riv(11,12)]) (rule that)
  have ready2: "order_ready ?M (inventory S3) r2 Warehouse (a - o_quantity r1)"
    using order_ready_left[OF riv(10) _ 3(4)] assms(3,7) by (simp add: site_of_def)
  obtain s2b S4 where 4: "run_stages [transfer_stage E (tcp_reply E fd2) root2, low_stock_stage E (tcp_reply E fd2) root2]
      (s2a, S3) = (Next, s2b, S4)" "db_ok ?M (inventory S4)" "db_reliable ?M (inventory S4)"
    "stock_at ?M (inventory S4) Warehouse (o_source_location r2) (o_product_name r2) = Some (a - o_quantity r1 - o_quantity r2)"
    by (rule warehouse_order_moved[OF riv(1) assms(4) 3(2,3) 2(3,4) reads(2) assms(6) ready2 assms(3)]) (rule that)
  let ?low = "\<lambda>fd root. [transfer_steps ?J (tcp_reply_steps fd) root, low_stock_steps ?J (tcp_reply_steps fd) root]"
  have low: "list_all2 (implements E) (?low fd root)
      [transfer_stage E (tcp_reply E fd) root, low_stock_stage E (tcp_reply E fd) root]"
    and cut: "rest_of_order E fd root b = ?low fd root @ restock_on E fd root b"
    for fd root b by (simp_all add: implements_intros sends_tcp rest_of_order_def)
  note first_moved = rtranclp_trans[OF 2(5)[unfolded cut] both_first[OF tcp_worker.work_through[OF low 3(1)]]]
  show ?thesis
    by (rule that[OF rtranclp_trans[OF first_moved both_second[OF riv(4) tcp_worker.work_through[OF low 4(1)]]] 4(2-4)])
qed

text \<open>
  C24: a re-stock reads the level and then adds the difference to 1000, in two calls.  Two connected
  clients order from the same warehouse what leaves it with \<open>n\<close> units, 100 or fewer.  There is a
  schedule in which both threads read \<open>n\<close> and both add \<open>1000 - n\<close>: the warehouse ends with
  \<open>2000 - n\<close> units, and both clients are told that it was filled up to 1000.
\<close>

theorem concurrent_restocks_overfill:
  assumes "rival_orders E c fd1 t1 s1 bytes1 root1 r1 p1 fd2 t2 s2 bytes2 root2 r2 p2 Warehouse a"
    and "o_destination_type r1 = ''external''" and "o_destination_type r2 = ''external''"
    and "jsoncpp_ok (env_json E)" and "stoi (o_product_id r1) = Inr i1" and "stoi (o_product_id r2) = Inr i2"
    and "o_quantity r1 + o_quantity r2 \<le> a" and "a - o_quantity r1 - o_quantity r2 \<le> 100"
  shows "\<exists>c' u1 u2. steps E c c' \<and> crashed c' = None
    \<and> stock_at (env_mysql E) (inventory (server c')) Warehouse (o_source_location r1) (o_product_name r1)
        = Some (2000 - (a - o_quantity r1 - o_quantity r2))
    \<and> Write fd1 u1 \<in> set (sent (server c')) \<and> Write fd2 u2 \<in> set (sent (server c'))
    \<and> alert_text (env_json E) ''Re-stock Alert: '' ''Stock replenished to full capacity (1000 units)''
        i1 (o_product_name r1) u1
    \<and> alert_text (env_json E) ''Re-stock Alert: '' ''Stock replenished to full capacity (1000 units)''
        i2 (o_product_name r2) u2"
proof -
  let ?M = "env_mysql E" and ?J = "env_json E" and ?b1 = "recv_buffer 2048 bytes1" and ?b2 = "recv_buffer 2048 bytes2"
  let ?l = "o_source_location r2" and ?p = "o_product_name r2" and ?n = "a - o_quantity r1 - o_quantity r2"
  note riv = rival_ordersD[OF assms(1)]
  note same = riv(11,12)
  note reads = order_messageD(5)[OF riv(7)] order_messageD(5)[OF riv(8)]
  have wh: "o_source_type r1 = ''warehouse''" "o_source_type r2 = ''warehouse''"
    using order_readyD(3)[OF riv(9)] order_readyD(3)[OF riv(10)] by (simp_all add: site_of_def split: if_splits)
  obtain s1b s2b S4 where 4: "steps E c (both_working fd1 t1 (run_steps (restock_on E fd1 root1 ?b1) s1b)
       fd2 t2 (run_steps (restock_on E fd2 root2 ?b2) s2b) S4 c)" "db_ok ?M (inventory S4)" "db_reliable ?M (inventory S4)"
    "stock_at ?M (inventory S4) Warehouse ?l ?p = Some ?n"
    by (rule both_moved[OF assms(1-7)]) (rule that)
  let ?S5 = "S4\<lparr>inventory := db_tick (inventory S4)\<rparr>"
  have S5: "db_ok ?M (inventory ?S5)" "db_reliable ?M (inventory ?S5)" "stock_at ?M (inventory ?S5) Warehouse ?l ?p = Some ?n"
    using 4 by (simp_all add: db_reliable_tick)
  obtain s2c S6 u2 where 6: "run_stages [restock_stage E (tcp_reply E fd2) root2] (s2b, ?S5) = (Next, s2c, S6)"
    "db_ok ?M (inventory S6)" "db_reliable ?M (inventory S6)" "stock_at ?M (inventory S6) Warehouse ?l ?p = Some 1000"
    "sent S6 = sent ?S5 @ [Write fd2 u2]"
    "alert_text ?J ''Re-stock Alert: '' ''Stock replenished to full capacity (1000 units)'' i2 ?p u2"
    by (rule warehouse_restocked[OF riv(1) assms(4) S5(1,2) reads(2) wh(2) assms(6) S5(3) assms(8)]) (rule that)
  obtain u1 S7 where 7: "run E (restock_rest ?J ?l ?p i1 (alertOut s1b) ?n) S6 = (Inr (True, u1), S7)"
    "stock_at ?M (inventory S7) Warehouse ?l ?p = Some (2000 - ?n)" "sent S7 = sent S6"
    "alert_text ?J ''Re-stock Alert: '' ''Stock replenished to full capacity (1000 units)'' i1 ?p u1"
    by (rule restock_rest_overfills[OF assms(4) 6(2,3,4)]) (use assms(7,8) in \<open>simp_all, blast\<close>)
  obtain q where q: "\<And>x. steps E (tcp_working fd1 t1 (bind_program (restock_rest ?J ?l ?p i1 (alertOut s1b) ?n)
      (restock_end (tcp_reply_steps fd1) [process_steps ?b1 ''TCP''] s1b)) S6 x) (tcp_working fd1 t1 q (said [Write fd1 u1] S7) x)"
    by (rule restock_written[OF riv(1) 7(1)]) (rule that)
  have re: "list_all2 (implements E) [restock_steps ?J (tcp_reply_steps fd2) root2] [restock_stage E (tcp_reply E fd2) root2]"
    by (simp add: implements_intros sends_tcp)
  note first_read = rtranclp_trans[OF 4(1) both_first[OF restock_read[OF reads(1) wh(1) assms(5) 4(3) 4(4)[folded same], unfolded same]]]
  note second_filled = rtranclp_trans[OF first_read both_second[OF riv(4)
      tcp_worker.work_through[OF re 6(1), where rest = "[process_steps ?b2 ''TCP'']", unfolded append_Cons append_Nil]]]
  let ?c' = "both_working fd1 t1 q fd2 t2 (run_steps [process_steps ?b2 ''TCP''] s2c) (said [Write fd1 u1] S7) c"
  have "steps E c ?c'"
    by (rule rtranclp_trans[OF second_filled both_first[OF q]])
  moreover have "crashed ?c' = None" "server ?c' = said [Write fd1 u1] S7"
    by (simp_all add: both_working_def tcp_working_def)
  moreover have "Write fd1 u1 \<in> set (sent (said [Write fd1 u1] S7))" "Write fd2 u2 \<in> set (sent (said [Write fd1 u1] S7))"
    by (simp_all add: 6(5) 7(3))
  moreover have "stock_at ?M (inventory (said [Write fd1 u1] S7)) Warehouse ?l ?p = Some (2000 - ?n)"
    using 7(2) by simp
  ultimately show ?thesis
    unfolding same using 6(6) 7(4) by metis
qed

section \<open>Witnesses\<close>

text \<open>Two clients order 20 units each from a hub that holds 30, and from a warehouse that holds 120.\<close>

definition client_thread :: "int \<Rightarrow> tcp_thread" where
  "client_thread pid = \<lparr>t_addr = sample_addr 5001, t_pid = Some pid, t_activity = Waiting new_session\<rparr>"

definition two_clients :: "int \<Rightarrow> system" where
  "two_clients q = \<lparr>udp = Waiting new_session, tcp = [4 \<mapsto> client_thread 88, 5 \<mapsto> client_thread 99],
     leaving = [], server = sample_server q, clock = 0, last_cleanup = 0, crashed = None\<rparr>"

abbreviation delivery :: "string \<Rightarrow> sample_json" where
  "delivery source \<equiv> sample_order source 1 ''external'' 2 ''request'' ''2'' ''Water'' 20"
abbreviation delivery_fields :: "string \<Rightarrow> order" where
  "delivery_fields source \<equiv> sample_order_fields source 1 ''external'' 2 ''request'' ''2'' ''Water'' 20"

lemma two_clients_simps [simp]:
  "server (two_clients q) = sample_server q" "tcp (two_clients q) 4 = Some (client_thread 88)"
  "tcp (two_clients q) 5 = Some (client_thread 99)"
  by (simp_all add: two_clients_def)

lemma two_clients_idle:
  "tcp_idle (two_clients q) 4 (client_thread 88) new_session" "tcp_idle (two_clients q) 5 (client_thread 99) new_session"
  by (simp_all add: tcp_idle_def two_clients_def client_thread_def)

lemma rival_sample:
  assumes "order_ready sample_mysql (seed_db q) (delivery_fields source) st q" and "0 \<le> q" "q \<le> INT_MAX"
  shows "rival_orders (sample_env (delivery source)) (two_clients q)
    4 (client_thread 88) new_session ''{A'' (delivery source) (delivery_fields source) ''TCP''
    5 (client_thread 99) new_session ''{A'' (delivery source) (delivery_fields source) ''TCP'' st q"
  using assms order_message_sample[of 1 2 20 source "''external''" "''request''" "''2''" "''Water''"]
  by (simp add: rival_orders_def quiet_sample state_ok_sample two_clients_idle sample_facts)

lemma deliveries_ready:
  "order_ready sample_mysql (seed_db 30) (delivery_fields ''hub'') Hub 30"
  "order_ready sample_mysql (seed_db 120) (delivery_fields ''warehouse'') Warehouse 120"
  by code_simp+

theorem concurrent_orders_oversell_witness:
  "\<exists>c'. steps (sample_env (delivery ''hub'')) (two_clients 30) c'
     \<and> length (storedOrders (orders (server c'))) = 2
     \<and> stock_at sample_mysql (inventory (server c')) Hub 1 ''Water'' = Some 10"
proof -
  have "moved_stock sample_mysql (delivery_fields ''hub'') (seed_db 30) Hub 1 ''Water'' = Some 10" by code_simp
  with concurrent_orders_oversell[OF rival_sample[OF deliveries_ready(1)]] show ?thesis
    by (fastforce simp: empty_store_def)
qed

theorem concurrent_restocks_overfill_witness:
  "\<exists>c'. steps (sample_env (delivery ''warehouse'')) (two_clients 120) c'
     \<and> stock_at sample_mysql (inventory (server c')) Warehouse 1 ''Water'' = Some 1920"
  using concurrent_restocks_overfill[OF rival_sample[OF deliveries_ready(2)]] stoi_2
  by (fastforce simp: jsoncpp_ok_sample)

end
