(* ===== verification/Server_Descriptors.thy ===== *)
theory Server_Descriptors
  imports Server_Schedules
begin

text \<open>
  Between \<open>close\<close> and \<open>erase\<close>.  The TCP loop closes the descriptor of a connection that has ended and
  erases its client afterwards; \<open>accept\<close> may return the same descriptor in between.  An order for the
  client that has left is then written to the client that has just connected.
\<close>

section \<open>The window between close and erase\<close>

text \<open>A connection that has announced its process id hangs up, and another client takes its descriptor.\<close>

definition replaced :: "int \<Rightarrow> int \<Rightarrow> sockaddr_in \<Rightarrow> system \<Rightarrow> system" where
  "replaced fd pid other c = c\<lparr>leaving := pid # leaving c,
     tcp := (tcp c)(fd \<mapsto> \<lparr>t_addr = other, t_pid = None, t_activity = Waiting new_session\<rparr>),
     server := (server c)\<lparr>sent := sent (server c) @ [Close fd]\<rparr>\<rparr>"

lemma replaced_reached:
  assumes "crashed c = None" and "tcp c fd = Some t" and "t_activity t = Waiting s" and "t_pid t = Some pid"
    and "connectToDb db_port accepts = Inr u"
  shows "steps E c (replaced fd pid other c)"
proof -
  let ?c1 = "tcp_goes fd (tcp_receive E (clock c) fd Read_error t s (server c)) (departs t Read_error c)"
  have first: "step E c ?c1" by (rule step.stream[OF assms(1-3)])
  have c1: "crashed ?c1 = None" "tcp ?c1 fd = None"
    using assms(1,4) by (simp_all add: tcp_receive_def tcp_goes_def)
  have "accept_step db_port accepts fd other ?c1 = replaced fd pid other c"
    using assms(4,5) by (simp add: accept_step_def tcp_receive_def tcp_goes_def departs_def replaced_def)
  with step.accept[OF c1] have "step E ?c1 (replaced fd pid other c)" by metis
  with first show ?thesis by auto
qed

section \<open>Property\<close>

text \<open>
  C39: a TCP client hangs up and another one connects on the freed descriptor before the server has
  erased the first: an order from a hub whose number is that of the first client is carried out, and
  its forwarded text is written to the second one, which has not even announced itself.
\<close>

theorem order_forwarded_to_another_client:
  assumes "crashed c = None" and "udp c = Waiting s"
    and "tcp c fd = Some t" and "t_activity t = Waiting before" and "t_pid t = Some pid"
    and "connectToDb db_port accepts = Inr u"
    and "quiet E" and "state_ok E Next (server c)" and "db_reliable (env_mysql E) (inventory (server c))"
    and "order_message (env_json E) (recv_buffer 2048 bytes) root r p" and "map c_tolower p = ''tcp''"
    and "order_ready (env_mysql E) (inventory (server c)) r Hub a"
    and "total_ordered (env_json E) (o_product_name r) (storedOrders (orders (server c))) + o_quantity r \<le> INT_MAX"
    and "findClientById (o_source_location r) ''tcp'' (tables (server c)) = Some ci" and "socket_fd ci = fd"
  shows "\<exists>c'. steps E c c' \<and> crashed c' = None \<and> pid \<in> set (leaving c')
    \<and> tcp c' fd = Some \<lparr>t_addr = other, t_pid = None, t_activity = Waiting new_session\<rparr>
    \<and> sent (server c') = sent (server c) @
        [Close fd, Sendto cli ''UDP Server received your message.'', Sendto cli ''Successful order!'',
         Write fd (''FORWARDED_MESSAGE: '' @ o_action_type r @ '' '' @ to_string (o_quantity r) @ '' '' @ o_product_name r)]"
proof -
  let ?c = "replaced fd pid other c"
  have c: "crashed ?c = None" "udp ?c = Waiting s" using assms(1,2) by (simp_all add: replaced_def)
  have S: "tables (server ?c) = tables (server c)" "inventory (server ?c) = inventory (server c)"
    "orders (server ?c) = orders (server c)" "sent (server ?c) = sent (server c) @ [Close fd]"
    by (simp_all add: replaced_def)
  have ok: "state_ok E Next (server ?c)" using assms(8) by (simp add: state_ok_def S)
  obtain s' S' where pass: "udp_pass E (clock ?c) (Datagram bytes cli) (s, server ?c) = (Next, s', S')"
    and sent: "sent S' = sent (server ?c) @
        [Sendto cli ''UDP Server received your message.'', Sendto cli ''Successful order!''] @
        forward_events (tables (server ?c)) (forward_text r) (o_source_location r) (map c_tolower p)"
    using udp_hub_order_pass[OF assms(7) ok _ assms(10), unfolded S(2,3), OF assms(9,12,13)] by blast
  have "forward_events (tables (server ?c)) (forward_text r) (o_source_location r) (map c_tolower p)
      = [Write fd (forward_text r)]"
    using assms(11,14,15) by (simp add: S forward_events_def)
  moreover obtain c' where c': "steps E ?c c'" "c' = ?c\<lparr>udp := Waiting s', server := S'\<rparr>"
    using udp_pass_schedule[OF c pass] by auto
  ultimately show ?thesis
    using rtranclp_trans[OF replaced_reached[OF assms(1,3-6)] c'(1)] assms(1) sent
    by (intro exI[of _ c'] conjI) (simp_all add: c'(2) S forward_text_def, simp_all add: replaced_def)
qed

section \<open>Witness\<close>

text \<open>The client with process id 77 has number 1 and the descriptor 4; hub 1 orders.\<close>

definition connected_client_77 :: system where
  "connected_client_77 = (idle_server 1000)\<lparr>server := (sample_server 1000)\<lparr>tables := sample_tcp_registry\<rparr>,
     tcp := [4 \<mapsto> \<lparr>t_addr = sample_addr 5000, t_pid = Some 77, t_activity = Waiting new_session\<rparr>]\<rparr>"

theorem order_forwarded_to_another_client_witness:
  "\<exists>c'. steps (sample_env (hub_order 50)) connected_client_77 c'
     \<and> tcp c' 4 = Some \<lparr>t_addr = sample_addr 6000, t_pid = None, t_activity = Waiting new_session\<rparr>
     \<and> Write 4 ''FORWARDED_MESSAGE: request 50 Water'' \<in> set (sent (server c'))"
proof -
  let ?c = connected_client_77
  have c: "crashed ?c = None" "udp ?c = Waiting new_session"
    "tcp ?c 4 = Some \<lparr>t_addr = sample_addr 5000, t_pid = Some 77, t_activity = Waiting new_session\<rparr>"
    "inventory (server ?c) = seed_db 1000" "orders (server ?c) = empty_store" "tables (server ?c) = sample_tcp_registry"
    by (simp_all add: connected_client_77_def idle_server_def)
  have ok: "state_ok (sample_env (hub_order 50)) Next (server ?c)"
    by (simp add: state_ok_def c sample_tcp_registry_ok db_ok_seed store_ok_empty)
  have client: "findClientById 1 ''tcp'' sample_tcp_registry = Some (new_client 1 ''TCP'' (sample_addr 5000) 4 5)"
    by (simp add: findClientById_def sample_tcp_registry_def)
  have fifty: "to_string 50 = ''50''" by code_simp
  note order_forwarded_to_another_client[OF c(1-3), where before = new_session and pid = 77 and cli = "sample_addr 7000"
      and other = "sample_addr 6000" and a = 1000 and db_port = None and accepts = "\<lambda>_. True",
      OF _ _ _ quiet_sample ok _ hub_sample]
  then show ?thesis
    using hub_order_ready client
    by (fastforce simp: sample_facts c fifty connectToDb_def)
qed

end
