(* ===== verification/Program_Accounts.thy ===== *)
theory Program_Accounts
  imports Server_Schedules
begin

text \<open>
  What a program of single calls can use up, whatever the answers to its calls: an account that every
  action changes and that must never be overdrawn.  With one account the units a message can create
  are counted (\<open>Unit_Account\<close>), with another the actions it takes (\<open>Message_Length\<close>).
\<close>

section \<open>Accounts\<close>

text \<open>The answers an action can have, as long as the tables are well formed.\<close>

fun possible :: "action \<Rightarrow> int \<Rightarrow> bool" where
  "possible (Read_stock s l p) n \<longleftrightarrow> - 1 \<le> n \<and> n \<le> INT_MAX"
| "possible (Change_stock s l p q) n \<longleftrightarrow> n = 1 \<or> n = - 1"
| "possible _ n \<longleftrightarrow> True"

text \<open>
  \<open>account A p b Q\<close>: an action \<open>a\<close> with answer \<open>n\<close> adds \<open>A a n\<close> to the balance.  With the balance \<open>b\<close> the
  program never overdraws the account, whatever the answers, and it ends with a value and a balance
  that satisfy \<open>Q\<close>.
\<close>

primrec account :: "(action \<Rightarrow> int \<Rightarrow> int) \<Rightarrow> 'a program \<Rightarrow> int \<Rightarrow> ('a \<Rightarrow> int \<Rightarrow> bool) \<Rightarrow> bool" where
  "account A (Return v) b Q \<longleftrightarrow> 0 \<le> b \<and> Q v b"
| "account A (Raise e) b Q \<longleftrightarrow> 0 \<le> b"
| "account A (Act a k) b Q \<longleftrightarrow> 0 \<le> b \<and> (\<forall>n. possible a n \<longrightarrow> account A (k n) (b + A a n) Q)"

lemma account_covered: "account A p b Q \<Longrightarrow> 0 \<le> b"
  by (cases p) simp_all

lemma account_mono: "\<lbrakk>account A p b Q; \<And>v b'. \<lbrakk>Q v b'; 0 \<le> b'\<rbrakk> \<Longrightarrow> Q' v b'\<rbrakk> \<Longrightarrow> account A p b Q'"
  by (induction p arbitrary: b) auto

lemma account_bind: "account A (bind_program p f) b Q \<longleftrightarrow> account A p b (\<lambda>v b'. account A (f v) b' Q)"
  by (induction p arbitrary: b) (auto dest: account_covered)

named_theorems account_intros \<open>how an account passes through a program\<close>

lemma account_Return [account_intros]: "\<lbrakk>0 \<le> b; Q v b\<rbrakk> \<Longrightarrow> account A (Return v) b Q"
  by simp

lemma account_attempt [account_intros]:
  "\<lbrakk>0 \<le> b; \<And>x. r = Inr x \<Longrightarrow> account A (f x) b Q\<rbrakk> \<Longrightarrow> account A (attempt r f) b Q"
  by (cases r) simp_all

lemma account_if [account_intros]:
  "\<lbrakk>c \<Longrightarrow> account A p b Q; \<not> c \<Longrightarrow> account A p' b Q\<rbrakk> \<Longrightarrow> account A (if c then p else p') b Q"
  by simp

lemma account_sum [account_intros]:
  "\<lbrakk>\<And>e. account A (f e) b Q; \<And>x. account A (g x) b Q\<rbrakk> \<Longrightarrow>
   account A (case v of Inl e \<Rightarrow> f e | Inr x \<Rightarrow> g x) b Q"
  by (cases v) simp_all

lemma account_Act:
  "\<lbrakk>0 \<le> b; \<And>n. possible a n \<Longrightarrow> account A (k n) (b + A a n) Q\<rbrakk> \<Longrightarrow> account A (Act a k) b Q"
  by simp

lemma account_more: "\<lbrakk>account A p b (\<lambda>_ _. True); b \<le> b'\<rbrakk> \<Longrightarrow> account A p b' (\<lambda>_ _. True)"
  by (induction p arbitrary: b b') fastforce+

lemma account_bindI:
  "\<lbrakk>account A p b R; \<And>v b'. \<lbrakk>R v b'; 0 \<le> b'\<rbrakk> \<Longrightarrow> account A (f v) b' Q\<rbrakk> \<Longrightarrow> account A (bind_program p f) b Q"
  unfolding account_bind by (rule account_mono)

text \<open>One stage after another: only a stage that ends with \<open>Next\<close> is followed by the others.\<close>

lemma account_Nil: "\<lbrakk>0 \<le> b; Q (Next, s) b\<rbrakk> \<Longrightarrow> account A (run_steps [] s) b Q"
  by simp

lemma account_Cons:
  assumes "account A (h s) b R"
    and "\<And>f s' b'. \<lbrakk>R (f, s') b'; 0 \<le> b'; f = Next\<rbrakk> \<Longrightarrow> account A (run_steps hs s') b' Q"
    and "\<And>f s' b'. \<lbrakk>R (f, s') b'; 0 \<le> b'; f \<noteq> Next\<rbrakk> \<Longrightarrow> Q (f, s') b'"
  shows "account A (run_steps (h # hs) s) b Q"
  unfolding run_steps.simps by (rule account_bindI[OF assms(1)]) (use assms(2,3) in auto)

lemma rejected_verdict: "reject J c m d = Inr v \<Longrightarrow> \<not> fst v"
  by (cases v) (auto dest: reject_False)

lemma answer_possible:
  assumes "db_ok M d"
  shows "possible (Read_stock s l p) (fst (get_at M s l p d))"
  using get_at_sound[of M s l p d] stock_at_range[OF assms, of s l p] by fastforce

lemma perform_possible:
  assumes "db_ok (env_mysql E) (inventory S)" and "perform E a S = (Inr n, S')"
  shows "possible a n"
proof (cases a)
  case (Read_stock s l p)
  with assms answer_possible[OF assms(1), of s l p] show ?thesis by (auto simp: on_inventory_def)
next
  case (Change_stock s l p q)
  from assms(1) show ?thesis
    by (cases rule: update_at_cases[of _ _ s l p q]) (use assms(2) Change_stock in \<open>auto simp: on_inventory_def\<close>)
qed simp_all

end
