(* ===== verification/Unit_Account.thy ===== *)
theory Unit_Account
  imports Program_Accounts
begin

text \<open>
  How many units there can be.  The handling of a stored order may create up to 1000 units, by one
  re-stock; everything else only moves units or loses them.  A program carries the units it may still
  create as an account, which its actions change; the account of a program is checked once, by
  sequential reasoning, and the sum of the accounts of all threads bounds the system, however the
  threads interleave.
\<close>

section \<open>The account of units\<close>

text \<open>
  What an action adds to the account of the product \<open>m\<close>: storing an order opens it with 1000 units, and
  a successful update of a level takes from it what it adds to the level.
\<close>

fun allowance :: "mysql \<Rightarrow> string \<Rightarrow> action \<Rightarrow> int \<Rightarrow> int" where
  "allowance M m (Change_stock s l p q) n = (if my_collate_eq M m p \<and> n = 1 then - q else 0)"
| "allowance M m (Store_order buffer) n = MAX_CAPACITY"
| "allowance M m _ n = 0"

lemma account_read [account_intros]:
  "\<lbrakk>0 \<le> b; \<And>n. \<lbrakk>- 1 \<le> n; n \<le> INT_MAX\<rbrakk> \<Longrightarrow> account (allowance M m) (k n) b Q\<rbrakk> \<Longrightarrow> account (allowance M m) (Act (Read_stock s l p) k) b Q"
  by simp

lemma account_transmit [account_intros]:
  "\<lbrakk>0 \<le> b; \<And>n. account (allowance M m) (k n) b Q\<rbrakk> \<Longrightarrow> account (allowance M m) (Act (Transmit ev) k) b Q"
  by simp

section \<open>The functions on the database\<close>

definition orders_units :: "'j jsoncpp \<Rightarrow> 'j \<Rightarrow> bool" where
  "orders_units J root \<longleftrightarrow> (\<exists>q. json_int J root (p_product ''quantity'') = Inr q \<and> 0 < q)"

lemma account_check:
  assumes "0 \<le> b"
  shows "account (allowance M m) (checkProductStock_steps J root e) b (\<lambda>v b'. b' = b \<and> (fst v \<longrightarrow> orders_units J root))"
  unfolding checkProductStock_steps_def orders_units_def
  by (intro account_intros assms) (auto dest: rejected_verdict simp: json_steps)

lemma account_alert:
  "0 \<le> b \<Longrightarrow> account (allowance M m) (checkLowStockAlert_steps J root e) b (\<lambda>v b'. b' = b)"
  unfolding checkLowStockAlert_steps_def by (intro account_intros) simp_all

lemma account_transfer:
  assumes "0 \<le> b" and "orders_units J root"
  shows "account (allowance M m) (realTimeUpdate_steps J root) b (\<lambda>v b'. b \<le> b')"
proof -
  obtain q where q: "json_int J root (p_product ''quantity'') = Inr q" "0 < q"
    using assms(2) by (auto simp: orders_units_def)
  let ?R = "\<lambda>p v b'. b \<le> b' \<and> (0 < v \<longrightarrow> v = 1 \<and> b' = b + (if my_collate_eq M m p then q else 0))"
  have take: "account (allowance M m) (Act (Change_stock s l p k) Return) b (?R p)" if "int32_neg q = Inr k" for s l p k
    using assms(1) q(2) that by (auto simp: result_simps)
  have give: "account (allowance M m) (Act (Change_stock s l p q) Return) b' (\<lambda>v b'. b \<le> b')" if "?R p v b'" "0 < v" for s l p v b'
    using that assms(1) q(2) by auto
  have first: "account (allowance M m) (if st = ''hub'' then attempt (int32_neg q) (\<lambda>q. Act (Change_stock Hub l p q) Return)
      else if st = ''warehouse'' then attempt (int32_neg q) (\<lambda>q. Act (Change_stock Warehouse l p q) Return)
      else Return 0) b (?R p)" for st l p
    by (intro account_attempt account_if account_Return take assms(1)) (use assms(1) in auto)
  have second: "account (allowance M m) (if 0 < v then
        if st = ''hub'' then Act (Change_stock Hub l p q) Return
        else if st = ''warehouse'' then Act (Change_stock Warehouse l p q) Return else Return v
      else Return v) b' (\<lambda>v b'. b \<le> b')" if "?R p v b'" "0 \<le> b'" for st l p v b'
  proof (cases "0 < v")
    case True
    have "account (allowance M m) (Return v) b' (\<lambda>v b'. b \<le> b')" using that by simp
    with True give[OF that(1) True] show ?thesis by (simp del: account.simps)
  next
    case False
    with that show ?thesis by simp
  qed
  show ?thesis
    unfolding realTimeUpdate_steps_def q(1) attempt_simps
    by (intro account_attempt account_bindI[OF first second] assms(1))
qed

lemma account_restock:
  assumes "MAX_CAPACITY \<le> b"
  shows "account (allowance M m) (reStock_steps J root e) b (\<lambda>v b'. True)"
proof -
  have "0 \<le> b" using assms by (simp add: MAX_CAPACITY_def)
  moreover have "0 \<le> b + allowance M m (Change_stock s l p k) n"
    if "int32_sub MAX_CAPACITY x = Inr k" "- 1 \<le> x" "x \<noteq> - 1" for s l p k n x
    using that assms \<open>0 \<le> b\<close> by (simp add: result_simps)
  ultimately show ?thesis
    unfolding reStock_steps_def
    by (intro account_intros) (auto intro!: account_intros simp del: allowance.simps)
qed

section \<open>The handling of a message\<close>

definition opens_no_account :: "replier \<Rightarrow> bool" where
  "opens_no_account reply \<longleftrightarrow>
     (\<forall>M m text b Q. 0 \<le> b \<longrightarrow> (\<forall>f. Q f b) \<longrightarrow> account (allowance M m) (reply text) b Q)"

lemma no_account_udp: "opens_no_account (udp_reply_steps a)"
  by (simp add: opens_no_account_def udp_reply_steps_def)

lemma no_account_tcp: "opens_no_account (tcp_reply_steps fd)"
  by (simp add: opens_no_account_def tcp_reply_steps_def)

lemma account_reply [account_intros]:
  "\<lbrakk>opens_no_account reply; 0 \<le> b; \<And>f. Q (f, s) b\<rbrakk> \<Longrightarrow> account (allowance M m) (reply_steps reply text s) b Q"
  by (simp add: reply_steps_def account_bind opens_no_account_def)

lemma account_validate:
  "\<lbrakk>opens_no_account reply; 0 \<le> b\<rbrakk> \<Longrightarrow> account (allowance M m) (validate_steps J reply root s) b (\<lambda>v b'. b \<le> b')"
  unfolding validate_steps_def Let_def by (intro account_attempt) (auto intro!: account_intros simp del: account.simps)

lemma account_stock:
  assumes "opens_no_account reply" and "0 \<le> b"
  shows "account (allowance M m) (stock_steps J reply root s) b (\<lambda>v b'. b \<le> b' \<and> (productStock (snd v) \<longrightarrow> orders_units J root))"
  unfolding stock_steps_def
  by (rule account_bindI[OF account_check]) (use assms in \<open>auto intro!: account_intros simp del: account.simps simp: Let_def\<close>)

lemma account_transfer_stage:
  assumes "opens_no_account reply" and "0 \<le> b" and "productStock s \<longrightarrow> orders_units J root"
  shows "account (allowance M m) (transfer_steps J reply root s) b (\<lambda>v b'. b \<le> b')"
proof (cases "productStock s \<and> isValid s")
  case True
  with assms(2,3) have "account (allowance M m) (realTimeUpdate_steps J root) b (\<lambda>v b'. b \<le> b')" by (intro account_transfer) simp_all
  then show ?thesis
    unfolding transfer_steps_def if_P[OF True]
    by (rule account_bindI) (use assms in \<open>auto intro!: account_intros simp del: account.simps\<close>)
next
  case False
  with assms(2) show ?thesis by (auto simp: transfer_steps_def)
qed

lemma account_low_stock:
  "\<lbrakk>opens_no_account reply; 0 \<le> b\<rbrakk> \<Longrightarrow> account (allowance M m) (low_stock_steps J reply root s) b (\<lambda>v b'. b \<le> b')"
  unfolding low_stock_steps_def
  by (rule account_bindI[OF account_alert]) (auto intro!: account_intros simp del: account.simps simp: Let_def)

lemma account_restock_stage:
  "\<lbrakk>opens_no_account reply; MAX_CAPACITY \<le> b\<rbrakk> \<Longrightarrow> account (allowance M m) (restock_steps J reply root s) b (\<lambda>v b'. 0 \<le> b')"
  unfolding restock_steps_def
  by (rule account_bindI[OF account_restock]) (auto intro!: account_intros simp del: account.simps simp: Let_def)

lemma account_order:
  assumes reply: "opens_no_account reply" and "MAX_CAPACITY \<le> b"
  shows "account (allowance M m) (run_steps (order_steps J reply root) s) b (\<lambda>v b'. 0 \<le> b')"
proof -
  have "0 \<le> b" using assms(2) by (simp add: MAX_CAPACITY_def)
  show ?thesis
    unfolding order_steps_def
    apply (rule account_Cons[OF account_validate[OF reply \<open>0 \<le> b\<close>]])
     apply (rule account_Cons[OF account_stock[OF reply]], assumption)
      apply (rule account_Cons[OF account_transfer_stage[OF reply]], assumption, simp)
       apply (rule account_Cons[OF account_low_stock[OF reply]], assumption)
        apply (rule account_Cons[OF account_restock_stage[OF reply]])
          apply (use assms(2) in simp_all)
    done
qed

lemma account_message:
  assumes reply: "opens_no_account reply"
  shows "account (allowance M m) (run_steps (message_steps J reply response proto buffer) s) 0 (\<lambda>_ _. True)"
proof -
  have process: "account (allowance M m) (run_steps [process_steps buffer proto] s) b (\<lambda>_ _. True)" if "0 \<le> b" for s b
    using that by (simp add: process_steps_def)
  have parse: "account (allowance M m) (parse_steps J reply buffer s) b (\<lambda>v b'. 0 \<le> b')" if "MAX_CAPACITY \<le> b" for s b
    using account_order[OF reply that] that unfolding parse_steps_def
    by (intro account_attempt) (auto simp: MAX_CAPACITY_def split: option.split)
  have orders: "account (allowance M m) (run_steps [store_steps buffer, parse_steps J reply buffer, process_steps buffer proto] s) b (\<lambda>_ _. True)"
    if "0 \<le> b" for s b
  proof (rule account_Cons[where R = "\<lambda>v b'. MAX_CAPACITY \<le> b'"])
    show "account (allowance M m) (store_steps buffer s) b (\<lambda>v b'. MAX_CAPACITY \<le> b')"
      using that by (simp add: store_steps_def MAX_CAPACITY_def)
    show "account (allowance M m) (run_steps [parse_steps J reply buffer, process_steps buffer proto] s') b' (\<lambda>_ _. True)"
      if "MAX_CAPACITY \<le> b'" for s' b'
      by (rule account_Cons[OF parse[OF that]]) (auto intro: process simp del: run_steps.simps)
  qed simp
  show ?thesis
  proof (cases "buffer \<noteq> [] \<and> hd buffer = CHR ''{''")
    case True
    show ?thesis
      unfolding message_steps_def if_P[OF True] append.simps
      by (rule account_Cons[where R = "\<lambda>v b'. 0 \<le> b'"]) (auto intro: orders account_reply[OF reply] simp del: run_steps.simps)
  next
    case False
    show ?thesis
      unfolding message_steps_def if_not_P[OF False] append.simps
      by (rule account_Cons[where R = "\<lambda>v b'. 0 \<le> b'"]) (auto intro: process account_reply[OF reply] simp del: run_steps.simps)
  qed
qed

section \<open>The books of the system\<close>

text \<open>
  What may still be created when the accounts of all threads are empty: 1000 units for each order
  stored, less the units there are.
\<close>

definition room :: "'j env \<Rightarrow> string \<Rightarrow> server_state \<Rightarrow> int" where
  "room E m S = MAX_CAPACITY * int (length (storedOrders (orders S))) - total_units (env_mysql E) m (inventory S)"

lemma room_same: "\<lbrakk>orders S' = orders S; inventory S' = inventory S\<rbrakk> \<Longrightarrow> room E m S' = room E m S"
  by (simp add: room_def)

lemma room_net_send [simp]: "room E m (snd (net_send E ev S)) = room E m S"
  by (rule room_same) (simp_all add: net_send_def Let_def)

lemma room_forward [simp]: "room E m (forwardMessageToClient E text i p S) = room E m S"
  by (simp add: forwardMessageToClient_def split: option.split)

lemma perform_room:
  assumes "db_ok (env_mysql E) (inventory S)" and "perform E a S = (r, S')"
  shows "case r of Inl e \<Rightarrow> room E m S \<le> room E m S'
    | Inr n \<Rightarrow> possible a n \<and> room E m S' = room E m S + allowance (env_mysql E) m a n"
proof (cases a)
  case (Read_stock s l p)
  with assms answer_possible[OF assms(1), of s l p] show ?thesis
    by (auto simp: on_inventory_def room_def get_at_state)
next
  case (Change_stock s l p q)
  from assms(1) show ?thesis
    by (cases rule: update_at_cases[of _ _ s l p q]) (use assms(2) Change_stock in \<open>auto simp: on_inventory_def room_def\<close>)
next
  case (Transmit ev)
  with assms(2) show ?thesis by (auto simp: split_beta)
next
  case (Store_order buffer)
  obtain x st where x: "storeOrder (env_json E) buffer (orders S) = (x, st)" by fastforce
  have "storedOrders st = storedOrders (orders S) @ [buffer]" using storeOrder_stored[of "env_json E" buffer "orders S"] x by simp
  with x assms(2) Store_order show ?thesis by (cases x) (auto simp: room_def MAX_CAPACITY_def)
next
  case (Process_message buffer proto cid)
  with assms(2) on_valueD[OF processMessage_forwards_only, of E buffer proto cid S] show ?thesis
    by (auto split: sum.splits)
qed

text \<open>
  \<open>balance\<close>: what a thread's account must hold.  A change of a thread and of the server is paid for
  when the balance and the room change together.
\<close>

fun balance :: "mysql \<Rightarrow> string \<Rightarrow> activity \<Rightarrow> int \<Rightarrow> bool" where
  "balance M m (Waiting s) b \<longleftrightarrow> 0 \<le> b"
| "balance M m (Working p) b \<longleftrightarrow> account (allowance M m) p b (\<lambda>_ _. True)"

lemma balance_covered: "balance M m a b \<Longrightarrow> 0 \<le> b"
  by (cases a) (auto dest: account_covered)

definition paid :: "'j env \<Rightarrow> string \<Rightarrow> activity \<Rightarrow> server_state \<Rightarrow> activity result \<times> server_state \<Rightarrow> bool" where
  "paid E m a S x \<longleftrightarrow> (\<forall>b. balance (env_mysql E) m a b \<longrightarrow> (case x of
     (Inl e, S') \<Rightarrow> room E m S \<le> room E m S'
   | (Inr a', S') \<Rightarrow> \<exists>b'. balance (env_mysql E) m a' b' \<and> b' + room E m S \<le> b + room E m S'))"

lemma paid_idle: "\<lbrakk>room E m S' = room E m S; balance (env_mysql E) m a' 0\<rbrakk> \<Longrightarrow> paid E m a S (Inr a', S')"
  unfolding paid_def by (auto dest: balance_covered intro!: exI[of _ 0])

lemma paid_throw: "room E m S' = room E m S \<Longrightarrow> paid E m a S (Inl e, S')"
  by (simp add: paid_def)

lemma advance_paid:
  assumes "db_ok (env_mysql E) (inventory S)"
  shows "paid E m (Working p) S (advance E p S)"
proof (cases p)
  case (Return v)
  then show ?thesis by (cases v) (auto simp: paid_def intro: exI[of _ 0])
next
  case (Raise e)
  then show ?thesis by (simp add: paid_def)
next
  case (Act a k)
  obtain r S' where run: "perform E a S = (r, S')" by fastforce
  from perform_room[OF assms run, of m] show ?thesis
  proof (cases r)
    case (Inr n)
    with perform_room[OF assms run, of m] have "possible a n"
      "room E m S' = room E m S + allowance (env_mysql E) m a n" by simp_all
    with run Inr Act show ?thesis
      by (auto simp: paid_def intro!: exI[of _ "b + allowance (env_mysql E) m a n" for b])
  qed (simp add: paid_def run Act)
qed

lemma message_balance:
  "opens_no_account reply \<Longrightarrow> balance M m (Working (run_steps (message_steps J reply response proto buffer) s)) 0"
  by (simp add: account_message)

lemma udp_receive_paid: "paid E m (Waiting s) S (udp_receive E now input s S)"
proof (cases input)
  case Recvfrom_error
  then show ?thesis by (simp add: udp_receive_unfold paid_idle)
next
  case (Datagram bytes a)
  then show ?thesis
    by (auto simp: udp_receive_unfold Let_def message_balance no_account_udp simp del: balance.simps(2)
        intro!: paid_idle paid_throw room_same split: sum.split)
qed

text \<open>A TCP thread that ends gives its account up.\<close>

definition left_activity :: "tcp_thread option result \<times> server_state \<Rightarrow> activity result \<times> server_state" where
  "left_activity x = (case x of
     (Inl e, S) \<Rightarrow> (Inl e, S)
   | (Inr None, S) \<Rightarrow> (Inr (Waiting new_session), S)
   | (Inr (Some t), S) \<Rightarrow> (Inr (t_activity t), S))"

lemma tcp_advance_paid:
  assumes "db_ok (env_mysql E) (inventory S)"
  shows "paid E m (Working p) S (left_activity (tcp_advance E t p S))"
proof -
  have "left_activity (tcp_advance E t p S) = advance E p S"
    by (auto simp: left_activity_def tcp_advance_def split: prod.split sum.split)
  with advance_paid[OF assms] show ?thesis by simp
qed

lemma tcp_first_room: "tcp_first E now fd a input (s, S) = (f, pid, s', S') \<Longrightarrow> room E m S' = room E m S"
  by (rule room_same) (auto simp: tcp_first_def Let_def split: if_splits sum.splits prod.splits)

lemma tcp_receive_paid: "paid E m (Waiting s) S (left_activity (tcp_receive E now fd input t s S))"
proof (cases "t_pid t")
  case None
  obtain f pid s' S' where run: "tcp_first E now fd (t_addr t) input (s, S) = (f, pid, s', S')" by (rule prod_cases4)
  from tcp_first_room[OF run] show ?thesis
    by (cases f) (simp_all add: tcp_receive_unfold None run left_activity_def paid_idle paid_throw)
next
  case (Some p)
  then show ?thesis
    by (auto simp: tcp_receive_unfold Let_def left_activity_def message_balance no_account_tcp simp del: balance.simps(2)
        intro!: paid_idle room_same)
qed

section \<open>The books balance in every reachable state\<close>

definition books :: "'j env \<Rightarrow> string \<Rightarrow> int \<Rightarrow> int \<Rightarrow> (int \<Rightarrow> int) \<Rightarrow> system \<Rightarrow> bool" where
  "books E m U u h c \<longleftrightarrow> finite (dom (tcp c)) \<and> balance (env_mysql E) m (udp c) u
     \<and> (\<forall>fd t. tcp c fd = Some t \<longrightarrow> balance (env_mysql E) m (t_activity t) (h fd))
     \<and> u + (\<Sum>fd\<in>dom (tcp c). h fd) \<le> U + room E m (server c)"

definition balanced :: "'j env \<Rightarrow> string \<Rightarrow> int \<Rightarrow> system \<Rightarrow> bool" where
  "balanced E m U c \<longleftrightarrow> (\<exists>u h. books E m U u h c)"

lemma balanced_same:
  assumes "balanced E m U c" and "udp c' = udp c" and "tcp c' = tcp c" and "room E m (server c) \<le> room E m (server c')"
  shows "balanced E m U c'"
proof -
  obtain u h where "books E m U u h c" using assms(1) by (auto simp: balanced_def)
  with assms(2-4) have "books E m U u h c'" by (simp add: books_def)
  then show ?thesis by (auto simp: balanced_def)
qed

lemma balanced_udp:
  assumes "balanced E m U c" and "paid E m (udp c) (server c) x"
  shows "balanced E m U (udp_goes x c)"
proof -
  obtain r S where x: "x = (r, S)" by fastforce
  obtain u h where b: "books E m U u h c" using assms(1) by (auto simp: balanced_def)
  then have u: "balance (env_mysql E) m (udp c) u" by (simp add: books_def)
  show ?thesis
  proof (cases r)
    case (Inl e)
    with assms(2) u have "room E m (server c) \<le> room E m S" by (auto simp: paid_def x)
    then show ?thesis by (intro balanced_same[OF assms(1)]) (simp_all add: udp_goes_def x Inl)
  next
    case (Inr a)
    with assms(2) u obtain u' where "balance (env_mysql E) m a u'" "u' + room E m (server c) \<le> u + room E m S"
      by (auto simp: paid_def x)
    with b have "books E m U u' h (udp_goes x c)" by (simp add: books_def udp_goes_def x Inr)
    then show ?thesis by (auto simp: balanced_def)
  qed
qed

lemma sum_upd_out: "(\<Sum>k\<in>A - {a}. (h(a := v)) k) = (\<Sum>k\<in>A - {a}. h k)"
  by (rule sum.cong) simp_all

lemma balanced_tcp:
  assumes "balanced E m U c" and t: "tcp c fd = Some t"
    and paid: "paid E m (t_activity t) (server c) (left_activity x)"
  shows "balanced E m U (tcp_goes fd x c)"
proof -
  obtain r S where x: "x = (r, S)" by fastforce
  obtain u h where b: "books E m U u h c" using assms(1) by (auto simp: balanced_def)
  then have fin: "finite (dom (tcp c))" and old: "balance (env_mysql E) m (t_activity t) (h fd)"
    using t by (simp_all add: books_def)
  have sum: "(\<Sum>k\<in>dom (tcp c). h k) = h fd + (\<Sum>k\<in>dom (tcp c) - {fd}. h k)"
    using fin t by (intro sum.remove) auto
  show ?thesis
  proof (cases r)
    case (Inl e)
    with paid old have "room E m (server c) \<le> room E m S" by (auto simp: paid_def left_activity_def x)
    then show ?thesis by (intro balanced_same[OF assms(1)]) (simp_all add: tcp_goes_def x Inl)
  next
    case (Inr t')
    then obtain v where v: "balance (env_mysql E) m (case t' of None \<Rightarrow> Waiting new_session | Some t \<Rightarrow> t_activity t) v"
        "v + room E m (server c) \<le> h fd + room E m S"
      using paid old by (cases t') (fastforce simp: paid_def left_activity_def x)+
    have "0 \<le> v" using v(1) by (rule balance_covered)
    have "dom ((tcp c)(fd := t')) = (case t' of None \<Rightarrow> dom (tcp c) - {fd} | Some _ \<Rightarrow> insert fd (dom (tcp c) - {fd}))"
      by (auto split: option.split)
    then have "(\<Sum>k\<in>dom ((tcp c)(fd := t')). (h(fd := v)) k) \<le> v + (\<Sum>k\<in>dom (tcp c) - {fd}. h k)"
      using fin \<open>0 \<le> v\<close> by (cases t') (simp_all only: option.case sum_upd_out sum.insert_if finite_Diff Diff_iff insert_iff fun_upd_same, simp_all)
    with b v sum fin have "books E m U u (h(fd := v)) (tcp_goes fd x c)"
      by (auto simp: books_def tcp_goes_def x Inr)
    then show ?thesis by (auto simp: balanced_def)
  qed
qed

lemma balanced_accept:
  assumes "balanced E m U c" and "tcp c fd = None"
  shows "balanced E m U (c\<lparr>tcp := (tcp c)(fd \<mapsto> \<lparr>t_addr = a, t_pid = None, t_activity = Waiting s\<rparr>)\<rparr>)"
proof -
  obtain u h where b: "books E m U u h c" using assms(1) by (auto simp: balanced_def)
  have out: "fd \<notin> dom (tcp c)" using assms(2) by auto
  then have "(\<Sum>k\<in>dom (tcp c). (h(fd := 0)) k) = (\<Sum>k\<in>dom (tcp c). h k)" by (intro sum.cong) auto
  with b out have "books E m U u (h(fd := 0)) (c\<lparr>tcp := (tcp c)(fd \<mapsto> \<lparr>t_addr = a, t_pid = None, t_activity = Waiting s\<rparr>)\<rparr>)"
    by (auto simp: books_def)
  then show ?thesis by (auto simp: balanced_def)
qed

lemma step_balanced:
  assumes "step E c c'" and ok: "system_ok E c" and bal: "balanced E m U c"
  shows "balanced E m U c'"
proof -
  have db: "db_ok (env_mysql E) (inventory (server c))" using ok by (simp add: system_ok_def state_ok_def)
  from assms(1) show ?thesis
  proof cases
    case (time now)
    then show ?thesis by (intro balanced_same[OF bal]) simp_all
  next
    case (datagram s input)
    then show ?thesis by (auto intro!: balanced_udp[OF bal] udp_receive_paid)
  next
    case (udp_act p)
    then show ?thesis by (auto intro!: balanced_udp[OF bal] advance_paid[OF db])
  next
    case (accept fd db_port accepts cli_addr)
    then show ?thesis
      by (auto simp: accept_step_def intro!: balanced_accept[OF bal] balanced_same[OF bal] split: sum.split)
  next
    case (stream fd t s input)
    have "balanced E m U (departs t input c)" by (rule balanced_same[OF bal]) simp_all
    with stream show ?thesis
      by (auto intro!: balanced_tcp[where c = "departs t input c"] tcp_receive_paid)
  next
    case (erases pid)
    then show ?thesis by (intro balanced_same[OF bal]) (simp_all add: erase_step_def room_def)
  next
    case (tcp_act fd t p)
    then show ?thesis by (auto intro!: balanced_tcp[OF bal] tcp_advance_paid[OF db])
  next
    case cleanup
    then show ?thesis by (intro balanced_same[OF bal]) (simp_all add: cleanup_step_def room_def)
  qed (auto intro: balanced_same[OF bal])
qed

lemma initial_balanced: "balanced E m (total_units (env_mysql E) m d) (initial d now)"
  unfolding balanced_def books_def initial_def room_def empty_store_def
  by (intro exI[of _ 0] exI[of _ "\<lambda>_. 0"]) simp

lemma reachable_balanced:
  assumes "reachable E d c" and "db_ok (env_mysql E) d"
  shows "balanced E m (total_units (env_mysql E) m d) c"
  using assms
proof induction
  case (reach_start now)
  show ?case by (rule initial_balanced)
next
  case (reach_step c c')
  then show ?case using step_balanced reachable_system_ok by blast
qed

section \<open>Property\<close>

text \<open>
  C7: however the threads interleave, and whatever fails, the units of a product in all tables never
  exceed those the server started with plus one capacity of 1000 units for each order received.
\<close>

theorem units_within_budget:
  assumes "reachable E d c" and "db_ok (env_mysql E) d"
  shows "total_units (env_mysql E) m (inventory (server c))
    \<le> total_units (env_mysql E) m d + 1000 * int (length (storedOrders (orders (server c))))"
proof -
  obtain u h where b: "books E m (total_units (env_mysql E) m d) u h c"
    using reachable_balanced[OF assms, of m] by (auto simp: balanced_def)
  have "0 \<le> u" using b by (auto simp: books_def dest: balance_covered)
  moreover have "0 \<le> (\<Sum>fd\<in>dom (tcp c). h fd)"
    using b by (intro sum_nonneg) (auto simp: books_def dest: balance_covered)
  ultimately show ?thesis using b by (simp add: books_def room_def MAX_CAPACITY_def)
qed

section \<open>Witness\<close>

text \<open>A started server carries out one order from a warehouse of 150 units, and fills the warehouse again.\<close>

lemma reachable_steps: "\<lbrakk>steps E c c'; reachable E d c\<rbrakk> \<Longrightarrow> reachable E d c'"
  by (induction rule: rtranclp_induct) (auto intro: reach_step)

abbreviation started :: system where "started \<equiv> initial (seed_db 150) 0"
abbreviation restocking_env :: "sample_json env" where "restocking_env \<equiv> sample_env (warehouse_order ''2'' 50)"

lemma restocked_reachable:
  "\<exists>c. reachable restocking_env (seed_db 150) c
     \<and> stock_at sample_mysql (inventory (server c)) Warehouse 1 ''Water'' = Some 1000"
proof -
  have ok: "state_ok restocking_env Next (server started)"
    using initial_system_ok[of restocking_env "seed_db 150" 0] by (simp add: system_ok_def initial_def db_ok_seed)
  have "moved_stock sample_mysql (warehouse_fields ''2'' 50) (seed_db 150) Warehouse 1 ''Water'' = Some 100" by code_simp
  moreover note udp_warehouse_order_pass[where now = 0 and cli = "sample_addr 7000" and s = new_session
      and S = "server started" and a = 150, OF quiet_sample ok _ warehouse_sample]
  ultimately obtain s' S' where run: "udp_pass restocking_env 0 (Datagram ''{A'' (sample_addr 7000)) (new_session, server started)
      = (Next, s', S')" "stock_at sample_mysql (inventory S') Warehouse 1 ''Water'' = Some 1000"
    using warehouse_order_ready stoi_2 by (auto simp: sample_facts initial_def)
  have idle: "crashed started = None" "udp started = Waiting new_session" "clock started = 0"
    by (simp_all add: initial_def)
  obtain c' where "steps restocking_env started c'" "server c' = S'"
    using udp_pass_schedule[OF idle(1,2), of restocking_env "Datagram ''{A'' (sample_addr 7000)" Next s' S'] run(1) idle(3)
    by auto
  with run(2) reachable_steps[OF _ reach_start] show ?thesis by blast
qed

theorem units_within_budget_witness:
  "\<exists>c. reachable restocking_env (seed_db 150) c
     \<and> stock_at sample_mysql (inventory (server c)) Warehouse 1 ''Water'' = Some 1000
     \<and> total_units sample_mysql ''Water'' (inventory (server c))
        \<le> total_units sample_mysql ''Water'' (seed_db 150) + 1000 * int (length (storedOrders (orders (server c))))"
proof -
  obtain c where c: "reachable restocking_env (seed_db 150) c"
    "stock_at sample_mysql (inventory (server c)) Warehouse 1 ''Water'' = Some 1000"
    using restocked_reachable by blast
  have "db_ok (env_mysql restocking_env) (seed_db 150)" by (simp add: db_ok_seed)
  from units_within_budget[OF c(1) this, of "''Water''"] c show ?thesis
    by (intro exI[of _ c] conjI) simp_all
qed

end
