(* ===== verification/Message_Length.thy ===== *)
theory Message_Length
  imports Program_Accounts
begin

text \<open>
  How long a thread works on a message: an account that every action reduces by one shows that twelve
  actions are enough, whatever the other threads do between them.
\<close>

section \<open>The actions a message takes\<close>

definition each_one :: "action \<Rightarrow> int \<Rightarrow> int" where
  "each_one a n = - 1"

lemma uses_action:
  "\<lbrakk>1 \<le> b; \<And>n. account each_one (k n) (b - 1) Q\<rbrakk> \<Longrightarrow> account each_one (Act a k) b Q"
  by (rule account_Act) (simp_all add: each_one_def)

lemma uses_check: "1 \<le> b \<Longrightarrow> account each_one (checkProductStock_steps J root e) b (\<lambda>v b'. b - 1 \<le> b')"
  unfolding checkProductStock_steps_def by (intro account_intros uses_action) simp_all

lemma uses_alert: "1 \<le> b \<Longrightarrow> account each_one (checkLowStockAlert_steps J root e) b (\<lambda>v b'. b - 1 \<le> b')"
  unfolding checkLowStockAlert_steps_def by (intro account_intros uses_action) simp_all

lemma uses_restock: "2 \<le> b \<Longrightarrow> account each_one (reStock_steps J root e) b (\<lambda>v b'. b - 2 \<le> b')"
  unfolding reStock_steps_def by (intro account_intros uses_action) simp_all

lemma uses_transfer: "2 \<le> b \<Longrightarrow> account each_one (realTimeUpdate_steps J root) b (\<lambda>v b'. b - 2 \<le> b')"
  unfolding realTimeUpdate_steps_def
  by (intro account_attempt account_bindI[where R = "\<lambda>v b'. b - 1 \<le> b'"] account_if account_Return uses_action) simp_all

definition one_send :: "replier \<Rightarrow> bool" where
  "one_send reply \<longleftrightarrow> (\<forall>msg b. 1 \<le> b \<longrightarrow> account each_one (reply msg) b (\<lambda>_ b'. b' = b - 1))"

lemma one_send_udp: "one_send (udp_reply_steps a)"
  by (simp add: one_send_def udp_reply_steps_def each_one_def)

lemma one_send_tcp: "one_send (tcp_reply_steps fd)"
  by (simp add: one_send_def tcp_reply_steps_def each_one_def)

lemma uses_reply:
  assumes "one_send reply" and "1 \<le> b" and "\<And>f. Q (f, s) (b - 1)"
  shows "account each_one (reply_steps reply msg s) b Q"
proof -
  have "account each_one (reply msg) b (\<lambda>_ b'. b' = b - 1)" using assms(1,2) by (simp add: one_send_def)
  then show ?thesis
    unfolding reply_steps_def by (rule account_bindI) (use assms(3) in auto)
qed

lemma uses_validate:
  "\<lbrakk>one_send reply; 1 \<le> b\<rbrakk> \<Longrightarrow>
   account each_one (validate_steps J reply root s) b (\<lambda>v b'. b - 1 \<le> b' \<and> (isValid (snd v) \<longrightarrow> b \<le> b'))"
  unfolding validate_steps_def Let_def
  by (intro account_attempt) (auto intro!: account_intros uses_reply simp del: account.simps)

lemma uses_stock:
  "\<lbrakk>one_send reply; 2 \<le> b\<rbrakk> \<Longrightarrow>
   account each_one (stock_steps J reply root s) b
     (\<lambda>v b'. b - 2 \<le> b' \<and> (productStock (snd v) \<longrightarrow> b - 1 \<le> b') \<and> isValid (snd v) = isValid s)"
  unfolding stock_steps_def Let_def
  by (rule account_bindI[OF uses_check]) (auto intro!: account_intros uses_reply simp del: account.simps)

lemma uses_transfer_stage:
  assumes "one_send reply" and "3 \<le> b"
  shows "account each_one (transfer_steps J reply root s) b (\<lambda>v b'. b - (if productStock s \<and> isValid s then 3 else 0) \<le> b')"
proof (cases "productStock s \<and> isValid s")
  case True
  have "account each_one (realTimeUpdate_steps J root) b (\<lambda>v b'. b - 2 \<le> b')" using assms(2) by (intro uses_transfer) simp
  then show ?thesis
    unfolding transfer_steps_def if_P[OF True]
    by (rule account_bindI) (use assms in \<open>auto intro!: account_intros uses_reply simp del: account.simps\<close>)
next
  case False
  with assms(2) show ?thesis by (auto simp: transfer_steps_def)
qed

lemma uses_low_stock:
  "\<lbrakk>one_send reply; 2 \<le> b\<rbrakk> \<Longrightarrow> account each_one (low_stock_steps J reply root s) b (\<lambda>v b'. b - 2 \<le> b')"
  unfolding low_stock_steps_def Let_def
  by (rule account_bindI[OF uses_alert]) (auto intro!: account_intros uses_reply simp del: account.simps)

lemma uses_restock_stage:
  "\<lbrakk>one_send reply; 3 \<le> b\<rbrakk> \<Longrightarrow> account each_one (restock_steps J reply root s) b (\<lambda>v b'. b - 3 \<le> b')"
  unfolding restock_steps_def Let_def
  by (rule account_bindI[OF uses_restock]) (auto intro!: account_intros uses_reply simp del: account.simps)

lemma uses_order:
  assumes reply: "one_send reply"
  shows "account each_one (run_steps (order_steps J reply root) s) 10 (\<lambda>v b'. 1 \<le> b')"
  unfolding order_steps_def
  apply (rule account_Cons[OF uses_validate[OF reply]], simp)
   apply (rule account_Cons[OF uses_stock[OF reply]], simp)
    apply (rule account_Cons[OF uses_transfer_stage[OF reply]], simp)
     apply (rule account_Cons[OF uses_low_stock[OF reply]], simp split: if_splits)
      apply (rule account_Cons[OF uses_restock_stage[OF reply]], simp split: if_splits)
        apply (simp_all split: if_splits)
  done

lemma uses_message:
  assumes reply: "one_send reply"
  shows "account each_one (run_steps (message_steps J reply response proto buffer) s) 12 (\<lambda>_ _. True)"
proof -
  have process: "account each_one (run_steps [process_steps buffer proto] s) b (\<lambda>_ _. True)" if "1 \<le> b" for s b
    using that by (simp add: process_steps_def each_one_def)
  have parse: "account each_one (parse_steps J reply buffer s) 10 (\<lambda>v b'. 1 \<le> b')" for s
    using uses_order[OF reply] unfolding parse_steps_def by (intro account_attempt) (auto split: option.split)
  have stored: "account each_one (run_steps [parse_steps J reply buffer, process_steps buffer proto] s) 10 (\<lambda>_ _. True)" for s
    by (rule account_Cons[OF parse]) (auto intro: process simp del: run_steps.simps)
  have orders: "account each_one (run_steps [store_steps buffer, parse_steps J reply buffer, process_steps buffer proto] s) 11 (\<lambda>_ _. True)"
    for s
    by (rule account_Cons[where R = "\<lambda>v b'. b' = 10"])
      (auto simp: store_steps_def each_one_def intro: stored simp del: run_steps.simps)
  have ack: "account each_one (reply_steps reply response s) 12 (\<lambda>v b'. b' = 11)"
    by (rule uses_reply[OF reply]) simp_all
  show ?thesis
  proof (cases "buffer \<noteq> [] \<and> hd buffer = CHR ''{''")
    case True
    show ?thesis
      unfolding message_steps_def if_P[OF True] append.simps
      by (rule account_Cons[where R = "\<lambda>v b'. b' = 11"]) (auto intro: orders ack simp del: run_steps.simps)
  next
    case False
    show ?thesis
      unfolding message_steps_def if_not_P[OF False] append.simps
      by (rule account_Cons[where R = "\<lambda>v b'. b' = 11"]) (auto intro: process ack simp del: run_steps.simps)
  qed
qed

section \<open>The threads\<close>

text \<open>The actions a thread still has to do.\<close>

fun within :: "activity \<Rightarrow> int \<Rightarrow> bool" where
  "within (Waiting s) b \<longleftrightarrow> True"
| "within (Working p) b \<longleftrightarrow> account each_one p b (\<lambda>_ _. True)"

definition all_within :: "system \<Rightarrow> bool" where
  "all_within c \<longleftrightarrow> within (udp c) 12 \<and> (\<forall>fd t. tcp c fd = Some t \<longrightarrow> within (t_activity t) 12)"

lemma within_more: "\<lbrakk>within a b; b \<le> b'\<rbrakk> \<Longrightarrow> within a b'"
  by (cases a) (auto intro: account_more)

lemma advance_within:
  assumes "db_ok (env_mysql E) (inventory S)" and "advance E p S = (Inr a, S')" and "within (Working p) b"
  shows "within a (b - 1)"
proof (cases p)
  case (Act act k)
  with assms obtain n where "perform E act S = (Inr n, S')" "a = Working (k n)"
    by (auto split: prod.splits sum.splits)
  with perform_possible[OF assms(1)] assms(3) Act show ?thesis by (simp add: each_one_def)
next
  case (Return v)
  with assms(2) show ?thesis by (cases v) auto
qed (use assms(2) in simp)

lemma message_within: "one_send reply \<Longrightarrow> within (Working (run_steps (message_steps J reply response proto buffer) s)) 12"
  by (simp add: uses_message)

lemma udp_receive_within: "udp_receive E now input s S = (Inr a, S') \<Longrightarrow> within a 12"
  by (cases input)
    (auto simp: udp_receive_unfold Let_def message_within one_send_udp simp del: within.simps(2) split: if_splits sum.splits)

lemma tcp_receive_within: "\<lbrakk>tcp_receive E now fd input t s S = (Inr (Some t'), S')\<rbrakk> \<Longrightarrow> within (t_activity t') 12"
  by (auto simp: tcp_receive_unfold Let_def message_within one_send_tcp simp del: within.simps(2)
      split: option.splits if_splits prod.splits flow.splits)

lemma all_within_udp:
  assumes "all_within c" and "\<And>a S. x = (Inr a, S) \<Longrightarrow> within a 12"
  shows "all_within (udp_goes x c)"
proof -
  obtain r S where "x = (r, S)" by fastforce
  with assms show ?thesis by (cases r) (auto simp: all_within_def udp_goes_def)
qed

lemma all_within_tcp:
  assumes "all_within c" and "\<And>t S. x = (Inr (Some t), S) \<Longrightarrow> within (t_activity t) 12"
  shows "all_within (tcp_goes fd x c)"
proof -
  obtain r S where "x = (r, S)" by fastforce
  with assms show ?thesis by (cases r) (auto simp: all_within_def tcp_goes_def)
qed

lemma tcp_advance_within:
  assumes "db_ok (env_mysql E) (inventory S)" and "tcp_advance E t p S = (Inr (Some t'), S')" and "within (Working p) b"
  shows "within (t_activity t') (b - 1)"
  using assms(2) advance_within[OF assms(1) _ assms(3)]
  by (auto simp: tcp_advance_def split: prod.splits sum.splits)

lemma step_all_within:
  assumes "step E c c'" and ok: "system_ok E c" and len: "all_within c"
  shows "all_within c'"
proof -
  have db: "db_ok (env_mysql E) (inventory (server c))" using ok by (simp add: system_ok_def state_ok_def)
  from assms(1) show ?thesis
  proof cases
    case (time now)
    with len show ?thesis by (simp add: all_within_def)
  next
    case (datagram s input)
    then show ?thesis by (auto intro!: all_within_udp[OF len] dest: udp_receive_within)
  next
    case (udp_act p)
    with len have "within (Working p) 12" by (simp add: all_within_def)
    with udp_act show ?thesis
      by (auto intro!: all_within_udp[OF len] dest!: advance_within[OF db] simp del: within.simps(2) elim: within_more)
  next
    case (accept fd db_port accepts cli_addr)
    with len show ?thesis by (auto simp: accept_step_def all_within_def split: sum.split)
  next
    case (stream fd t s input)
    have "all_within (departs t input c)" using len by (simp add: all_within_def)
    with stream show ?thesis by (auto intro!: all_within_tcp dest: tcp_receive_within)
  next
    case (erases pid)
    with len show ?thesis by (simp add: all_within_def erase_step_def)
  next
    case (tcp_act fd t p)
    with len have "within (Working p) 12" by (force simp: all_within_def simp del: within.simps(2))
    with tcp_act show ?thesis
      by (auto intro!: all_within_tcp[OF len] dest!: tcp_advance_within[OF db] simp del: within.simps(2) elim: within_more)
  next
    case cleanup
    with len show ?thesis by (simp add: all_within_def cleanup_step_def)
  qed (use len in \<open>simp_all add: all_within_def\<close>)
qed

lemma reachable_all_within: "\<lbrakk>reachable E d c; db_ok (env_mysql E) d\<rbrakk> \<Longrightarrow> all_within c"
proof (induction rule: reachable.induct)
  case (reach_start now)
  show ?case by (simp add: all_within_def initial_def)
next
  case (reach_step c c')
  then show ?case using step_all_within reachable_system_ok by blast
qed

text \<open>
  \<open>works E act n c c'\<close>: the system goes from \<open>c\<close> to \<open>c'\<close>, and a thread, whose activity is \<open>act\<close> of the
  state, makes \<open>n\<close> steps of its own; it does not take up another message.
\<close>

inductive works :: "'j env \<Rightarrow> (system \<Rightarrow> activity option) \<Rightarrow> nat \<Rightarrow> system \<Rightarrow> system \<Rightarrow> bool" for E act where
  begin_work: "works E act 0 c c"
| others_work: "\<lbrakk>works E act n c c1; step E c1 c2; act c2 = act c1\<rbrakk> \<Longrightarrow> works E act n c c2"
| own_step: "\<lbrakk>works E act n c c1; act c1 = Some (Working p); step E c1 c2; act c2 \<noteq> act c1\<rbrakk> \<Longrightarrow> works E act (Suc n) c c2"

abbreviation udp_activity :: "system \<Rightarrow> activity option" where
  "udp_activity c \<equiv> Some (udp c)"

definition tcp_activity :: "int \<Rightarrow> system \<Rightarrow> activity option" where
  "tcp_activity fd c = map_option t_activity (tcp c fd)"

text \<open>A step that changes what a working thread does is an action of this thread.\<close>

lemma udp_own_step:
  assumes "step E c c'" and "system_ok E c" and "udp c = Working p" and "udp c' \<noteq> udp c" and "within (udp c) b"
  shows "within (udp c') (b - 1)"
proof -
  have db: "db_ok (env_mysql E) (inventory (server c))" using assms(2) by (simp add: system_ok_def state_ok_def)
  from assms(1) show ?thesis
  proof cases
    case (udp_act q)
    obtain r S where "advance E q (server c) = (r, S)" by fastforce
    with udp_act assms(3-5) advance_within[OF db] show ?thesis
      by (cases r) (auto simp: udp_goes_def simp del: within.simps(2))
  qed (use assms(3,4) in \<open>auto simp: tcp_goes_def accept_step_def cleanup_step_def erase_step_def split: prod.splits sum.splits\<close>)
qed

lemma tcp_own_step:
  assumes "step E c c'" and "system_ok E c" and "tcp c fd = Some t" "t_activity t = Working p"
    and "tcp_activity fd c' \<noteq> tcp_activity fd c" and "within (t_activity t) b"
  shows "\<exists>t'. tcp c' fd = Some t' \<and> within (t_activity t') (b - 1)"
proof -
  have db: "db_ok (env_mysql E) (inventory (server c))" using assms(2) by (simp add: system_ok_def state_ok_def)
  from assms(1) show ?thesis
  proof cases
    case (tcp_act fd' u q)
    then have "fd' = fd" using assms(5) by (auto simp: tcp_activity_def tcp_goes_def split: prod.splits sum.splits if_splits)
    obtain r S where run: "tcp_advance E u q (server c) = (r, S)" by fastforce
    from run show ?thesis
    proof (cases rule: tcp_advance_cases)
      case (thrown e)
      with tcp_act run assms(5) show ?thesis by (simp add: tcp_activity_def tcp_goes_def)
    next
      case (goes_on a)
      have "u = t" "q = p" using tcp_act assms(3,4) \<open>fd' = fd\<close> by simp_all
      with goes_on run assms(4,6) tcp_advance_within[OF db, of t p "t\<lparr>t_activity := a\<rparr>" S b]
      have "within a (b - 1)" by (simp del: within.simps(2))
      with tcp_act run goes_on \<open>fd' = fd\<close> show ?thesis by (simp add: tcp_goes_def)
    qed
  next
    case (stream fd' u s input)
    with assms(3,4) have "fd' \<noteq> fd" by auto
    with stream assms(5) show ?thesis by (auto simp: tcp_activity_def tcp_goes_def split: prod.splits sum.splits)
  next
    case (accept fd' db_port accepts cli_addr)
    with assms(3) have "fd' \<noteq> fd" by auto
    with accept assms(5) show ?thesis by (auto simp: tcp_activity_def accept_step_def split: sum.splits)
  qed (use assms(5) in \<open>auto simp: tcp_activity_def udp_goes_def cleanup_step_def erase_step_def split: prod.splits sum.splits\<close>)
qed

lemma works_reachable: "\<lbrakk>works E act n c c'; reachable E d c\<rbrakk> \<Longrightarrow> reachable E d c'"
  by (induction rule: works.induct) (auto intro: reach_step)

lemma works_within:
  assumes "works E act n c c'" and "reachable E d c" and "db_ok (env_mysql E) d"
    and start: "\<And>a. act c = Some a \<Longrightarrow> within a 12"
    and own: "\<And>c1 c2 p a b. \<lbrakk>step E c1 c2; system_ok E c1; act c1 = Some (Working p); act c2 \<noteq> act c1;
       within (Working p) b; act c2 = Some a\<rbrakk> \<Longrightarrow> within a (b - 1)"
    and "act c' = Some a"
  shows "within a (12 - int n)"
  using assms(1,2,6) start
proof (induction arbitrary: a rule: works.induct)
  case (own_step n c c1 p c2)
  have "within (Working p) (12 - int n)" using own_step by blast
  moreover have "system_ok E c1"
    using reachable_system_ok[OF works_reachable assms(3)] own_step by blast
  ultimately have "within a (12 - int n - 1)" using own own_step by blast
  then show ?case by (simp add: algebra_simps)
qed auto

section \<open>Property\<close>

text \<open>
  C22: a thread is done with a message after twelve actions of its own, however many steps the other
  threads make between them: after more than twelve steps it waits for the next message, or the process
  has ended.
\<close>

theorem message_takes_twelve_actions:
  assumes "reachable E d c" and "db_ok (env_mysql E) d"
  shows "(works E udp_activity n c c' \<and> udp_activity c' = Some (Working p) \<longrightarrow> n \<le> 12)
    \<and> (works E (tcp_activity fd) n c c' \<and> tcp_activity fd c' = Some (Working p) \<longrightarrow> n \<le> 12)"
proof -
  have all: "all_within c" using assms by (rule reachable_all_within)
  have short: "n \<le> 12" if "within (Working p) (12 - int n)"
    using account_covered[of each_one p "12 - int n"] that by simp
  have "within (Working p) (12 - int n)" if "works E udp_activity n c c'" "udp_activity c' = Some (Working p)"
    by (rule works_within[OF that(1) assms _ _ that(2)])
      (use all udp_own_step in \<open>auto simp: all_within_def simp del: within.simps(2)\<close>)
  moreover have "within (Working p) (12 - int n)"
    if "works E (tcp_activity fd) n c c'" "tcp_activity fd c' = Some (Working p)"
    by (rule works_within[OF that(1) assms _ _ that(2)])
      (use all tcp_own_step in \<open>fastforce simp: all_within_def tcp_activity_def simp del: within.simps(2)\<close>)+
  ultimately show ?thesis using short by blast
qed

section \<open>Witness\<close>

text \<open>The UDP thread between the acknowledgement of a message and its processing.\<close>

theorem message_takes_twelve_actions_witness:
  "\<exists>c c' p. works env0 udp_activity 1 c c' \<and> udp c' = Working p \<and> (1::nat) \<le> 12"
proof -
  let ?c0 = "initial (seed_db 1000) 0" and ?in = "Datagram ''LIST_CLIENTS'' (sample_addr 5000)"
  let ?c1 = "udp_goes (udp_receive env0 (clock ?c0) ?in new_session (server ?c0)) ?c0"
  have c0: "crashed ?c0 = None" "udp ?c0 = Waiting new_session" by (simp_all add: initial_def)
  have first: "reachable env0 (seed_db 1000) ?c1"
    by (rule reach_step[OF reach_start step.datagram[OF c0]])
  have "recv_buffer 2048 ''LIST_CLIENTS'' = ''LIST_CLIENTS''" by (simp add: recv_buffer_def c_str_def)
  moreover have "atoi ''LIST_CLIENTS'' = 0" by code_simp
  ultimately have c1: "udp ?c1 = Working (Act (Transmit (Sendto (sample_addr 5000) ''UDP Server received your message.''))
      (\<lambda>_. run_steps [process_steps ''LIST_CLIENTS'' ''UDP''] new_session))" "crashed ?c1 = None"
    by (simp_all add: udp_receive_unfold udp_goes_def BUFFER_SIZE_SERVER_def message_steps_def reply_steps_def
        udp_reply_steps_def c0)
  let ?p = "run_steps [process_steps ''LIST_CLIENTS'' ''UDP''] new_session"
  obtain S where S: "advance env0 (Act (Transmit (Sendto (sample_addr 5000) ''UDP Server received your message.''))
      (\<lambda>_. ?p)) (server ?c1) = (Inr (Working ?p), S)"
    by (simp add: split_beta)
  let ?c2 = "udp_goes (Inr (Working ?p), S) ?c1"
  have "step env0 ?c1 ?c2" using step.udp_act[OF c1(2,1), of env0] S by simp
  moreover have c2: "udp ?c2 = Working ?p" by (simp add: udp_goes_def)
  moreover have "udp ?c2 \<noteq> udp ?c1" unfolding c1 c2 by (simp add: process_steps_def new_session_def)
  ultimately have work: "works env0 udp_activity 1 ?c1 ?c2"
    using works.own_step[OF works.begin_work, of udp_activity ?c1 _ env0 ?c2] c1(1) by simp
  with message_takes_twelve_actions[OF first, of 1 ?c2 ?p 0] c2 show ?thesis
    by (intro exI[of _ ?c1] exI[of _ ?c2] exI[of _ ?p]) (simp add: db_ok_seed)
qed

end
