(* ===== verification/C_Input.thy ===== *)
theory C_Input
  imports Cpp_Text
begin

text \<open>
  How the C client reads its standard input: \<open>fgets\<close>, \<open>scanf\<close> and \<open>sscanf\<close> with \<open>"%d"\<close>, and the two
  input loops \<open>get_int_input\<close> of \<open>menu.c\<close> and \<open>get_non_empty_input\<close> of \<open>utils.c\<close>.  The input is the
  text that is still to be read; its end is the end of the file.  Every function returns the rest.
\<close>

section \<open>fgets\<close>

fun line_upto :: "nat \<Rightarrow> string \<Rightarrow> string \<times> string" where
  "line_upto 0 s = ([], s)"
| "line_upto (Suc n) [] = ([], [])"
| "line_upto (Suc n) (c # s) =
     (if c = CHR 0x0A then ([c], s) else let (line, rest) = line_upto n s in (c # line, rest))"

text \<open>At most \<open>size - 1\<close> characters up to and with the next line break; \<open>None\<close> is \<open>NULL\<close>.\<close>

definition fgets :: "nat \<Rightarrow> string \<Rightarrow> (string \<times> string) option" where
  "fgets sz s = (if s = [] then None else Some (line_upto (sz - 1) s))"

text \<open>\<open>line[strcspn(line, "\n")] = '\0'\<close>, then read as a C string.\<close>

definition chomp :: "string \<Rightarrow> string" where
  "chomp line = takeWhile (\<lambda>c. c \<noteq> CHR 0x0A \<and> c \<noteq> CHR 0x00) line"

lemma line_upto_append: "fst (line_upto n s) @ snd (line_upto n s) = s"
  by (induction n s rule: line_upto.induct) (auto split: prod.splits)

lemma fgets_append: "fgets sz s = Some (line, rest) \<Longrightarrow> line @ rest = s"
  using line_upto_append[of "sz - 1" s] by (auto simp: fgets_def split: if_splits)

lemma length_line_upto: "length (fst (line_upto n s)) \<le> n"
  by (induction n s rule: line_upto.induct) (auto split: prod.splits)

lemma fgets_consumes: "\<lbrakk>fgets sz s = Some (line, rest); 2 \<le> sz\<rbrakk> \<Longrightarrow> length rest < length s"
proof -
  assume g: "fgets sz s = Some (line, rest)" and sz: "2 \<le> sz"
  obtain c s' n where "s = c # s'" "sz - 1 = Suc n"
    using g sz by (cases s; cases "sz - 1") (auto simp: fgets_def)
  then have "line \<noteq> []" using g by (auto simp: fgets_def split: if_splits prod.splits)
  with fgets_append[OF g] show ?thesis by (cases line) auto
qed

lemma fgets_rest_le: "fgets sz s = Some (line, rest) \<Longrightarrow> length rest \<le> length s"
  using fgets_append by (metis le_add2 length_append)

text \<open>A line that fits is read whole; of a longer one the next read gets the rest.\<close>

lemma line_upto_fits:
  "\<lbrakk>CHR 0x0A \<notin> set line; length line < n\<rbrakk> \<Longrightarrow> line_upto n (line @ CHR 0x0A # rest) = (line @ [CHR 0x0A], rest)"
proof (induction line arbitrary: n)
  case Nil
  then show ?case by (cases n) auto
next
  case (Cons c line)
  then show ?case by (cases n) auto
qed

lemma fgets_fits:
  "\<lbrakk>CHR 0x0A \<notin> set line; length line + 1 < sz\<rbrakk>
   \<Longrightarrow> fgets sz (line @ CHR 0x0A # rest) = Some (line @ [CHR 0x0A], rest)"
  by (simp add: fgets_def line_upto_fits)

lemma line_upto_splits:
  "\<lbrakk>CHR 0x0A \<notin> set line; n \<le> length line\<rbrakk> \<Longrightarrow> line_upto n (line @ rest) = (take n line, drop n line @ rest)"
proof (induction line arbitrary: n)
  case Nil
  then show ?case by simp
next
  case (Cons c line)
  then show ?case by (cases n) auto
qed

definition plain_line :: "string \<Rightarrow> bool" where
  "plain_line s \<longleftrightarrow> CHR 0x0A \<notin> set s \<and> CHR 0x00 \<notin> set s"

lemma chomp_line [simp]: "plain_line line \<Longrightarrow> chomp (line @ [CHR 0x0A]) = line"
  by (induction line) (auto simp: chomp_def plain_line_def)

lemma chomp_plain [simp]: "plain_line line \<Longrightarrow> chomp line = line"
  by (auto simp: chomp_def plain_line_def takeWhile_eq_all_conv)

lemma plain_line_chomp: "plain_line (chomp line)"
  by (auto simp: plain_line_def chomp_def dest: set_takeWhileD)

lemma length_chomp_fgets: "\<lbrakk>fgets sz s = Some (line, rest); 2 \<le> sz\<rbrakk> \<Longrightarrow> length (chomp line) < sz"
proof -
  assume g: "fgets sz s = Some (line, rest)" and sz: "2 \<le> sz"
  have "length (chomp line) \<le> length line" by (simp add: chomp_def length_takeWhile_le)
  also have "\<dots> \<le> sz - 1"
    using g length_line_upto[of "sz - 1" s] by (auto simp: fgets_def split: if_splits)
  finally show ?thesis using sz by simp
qed

section \<open>Numbers\<close>

text \<open>\<open>%d\<close> converts as \<open>strtol\<close> does and keeps the low 32 bits, as \<open>atoi\<close>.\<close>

definition scan_int :: "string \<Rightarrow> int option" where
  "scan_int s = map_option (\<lambda>n. cast_int (clamp_long n)) (strtol_value s)"

definition sscanf_int :: "string \<Rightarrow> int option" where
  "sscanf_int buffer = scan_int (c_str buffer)"

text \<open>\<open>scanf\<close> leaves what it did not match; a sign without digits is consumed.\<close>

definition scanf_int :: "string \<Rightarrow> int option \<times> string" where
  "scanf_int s =
     (let s1 = dropWhile c_isspace s;
          s2 = (if s1 \<noteq> [] \<and> (hd s1 = CHR ''-'' \<or> hd s1 = CHR ''+'') then tl s1 else s1)
      in (scan_int s, dropWhile c_isdigit s2))"

definition getchar :: "string \<Rightarrow> string" where
  "getchar s = tl s"

lemma length_dropWhile_takeWhile: "length (dropWhile P s) = length s - length (takeWhile P s)"
  by (metis add_diff_cancel_left' length_append takeWhile_dropWhile_id)

lemma scanf_int_rest: "scanf_int s = (c, rest) \<Longrightarrow> length rest \<le> length s"
  by (auto simp: scanf_int_def Let_def intro!: length_dropWhile_le[THEN le_trans] diff_le_self[THEN le_trans])

lemma scanf_int_consumes: "scanf_int s = (Some n, rest) \<Longrightarrow> length rest < length s"
proof -
  assume g: "scanf_int s = (Some n, rest)"
  define s1 where "s1 = dropWhile c_isspace s"
  define s2 where "s2 = (if s1 \<noteq> [] \<and> (hd s1 = CHR ''-'' \<or> hd s1 = CHR ''+'') then tl s1 else s1)"
  have digits: "takeWhile c_isdigit s2 \<noteq> []"
    using g by (auto simp: scanf_int_def scan_int_def strtol_value_def Let_def s1_def s2_def split: if_splits)
  have "rest = dropWhile c_isdigit s2"
    using g unfolding scanf_int_def Let_def s1_def[symmetric] s2_def[symmetric] by simp
  moreover from digits have "length (dropWhile c_isdigit s2) < length s2"
    by (cases s2) (auto simp: le_imp_less_Suc length_dropWhile_le split: if_splits)
  moreover have "length s2 \<le> length s1" by (auto simp: s2_def)
  moreover have "length s1 \<le> length s" by (simp add: s1_def length_dropWhile_le)
  ultimately show ?thesis by simp
qed

section \<open>get_int_input\<close>

definition BUFFER_SIZE_MENU :: nat where "BUFFER_SIZE_MENU = 1024"

definition menu_char :: "char \<Rightarrow> bool" where
  "menu_char c \<longleftrightarrow> c = CHR '' '' \<or> c = CHR 0x09 \<or> c = CHR 0x0A \<or> c_isdigit c"

text \<open>The option and the rest of the input.  At the end of the input the least option is returned.\<close>

function get_int_input :: "int \<Rightarrow> int \<Rightarrow> string \<Rightarrow> int \<times> string" where
  "get_int_input mn mx s =
     (case fgets BUFFER_SIZE_MENU s of
        None \<Rightarrow> (mn, s)
      | Some (buffer, rest) \<Rightarrow>
          (case sscanf_int buffer of
             None \<Rightarrow> get_int_input mn mx rest
           | Some n \<Rightarrow>
               if list_all menu_char (c_str buffer) \<and> mn \<le> n \<and> n \<le> mx then (n, rest)
               else get_int_input mn mx rest))"
  by pat_completeness auto
termination
  by (relation "measure (\<lambda>(_, _, s). length s)") (auto simp: BUFFER_SIZE_MENU_def intro: fgets_consumes)

declare get_int_input.simps [simp del]

lemma get_int_input_range: "mn \<le> mx \<Longrightarrow> mn \<le> fst (get_int_input mn mx s) \<and> fst (get_int_input mn mx s) \<le> mx"
proof (induction mn mx s rule: get_int_input.induct)
  case (1 mn mx s)
  then show ?case
    by (subst (1 2) get_int_input.simps) (auto split: option.split)
qed

lemma get_int_input_rest: "length (snd (get_int_input mn mx s)) \<le> length s"
proof (induction mn mx s rule: get_int_input.induct)
  case (1 mn mx s)
  have *: "length rest \<le> length s" if "fgets BUFFER_SIZE_MENU s = Some (buffer, rest)" for buffer rest
    using that by (rule fgets_rest_le)
  show ?case
    by (subst get_int_input.simps) (auto split: option.split intro: * order_trans[OF 1(1)] order_trans[OF 1(2)])
qed

lemma get_int_input_consumes: "s \<noteq> [] \<Longrightarrow> length (snd (get_int_input mn mx s)) < length s"
proof -
  assume "s \<noteq> []"
  then obtain buffer rest where g: "fgets BUFFER_SIZE_MENU s = Some (buffer, rest)"
    by (cases "fgets BUFFER_SIZE_MENU s") (auto simp: fgets_def)
  then have "length rest < length s" by (rule fgets_consumes) (simp add: BUFFER_SIZE_MENU_def)
  moreover have "snd (get_int_input mn mx s) = rest \<or> snd (get_int_input mn mx s) = snd (get_int_input mn mx rest)"
    by (simp add: get_int_input.simps[of mn mx s] g split: option.split)
  ultimately show ?thesis using get_int_input_rest[of mn mx rest] by auto
qed

lemma get_int_input_eof [simp]: "get_int_input mn mx [] = (mn, [])"
  by (subst get_int_input.simps) (simp add: fgets_def)

lemma menu_char_digits: "list_all menu_char (nat_digits n)"
  using nat_digits_all_digits[of n] by (auto simp: list_all_iff menu_char_def)

lemma plain_nat_digits: "plain_line (nat_digits n)"
proof -
  have "\<not> c_isdigit CHR 0x0A" "\<not> c_isdigit CHR 0x00" by (simp_all add: c_isdigit_def)
  then show ?thesis using nat_digits_all_digits[of n] by (auto simp: plain_line_def list_all_iff)
qed

section \<open>get_non_empty_input\<close>

text \<open>Every caller passes \<open>BUFFER_LIMIT\<close> as the size; the prompt is left out.\<close>

definition BUFFER_LIMIT :: nat where "BUFFER_LIMIT = 100"

function get_non_empty_input :: "string \<Rightarrow> string \<times> string" where
  "get_non_empty_input s =
     (case fgets BUFFER_LIMIT s of
        None \<Rightarrow> ([], s)
      | Some (line, rest) \<Rightarrow>
          let buffer = chomp line
          in if buffer = [] then get_non_empty_input rest else (buffer, rest))"
  by pat_completeness auto
termination
  by (relation "measure length") (auto simp: BUFFER_LIMIT_def intro: fgets_consumes)

declare get_non_empty_input.simps [simp del]

lemma get_non_empty_input_line:
  assumes "line \<noteq> []" "plain_line line" "length line < 99"
  shows "get_non_empty_input (line @ CHR 0x0A # rest) = (line, rest)"
  using assms by (subst get_non_empty_input.simps) (simp add: fgets_fits plain_line_def BUFFER_LIMIT_def)

text \<open>A line of 99 or more characters is cut, and the next prompt gets the rest of it.\<close>

lemma get_non_empty_input_splits:
  assumes "plain_line line" "99 \<le> length line"
  shows "get_non_empty_input (line @ CHR 0x0A # rest) = (take 99 line, drop 99 line @ CHR 0x0A # rest)"
proof -
  have "plain_line (take 99 line)" using assms(1) by (auto simp: plain_line_def dest: in_set_takeD)
  moreover have "line \<noteq> []" using assms(2) by auto
  ultimately show ?thesis using assms
    by (subst get_non_empty_input.simps) (simp add: fgets_def line_upto_splits plain_line_def BUFFER_LIMIT_def)
qed

lemma get_non_empty_input_length: "length (fst (get_non_empty_input s)) < 100"
proof (induction s rule: get_non_empty_input.induct)
  case (1 s)
  then show ?case
    by (subst get_non_empty_input.simps)
      (auto simp: BUFFER_LIMIT_def Let_def split: option.split dest: length_chomp_fgets)
qed

lemma get_non_empty_input_rest: "get_non_empty_input s = (buffer, rest) \<Longrightarrow> length rest \<le> length s"
proof (induction s arbitrary: buffer rest rule: get_non_empty_input.induct)
  case (1 s)
  show ?case
  proof (cases "fgets BUFFER_LIMIT s")
    case None
    with 1(2) show ?thesis by (subst (asm) get_non_empty_input.simps) simp
  next
    case (Some r)
    then obtain line left where g: "fgets BUFFER_LIMIT s = Some (line, left)" by (cases r) simp
    show ?thesis
    proof (cases "chomp line = []")
      case True
      with 1(2) g have "get_non_empty_input left = (buffer, rest)"
        by (subst (asm) get_non_empty_input.simps) simp
      with 1(1) g True fgets_rest_le[OF g] show ?thesis by fastforce
    next
      case False
      with 1(2) g fgets_rest_le[OF g] show ?thesis by (subst (asm) get_non_empty_input.simps) auto
    qed
  qed
qed

lemma get_non_empty_input_eof [simp]: "get_non_empty_input [] = ([], [])"
  by (subst get_non_empty_input.simps) (simp add: fgets_def)

lemma get_non_empty_input_nonempty:
  "get_non_empty_input s = (buffer, rest) \<Longrightarrow> buffer \<noteq> [] \<or> rest = []"
proof (induction s arbitrary: buffer rest rule: get_non_empty_input.induct)
  case (1 s)
  show ?case
  proof (cases "fgets BUFFER_LIMIT s")
    case None
    then have "s = []" by (simp add: fgets_def split: if_splits)
    with 1(2) show ?thesis by simp
  next
    case (Some r)
    then obtain line left where g: "fgets BUFFER_LIMIT s = Some (line, left)" by (cases r) simp
    show ?thesis
    proof (cases "chomp line = []")
      case True
      with 1(2) g have "get_non_empty_input left = (buffer, rest)"
        by (subst (asm) get_non_empty_input.simps) simp
      with 1(1) g True show ?thesis by blast
    next
      case False
      with 1(2) g show ?thesis by (subst (asm) get_non_empty_input.simps) auto
    qed
  qed
qed

end
