(* ===== verification/Client_Request.thy ===== *)
theory Client_Request
  imports C_Input Json_Sample
begin

text \<open>
  The client's side of an order: \<open>utils.c\<close>, which fills in the template of a request from the user's
  input, and the exchange with the server in \<open>client.c\<close>: connecting, sending with retries, and the
  thread that shows incoming messages.  cJSON, the clock, the generator of UUIDs and the sockets are
  not part of the sources; what they answer is an argument.
\<close>

section \<open>cJSON\<close>

text \<open>
  A tree is a value of type \<open>'c\<close>.  \<open>cj_get\<close> is \<open>cJSON_GetObjectItem\<close>, and \<open>None\<close> is \<open>NULL\<close>;
  \<open>cj_replace j k v\<close> is \<open>j\<close> after \<open>cJSON_ReplaceItemInObject(j, k, v)\<close>.  A pointer into a tree leads to
  a part of it: \<open>cj_update j k v\<close> is \<open>j\<close> after the item that \<open>cj_get j k\<close> points to has been changed to
  \<open>v\<close> where it stands.  \<open>cj_keys\<close> are the keys of an object, in order.
\<close>

record 'c cjson =
  cj_parse :: "string \<Rightarrow> 'c option"
  cj_print :: "'c \<Rightarrow> string option"
  cj_string :: "string \<Rightarrow> 'c"
  cj_number :: "int \<Rightarrow> 'c"
  cj_get :: "'c \<Rightarrow> string \<Rightarrow> 'c option"
  cj_replace :: "'c \<Rightarrow> string \<Rightarrow> 'c \<Rightarrow> 'c"
  cj_update :: "'c \<Rightarrow> string \<Rightarrow> 'c \<Rightarrow> 'c"
  cj_keys :: "'c \<Rightarrow> string list"

text \<open>
  Documented: the first member whose key is the given one, compared without case, is found and
  replaced, and the others stay.
\<close>

definition same_member :: "string \<Rightarrow> string \<Rightarrow> bool" where
  "same_member k k' \<longleftrightarrow> map c_tolower k = map c_tolower k'"

definition cjson_ok :: "'c cjson \<Rightarrow> bool" where
  "cjson_ok C \<longleftrightarrow> (\<forall>j k v k'.
     cj_get C (cj_replace C j k v) k' =
       (if cj_get C j k \<noteq> None \<and> same_member k k' then Some v else cj_get C j k')
   \<and> cj_get C (cj_update C j k v) k' =
       (if cj_get C j k \<noteq> None \<and> same_member k k' then Some v else cj_get C j k'))"

text \<open>
  Documented of the keys: a replaced member gets the key it was asked for by, which may differ in its
  case; a change inside a member leaves the keys alone.
\<close>

fun rename_first :: "string \<Rightarrow> string list \<Rightarrow> string list" where
  "rename_first k [] = []"
| "rename_first k (k' # ks) = (if same_member k k' then k # ks else k' # rename_first k ks)"

definition cjson_keys_ok :: "'c cjson \<Rightarrow> bool" where
  "cjson_keys_ok C \<longleftrightarrow> (\<forall>j k v.
     (cj_get C j k \<noteq> None \<longleftrightarrow> list_ex (same_member k) (cj_keys C j))
   \<and> cj_keys C (cj_replace C j k v) = rename_first k (cj_keys C j)
   \<and> cj_keys C (cj_update C j k v) = cj_keys C j)"

text \<open>
  The tree after \<open>cJSON_ReplaceItemInObject\<close> on the member that a path of \<open>cJSON_GetObjectItem\<close> calls
  leads to.  The call changes the subtree in place; on \<open>NULL\<close> it does nothing.
\<close>

fun replace_at :: "'c cjson \<Rightarrow> string list \<Rightarrow> string \<Rightarrow> 'c \<Rightarrow> 'c \<Rightarrow> 'c" where
  "replace_at C [] k v j = cj_replace C j k v"
| "replace_at C (p # ps) k v j =
     (case cj_get C j p of None \<Rightarrow> j | Some sub \<Rightarrow> cj_update C j p (replace_at C ps k v sub))"

fun member_at :: "'c cjson \<Rightarrow> string list \<Rightarrow> 'c \<Rightarrow> 'c option" where
  "member_at C [] j = Some j"
| "member_at C (p # ps) j = (case cj_get C j p of None \<Rightarrow> None | Some sub \<Rightarrow> member_at C ps sub)"

section \<open>The request\<close>

text \<open>The file's content is \<open>None\<close> if it cannot be opened or there is no memory for it.\<close>

definition read_json_from_file :: "'c cjson \<Rightarrow> string option \<Rightarrow> 'c option" where
  "read_json_from_file C file = (case file of None \<Rightarrow> None | Some json_data \<Rightarrow> cj_parse C (c_str json_data))"

datatype field_kind = Text_field | Number_field

definition field_value :: "'c cjson \<Rightarrow> field_kind \<Rightarrow> string \<Rightarrow> 'c" where
  "field_value C kind buffer = (case kind of Text_field \<Rightarrow> cj_string C buffer | Number_field \<Rightarrow> cj_number C (atoi buffer))"

text \<open>The fields the user is asked for, in the order of the prompts.\<close>

definition order_fields :: "(string list \<times> string \<times> field_kind) list" where
  "order_fields =
     [([''general_info'', ''source''], ''type'', Text_field),
      ([''general_info'', ''source''], ''location'', Number_field),
      ([''general_info'', ''destination''], ''type'', Text_field),
      ([''general_info'', ''destination''], ''location'', Number_field),
      ([''general_info'', ''action''], ''type'', Text_field),
      ([''general_info'', ''action'', ''product''], ''id'', Text_field),
      ([''general_info'', ''action'', ''product''], ''name'', Text_field),
      ([''general_info'', ''action'', ''product''], ''quantity'', Number_field),
      ([''general_info'', ''metadata''], ''message'', Text_field),
      ([''general_info'', ''metadata''], ''priority'', Text_field),
      ([''general_info'', ''metadata''], ''protocol'', Text_field)]"

fun ask_fields :: "'c cjson \<Rightarrow> (string list \<times> string \<times> field_kind) list \<Rightarrow> 'c \<Rightarrow> string \<Rightarrow> 'c \<times> string" where
  "ask_fields C [] json s = (json, s)"
| "ask_fields C ((path, key, kind) # fs) json s =
     (let (buffer, s) = get_non_empty_input s
      in ask_fields C fs (replace_at C path key (field_value C kind buffer) json) s)"

text \<open>\<open>uuid\<close> and \<open>date\<close> are what \<open>uuid_unparse\<close> and \<open>strftime\<close> write.\<close>

definition update_json_with_user_input ::
  "'c cjson \<Rightarrow> string \<Rightarrow> string \<Rightarrow> 'c \<Rightarrow> string \<Rightarrow> 'c \<times> string" where
  "update_json_with_user_input C uuid date json s =
     (let json = replace_at C [''general_info''] ''id'' (cj_string C uuid) json;
          (json, s) = ask_fields C order_fields json s
      in (replace_at C [''general_info'', ''metadata''] ''date'' (cj_string C date) json, s))"

section \<open>Connecting\<close>

definition BUFFER_SIZE_CLIENT :: nat where "BUFFER_SIZE_CLIENT = 4096"
definition MAX_RETRIES :: nat where "MAX_RETRIES = 3"

datatype protocol = UDP | TCP

text \<open>The system calls of \<open>start_message_receiver\<close>: \<open>malloc\<close>, \<open>setsockopt\<close> (UDP only), \<open>pthread_create\<close>.\<close>

record receiver_os =
  ro_malloc :: bool
  ro_setsockopt :: int
  ro_pthread_create :: int

definition start_message_receiver :: "receiver_os \<Rightarrow> protocol \<Rightarrow> int" where
  "start_message_receiver os proto =
     (if \<not> ro_malloc os then - 1
      else if proto = UDP \<and> ro_setsockopt os < 0 then - 1
      else if ro_pthread_create os \<noteq> 0 then - 1
      else 0)"

text \<open>
  \<open>sprintf(cl_pid_str, "%d", client_pid)\<close> into six bytes; with a longer number it writes past the
  buffer, and there is no value.  \<open>junk\<close> is the indeterminate rest of the buffer.
\<close>

definition cl_pid_str :: "int \<Rightarrow> string \<Rightarrow> string option" where
  "cl_pid_str pid junk =
     (if length (to_string pid) < 6 then Some (take 6 (to_string pid @ CHR 0x00 # junk)) else None)"

record connect_os =
  co_gethostbyname :: bool
  co_socket :: int
  co_connect :: int
  co_getpid :: int
  co_junk :: string
  co_send :: int
  co_receiver :: receiver_os

text \<open>The return value and the bytes that were sent; \<open>None\<close> if the process id overflows its buffer.\<close>

definition initialize_client_udp :: "connect_os \<Rightarrow> (int \<times> string list) option" where
  "initialize_client_udp os =
     (if \<not> co_gethostbyname os then Some (- 1, [])
      else if co_socket os < 0 then Some (- 1, [])
      else (case cl_pid_str (co_getpid os) (co_junk os) of
         None \<Rightarrow> None
       | Some pid_str \<Rightarrow>
           if co_send os < 0 then Some (- 1, [])
           else if start_message_receiver (co_receiver os) UDP \<noteq> 0 then Some (- 1, [pid_str])
           else Some (0, [pid_str])))"

definition initialize_client_tcp :: "connect_os \<Rightarrow> (int \<times> string list) option" where
  "initialize_client_tcp os =
     (if \<not> co_gethostbyname os then Some (- 1, [])
      else if co_socket os < 0 then Some (- 1, [])
      else if co_connect os < 0 then Some (- 1, [])
      else (case cl_pid_str (co_getpid os) (co_junk os) of
         None \<Rightarrow> None
       | Some pid_str \<Rightarrow>
           if co_send os < 0 then Some (- 1, [])
           else if start_message_receiver (co_receiver os) TCP \<noteq> 0 then Some (- 1, [c_str pid_str])
           else Some (0, [c_str pid_str])))"

section \<open>Sending an order\<close>

text \<open>
  One round of the retry loop: the results of the calls, the bytes received, and whether a failed
  receive is a timeout (\<open>EAGAIN\<close> or \<open>EWOULDBLOCK\<close>).
\<close>

record attempt =
  at_send :: int
  at_select :: int
  at_setsockopt :: int
  at_recv :: int
  at_timeout :: bool
  at_data :: string

text \<open>The return value, the messages sent, and the response that is shown.\<close>

record exchange =
  ex_result :: int
  ex_sent :: "string list"
  ex_response :: "string option"

text \<open>\<open>os i\<close> is the round after \<open>i\<close> timeouts.\<close>

function udp_rounds :: "(nat \<Rightarrow> attempt) \<Rightarrow> string \<Rightarrow> nat \<Rightarrow> string list \<Rightarrow> exchange" where
  "udp_rounds os buffer_send retries sent =
     (if retries \<le> MAX_RETRIES then
        let a = os retries
        in if at_send a < 0 then \<lparr>ex_result = - 1, ex_sent = sent, ex_response = None\<rparr>
           else let sent = sent @ [buffer_send]
           in if at_select a = - 1 then \<lparr>ex_result = - 1, ex_sent = sent, ex_response = None\<rparr>
              else if at_select a = 0 then udp_rounds os buffer_send (retries + 1) sent
              else if at_recv a < 0 then \<lparr>ex_result = - 1, ex_sent = sent, ex_response = None\<rparr>
              else \<lparr>ex_result = 0, ex_sent = sent, ex_response = Some (c_str (take BUFFER_SIZE_CLIENT (at_data a)))\<rparr>
      else \<lparr>ex_result = 1, ex_sent = sent, ex_response = None\<rparr>)"
  by pat_completeness auto
termination
  by (relation "measure (\<lambda>(_, _, retries, _). Suc MAX_RETRIES - retries)") auto

function tcp_rounds :: "(nat \<Rightarrow> attempt) \<Rightarrow> string \<Rightarrow> nat \<Rightarrow> string list \<Rightarrow> exchange" where
  "tcp_rounds os buffer_send retries sent =
     (if retries \<le> MAX_RETRIES then
        let a = os retries
        in if at_send a < 0 then \<lparr>ex_result = - 1, ex_sent = sent, ex_response = None\<rparr>
           else let sent = sent @ [buffer_send]
           in if at_setsockopt a < 0 then \<lparr>ex_result = - 1, ex_sent = sent, ex_response = None\<rparr>
              else if at_recv a < 0 then
                if at_timeout a then tcp_rounds os buffer_send (retries + 1) sent
                else \<lparr>ex_result = - 1, ex_sent = sent, ex_response = None\<rparr>
              else \<lparr>ex_result = 0, ex_sent = sent,
                 ex_response = Some (recv_buffer BUFFER_SIZE_CLIENT (at_data a))\<rparr>
      else \<lparr>ex_result = 1, ex_sent = sent, ex_response = None\<rparr>)"
  by pat_completeness auto
termination
  by (relation "measure (\<lambda>(_, _, retries, _). Suc MAX_RETRIES - retries)") auto

declare udp_rounds.simps [simp del] tcp_rounds.simps [simp del]

text \<open>
  \<open>strncpy\<close> of the text into a buffer of 4096 bytes.  UDP sends the whole zeroed buffer, TCP the text.
\<close>

definition send_text :: "string \<Rightarrow> string" where
  "send_text json_str = take (BUFFER_SIZE_CLIENT - 1) (c_str json_str)"

definition send_buffer :: "string \<Rightarrow> string" where
  "send_buffer json_str =
     send_text json_str @ replicate (BUFFER_SIZE_CLIENT - length (send_text json_str)) (CHR 0x00)"

text \<open>What an order needs besides the input: the template, the UUID, the date, and the rounds.\<close>

record order_os =
  oo_template :: "string option"
  oo_uuid :: string
  oo_date :: string
  oo_rounds :: "nat \<Rightarrow> attempt"

text \<open>The exchange and the input that is left; \<open>None\<close> is \<open>exit(1)\<close>.\<close>

definition client_communicate_udp :: "'c cjson \<Rightarrow> order_os \<Rightarrow> string \<Rightarrow> (exchange \<times> string) option" where
  "client_communicate_udp C os s =
     (case read_json_from_file C (oo_template os) of
        None \<Rightarrow> None
      | Some json \<Rightarrow>
          let (json, s) = update_json_with_user_input C (oo_uuid os) (oo_date os) json s
          in (case cj_print C json of
                None \<Rightarrow> Some (\<lparr>ex_result = - 1, ex_sent = [], ex_response = None\<rparr>, s)
              | Some json_str \<Rightarrow> Some (udp_rounds (oo_rounds os) (send_buffer json_str) 0 [], s)))"

definition client_communicate_tcp :: "'c cjson \<Rightarrow> order_os \<Rightarrow> string \<Rightarrow> exchange \<times> string" where
  "client_communicate_tcp C os s =
     (case read_json_from_file C (oo_template os) of
        None \<Rightarrow> (\<lparr>ex_result = - 1, ex_sent = [], ex_response = None\<rparr>, s)
      | Some json \<Rightarrow>
          let (json, s) = update_json_with_user_input C (oo_uuid os) (oo_date os) json s
          in (case cj_print C json of
                None \<Rightarrow> (\<lparr>ex_result = - 1, ex_sent = [], ex_response = None\<rparr>, s)
              | Some json_str \<Rightarrow> (tcp_rounds (oo_rounds os) (send_text json_str) 0 [], s)))"

section \<open>Incoming messages\<close>

fun contains_text :: "string \<Rightarrow> string \<Rightarrow> bool" where
  "contains_text needle [] \<longleftrightarrow> needle = []"
| "contains_text needle (c # s) \<longleftrightarrow> take (length needle) (c # s) = needle \<or> contains_text needle s"

definition incoming_text :: "string \<Rightarrow> string" where
  "incoming_text buffer =
     newline @ newline @ (if contains_text ''FORWARDED_MESSAGE: '' buffer then ''[INCOMING MESSAGE]: '' else ''[SERVER MESSAGE]: '')
     @ buffer @ newline @ ''Your input > ''"

datatype receive =
    Received string
  | Receive_timeout
  | Receive_error

text \<open>What the thread prints for a sequence of receives; it ends with the first error.\<close>

fun receive_messages_thread :: "protocol \<Rightarrow> receive list \<Rightarrow> string list" where
  "receive_messages_thread proto [] = []"
| "receive_messages_thread proto (Receive_timeout # rs) = receive_messages_thread proto rs"
| "receive_messages_thread proto (Receive_error # rs) = []"
| "receive_messages_thread proto (Received bytes # rs) =
     (if proto = TCP \<and> bytes = [] then [newline @ ''Server closed connection.'' @ newline]
      else incoming_text (recv_buffer BUFFER_SIZE_CLIENT bytes) # receive_messages_thread proto rs)"

section \<open>What a request contains\<close>

text \<open>Two members that no replacement confuses: the paths part at some key.\<close>

fun diverge :: "string list \<Rightarrow> string list \<Rightarrow> bool" where
  "diverge (a # as) (b # bs) \<longleftrightarrow> \<not> same_member a b \<or> a = b \<and> diverge as bs"
| "diverge _ _ \<longleftrightarrow> False"

lemma get_replace:
  assumes "cjson_ok C"
  shows "cj_get C (cj_replace C j k v) k' =
     (if cj_get C j k \<noteq> None \<and> same_member k k' then Some v else cj_get C j k')"
    and "cj_get C (cj_update C j k v) k' =
     (if cj_get C j k \<noteq> None \<and> same_member k k' then Some v else cj_get C j k')"
  using assms by (simp_all add: cjson_ok_def)

lemma same_member_refl [simp]: "same_member k k"
  by (simp add: same_member_def)

lemma member_at_replaced:
  "\<lbrakk>cjson_ok C; member_at C (path @ [k]) j \<noteq> None\<rbrakk> \<Longrightarrow> member_at C (path @ [k]) (replace_at C path k v j) = Some v"
  by (induction path arbitrary: j) (auto simp: get_replace split: option.splits)

lemma member_at_kept:
  "\<lbrakk>cjson_ok C; diverge (path @ [k]) q\<rbrakk> \<Longrightarrow> member_at C q (replace_at C path k v j) = member_at C q j"
proof (induction path arbitrary: j q)
  case Nil
  then show ?case by (cases q) (auto simp: get_replace split: option.splits)
next
  case (Cons p path)
  then show ?case by (cases q) (auto simp: get_replace split: option.splits)
qed

definition field_path :: "string list \<times> string \<times> field_kind \<Rightarrow> string list" where
  "field_path f = fst f @ [fst (snd f)]"

lemma ask_fields_keep:
  "\<lbrakk>cjson_ok C; \<forall>f \<in> set fs. diverge (field_path f) q\<rbrakk> \<Longrightarrow> member_at C q (fst (ask_fields C fs json s)) = member_at C q json"
proof (induction fs arbitrary: json s)
  case Nil
  then show ?case by simp
next
  case (Cons f fs)
  then show ?case
    by (cases f) (auto simp: Let_def field_path_def member_at_kept split: prod.split)
qed

definition input_lines :: "string list \<Rightarrow> string" where
  "input_lines ls = concat (map (\<lambda>l. l @ newline) ls)"

definition entry_ok :: "string \<Rightarrow> bool" where
  "entry_ok l \<longleftrightarrow> l \<noteq> [] \<and> plain_line l \<and> length l < 99"

lemma get_non_empty_input_entry:
  "entry_ok l \<Longrightarrow> get_non_empty_input (input_lines (l # ls) @ rest) = (l, input_lines ls @ rest)"
  by (simp add: entry_ok_def input_lines_def newline_def get_non_empty_input_line)

lemma ask_fields_entered:
  assumes "cjson_ok C" and "length ls = length fs" and "list_all entry_ok ls"
    and "sorted_wrt (\<lambda>f g. diverge (field_path f) (field_path g) \<and> diverge (field_path g) (field_path f)) fs"
    and "\<forall>f \<in> set fs. member_at C (field_path f) json \<noteq> None"
  shows "snd (ask_fields C fs json (input_lines ls @ rest)) = rest
    \<and> (\<forall>i < length fs. member_at C (field_path (fs ! i)) (fst (ask_fields C fs json (input_lines ls @ rest)))
         = Some (field_value C (snd (snd (fs ! i))) (ls ! i)))"
  using assms(2-)
proof (induction fs arbitrary: ls json)
  case Nil
  then show ?case by (simp add: input_lines_def)
next
  case (Cons f fs)
  obtain path key kind where f: "f = (path, key, kind)" by (cases f)
  obtain l ls' where ls: "ls = l # ls'" using Cons.prems(1) by (cases ls) auto
  define json' where "json' = replace_at C path key (field_value C kind l) json"
  have step: "ask_fields C (f # fs) json (input_lines ls @ rest) = ask_fields C fs json' (input_lines ls' @ rest)"
    using Cons.prems(2) by (simp add: f ls json'_def get_non_empty_input_entry)
  have "\<forall>g \<in> set fs. member_at C (field_path g) json' \<noteq> None"
    using Cons.prems(3,4) assms(1) by (auto simp: json'_def f field_path_def member_at_kept)
  with Cons have IH: "snd (ask_fields C fs json' (input_lines ls' @ rest)) = rest
    \<and> (\<forall>i < length fs. member_at C (field_path (fs ! i)) (fst (ask_fields C fs json' (input_lines ls' @ rest)))
         = Some (field_value C (snd (snd (fs ! i))) (ls' ! i)))"
    by (simp add: ls)
  have "member_at C (field_path f) (fst (ask_fields C fs json' (input_lines ls' @ rest))) = member_at C (field_path f) json'"
    using Cons.prems(3) by (intro ask_fields_keep assms(1)) auto
  also have "\<dots> = Some (field_value C kind l)"
    using Cons.prems(4) by (auto simp: json'_def f field_path_def intro: member_at_replaced assms(1))
  finally have first: "member_at C (field_path f) (fst (ask_fields C fs json' (input_lines ls' @ rest)))
      = Some (field_value C kind l)" .
  show ?case unfolding step
  proof (intro conjI allI impI)
    fix i assume "i < length (f # fs)"
    with IH first show "member_at C (field_path ((f # fs) ! i)) (fst (ask_fields C fs json' (input_lines ls' @ rest)))
        = Some (field_value C (snd (snd ((f # fs) ! i))) (ls ! i))"
      by (cases i) (auto simp: ls f)
  qed (use IH in simp)
qed

abbreviation id_path :: "string list" where "id_path \<equiv> [''general_info'', ''id'']"
abbreviation date_path :: "string list" where "date_path \<equiv> [''general_info'', ''metadata'', ''date'']"

definition lower_key :: "string \<Rightarrow> bool" where
  "lower_key k \<longleftrightarrow> map c_tolower k = k"

lemma same_member_lower: "\<lbrakk>lower_key k; lower_key k'\<rbrakk> \<Longrightarrow> same_member k k' \<longleftrightarrow> k = k'"
  by (simp add: lower_key_def same_member_def)

lemma request_keys_lower:
  "list_all lower_key [''general_info'', ''id'', ''source'', ''destination'', ''type'', ''location'', ''action'',
     ''product'', ''name'', ''quantity'', ''metadata'', ''message'', ''priority'', ''protocol'', ''date'']"
  by code_simp

lemmas request_keys = request_keys_lower[simplified] same_member_lower

lemma order_fields_diverge:
  "sorted_wrt (\<lambda>f g. diverge (field_path f) (field_path g) \<and> diverge (field_path g) (field_path f)) order_fields"
  by (simp add: order_fields_def field_path_def request_keys)

lemma id_date_list:
  "list_all (\<lambda>f. diverge id_path (field_path f) \<and> diverge (field_path f) id_path
     \<and> diverge date_path (field_path f) \<and> diverge (field_path f) date_path) order_fields"
  by (simp add: order_fields_def field_path_def request_keys)

lemma id_date_apart: "diverge id_path date_path \<and> diverge date_path id_path"
  by (simp add: request_keys)

lemmas id_date_diverge = id_date_list[unfolded list_all_iff] id_date_apart[THEN conjunct1] id_date_apart[THEN conjunct2]

lemma request_fields:
  assumes "cjson_ok C" and "length ls = length order_fields" and "list_all entry_ok ls"
    and template: "\<forall>p \<in> {id_path, date_path} \<union> field_path ` set order_fields. member_at C p json \<noteq> None"
    and "update_json_with_user_input C uuid date json (input_lines ls @ rest) = (json', rest')"
  shows "rest' = rest \<and> member_at C id_path json' = Some (cj_string C uuid)
    \<and> member_at C date_path json' = Some (cj_string C date)
    \<and> (\<forall>i < length order_fields. member_at C (field_path (order_fields ! i)) json'
         = Some (field_value C (snd (snd (order_fields ! i))) (ls ! i)))"
proof -
  define j1 where "j1 = replace_at C [''general_info''] ''id'' (cj_string C uuid) json"
  define j2 where "j2 = fst (ask_fields C order_fields j1 (input_lines ls @ rest))"
  have kept1: "member_at C q j1 = member_at C q json" if "diverge id_path q" for q
    using that member_at_kept[OF assms(1), of "[''general_info'']" "''id''" q] by (simp add: j1_def)
  have id1: "member_at C id_path j1 = Some (cj_string C uuid)"
    using template member_at_replaced[OF assms(1), of "[''general_info'']" "''id''" json] by (simp add: j1_def)
  have entered: "snd (ask_fields C order_fields j1 (input_lines ls @ rest)) = rest
    \<and> (\<forall>i < length order_fields. member_at C (field_path (order_fields ! i)) j2
         = Some (field_value C (snd (snd (order_fields ! i))) (ls ! i)))"
    unfolding j2_def
    by (rule ask_fields_entered[OF assms(1-3) order_fields_diverge]) (use template kept1 id_date_diverge(1) in auto)
  have kept2: "member_at C q j2 = member_at C q j1" if "\<forall>f \<in> set order_fields. diverge (field_path f) q" for q
    unfolding j2_def by (rule ask_fields_keep[OF assms(1) that])
  have json': "json' = replace_at C [''general_info'', ''metadata''] ''date'' (cj_string C date) j2" "rest' = rest"
    using assms(5) entered
    by (simp_all only: update_json_with_user_input_def Let_def j1_def[symmetric] split_beta j2_def[symmetric] prod.inject)
  have kept3: "member_at C q json' = member_at C q j2" if "diverge date_path q" for q
    using that member_at_kept[OF assms(1), of "[''general_info'', ''metadata'']" "''date''" q] by (simp add: json')
  have "member_at C date_path j2 = member_at C date_path json"
    using kept2[of date_path] kept1[of date_path] id_date_diverge by auto
  then have "member_at C date_path json' = Some (cj_string C date)"
    using template member_at_replaced[OF assms(1), of "[''general_info'', ''metadata'']" "''date''" j2]
    by (simp add: json')
  moreover have "member_at C id_path json' = Some (cj_string C uuid)"
    using kept3[of id_path] kept2[of id_path] id1 id_date_diverge by auto
  moreover have "member_at C (field_path (order_fields ! i)) json' = member_at C (field_path (order_fields ! i)) j2"
    if "i < length order_fields" for i
    using that id_date_diverge(1) nth_mem by (intro kept3) blast
  ultimately show ?thesis using entered json'(2) by simp
qed

section \<open>Keys spelled as in the format\<close>

text \<open>
  cJSON compares keys without case and finds the first of several; JsonCpp compares them exactly and
  keeps the last.  Both find the same member where exactly one key matches without case, and is spelled
  as asked for.
\<close>

fun exact_at :: "'c cjson \<Rightarrow> string list \<Rightarrow> 'c \<Rightarrow> bool" where
  "exact_at C [] j \<longleftrightarrow> True"
| "exact_at C (k # ks) j \<longleftrightarrow> List.filter (same_member k) (cj_keys C j) = [k]
     \<and> (case cj_get C j k of None \<Rightarrow> False | Some sub \<Rightarrow> exact_at C ks sub)"

lemma exact_at_member: "exact_at C p j \<Longrightarrow> member_at C p j \<noteq> None"
  by (induction p arbitrary: j) (auto split: option.splits)

lemma exact_at_append:
  "exact_at C (p @ q) j \<longleftrightarrow> exact_at C p j \<and> (\<exists>sub. member_at C p j = Some sub \<and> exact_at C q sub)"
  by (induction p arbitrary: j) (auto split: option.splits)

lemma rename_first_exact: "List.filter (same_member k) ks = [k] \<Longrightarrow> rename_first k ks = ks"
  by (induction ks) (auto split: if_splits)

lemma keys_after:
  assumes "cjson_keys_ok C"
  shows "cj_keys C (cj_replace C j k v) = rename_first k (cj_keys C j)"
    and "cj_keys C (cj_update C j k v) = cj_keys C j"
  using assms by (simp_all add: cjson_keys_ok_def)

lemma exact_at_kept:
  assumes C: "cjson_ok C" "cjson_keys_ok C"
  shows "\<lbrakk>exact_at C (path @ [k]) j; exact_at C q j; diverge (path @ [k]) q \<or> q = path @ [k]\<rbrakk>
    \<Longrightarrow> exact_at C q (replace_at C path k v j)"
proof (induction path arbitrary: j q)
  case Nil
  then show ?case
    by (cases q) (auto simp: get_replace[OF C(1)] keys_after[OF C(2)] rename_first_exact split: option.splits)
next
  case (Cons p path)
  then show ?case
    by (cases q) (auto simp: get_replace[OF C(1)] keys_after[OF C(2)] split: option.splits)
qed

text \<open>So filling in the request keeps the paths of the format exact.\<close>

definition request_paths :: "string list set" where
  "request_paths = {id_path, date_path} \<union> field_path ` set order_fields"

lemma sorted_wrt_pair: "\<lbrakk>sorted_wrt R xs; x \<in> set xs; y \<in> set xs\<rbrakk> \<Longrightarrow> x = y \<or> R x y \<or> R y x"
  by (induction xs) auto

lemma order_paths_diverge:
  assumes "f \<in> set order_fields" and "g \<in> set order_fields"
  shows "diverge (field_path f) (field_path g) \<or> field_path g = field_path f"
  using sorted_wrt_pair[OF order_fields_diverge assms] by blast

lemma request_paths_diverge: "\<lbrakk>p \<in> request_paths; q \<in> request_paths\<rbrakk> \<Longrightarrow> diverge p q \<or> q = p"
  using order_paths_diverge id_date_diverge unfolding request_paths_def by blast

lemma ask_fields_exact:
  assumes C: "cjson_ok C" "cjson_keys_ok C"
  shows "\<lbrakk>\<forall>p \<in> request_paths. exact_at C p json; field_path ` set fs \<subseteq> request_paths\<rbrakk>
    \<Longrightarrow> \<forall>p \<in> request_paths. exact_at C p (fst (ask_fields C fs json s))"
proof (induction fs arbitrary: json s)
  case (Cons f fs)
  obtain path key kind where f: "f = (path, key, kind)" by (cases f)
  obtain buffer s' where g: "get_non_empty_input s = (buffer, s')" by fastforce
  let ?j = "replace_at C path key (field_value C kind buffer) json"
  have f_path: "path @ [key] \<in> request_paths" using Cons.prems(2) by (simp add: f field_path_def)
  have "exact_at C p ?j" if "p \<in> request_paths" for p
    using Cons.prems(1) that request_paths_diverge[OF f_path that] f_path by (intro exact_at_kept[OF C]) blast+
  with Cons.IH[of ?j s'] Cons.prems(2) show ?case by (simp add: f g)
qed simp

lemma update_json_exact:
  assumes C: "cjson_ok C" "cjson_keys_ok C" and json: "\<forall>p \<in> request_paths. exact_at C p json"
  shows "\<forall>p \<in> request_paths. exact_at C p (fst (update_json_with_user_input C uuid date json s))"
proof -
  have id: "[''general_info''] @ [''id''] \<in> request_paths" and date: "[''general_info'', ''metadata''] @ [''date''] \<in> request_paths"
    by (simp_all add: request_paths_def)
  have step: "\<forall>p \<in> request_paths. exact_at C p (replace_at C path k v j)"
    if "path @ [k] \<in> request_paths" "\<forall>p \<in> request_paths. exact_at C p j" for path k v j
    using that request_paths_diverge[OF that(1)] by (intro ballI exact_at_kept[OF C]) blast+
  have fields: "field_path ` set order_fields \<subseteq> request_paths" by (auto simp: request_paths_def)
  show ?thesis
    unfolding update_json_with_user_input_def Let_def split_beta fst_conv
    by (intro step[OF date] ask_fields_exact[OF C _ fields] step[OF id] json)
qed


lemma ask_fields_rest: "length (snd (ask_fields C fs json s)) \<le> length s"
proof (induction C fs json s rule: ask_fields.induct)
  case (1 C json s)
  then show ?case by simp
next
  case (2 C path key kind fs json s)
  obtain buffer s' where g: "get_non_empty_input s = (buffer, s')" by fastforce
  with 2[OF g[symmetric] refl] get_non_empty_input_rest[OF g] show ?case by simp
qed

lemma update_json_rest: "length (snd (update_json_with_user_input C uuid date json s)) \<le> length s"
  using ask_fields_rest by (simp add: update_json_with_user_input_def Let_def split_beta)

lemma client_communicate_udp_rest: "client_communicate_udp C os s = Some (ex, s') \<Longrightarrow> length s' \<le> length s"
  using update_json_rest[of C "oo_uuid os" "oo_date os" _ s]
  by (auto simp: client_communicate_udp_def Let_def split_beta split: option.splits)

lemma client_communicate_tcp_rest: "client_communicate_tcp C os s = (ex, s') \<Longrightarrow> length s' \<le> length s"
  using update_json_rest[of C "oo_uuid os" "oo_date os" _ s]
  by (auto simp: client_communicate_tcp_def Let_def split_beta split: option.splits)

section \<open>The retry loops\<close>

text \<open>
  The reference for both loops: the first round that is not silent decides.  An answered round
  succeeds, any other one fails, and four silent rounds are a timeout.
\<close>

definition exchange_spec ::
  "(attempt \<Rightarrow> bool) \<Rightarrow> (attempt \<Rightarrow> bool) \<Rightarrow> (attempt \<Rightarrow> string) \<Rightarrow> (nat \<Rightarrow> attempt) \<Rightarrow> string \<Rightarrow> nat \<Rightarrow> exchange" where
  "exchange_spec silent answered shown os m n =
     (case find (\<lambda>i. \<not> silent (os i)) [n..<4] of
        None \<Rightarrow> \<lparr>ex_result = 1, ex_sent = replicate 4 m, ex_response = None\<rparr>
      | Some i \<Rightarrow>
          if answered (os i)
          then \<lparr>ex_result = 0, ex_sent = replicate (i + 1) m, ex_response = Some (shown (os i))\<rparr>
          else \<lparr>ex_result = - 1, ex_sent = replicate (if at_send (os i) < 0 then i else i + 1) m, ex_response = None\<rparr>)"

definition udp_silent :: "attempt \<Rightarrow> bool" where
  "udp_silent a \<longleftrightarrow> 0 \<le> at_send a \<and> at_select a = 0"

definition udp_answered :: "attempt \<Rightarrow> bool" where
  "udp_answered a \<longleftrightarrow> 0 \<le> at_send a \<and> at_select a \<noteq> - 1 \<and> at_select a \<noteq> 0 \<and> 0 \<le> at_recv a"

definition tcp_silent :: "attempt \<Rightarrow> bool" where
  "tcp_silent a \<longleftrightarrow> 0 \<le> at_send a \<and> 0 \<le> at_setsockopt a \<and> at_recv a < 0 \<and> at_timeout a"

definition tcp_answered :: "attempt \<Rightarrow> bool" where
  "tcp_answered a \<longleftrightarrow> 0 \<le> at_send a \<and> 0 \<le> at_setsockopt a \<and> 0 \<le> at_recv a"

lemma exchange_spec_step:
  "n < 4 \<Longrightarrow> exchange_spec silent answered shown os m n =
     (if silent (os n) then exchange_spec silent answered shown os m (Suc n)
      else if answered (os n) then \<lparr>ex_result = 0, ex_sent = replicate n m @ [m], ex_response = Some (shown (os n))\<rparr>
      else \<lparr>ex_result = - 1, ex_sent = (if at_send (os n) < 0 then replicate n m else replicate n m @ [m]),
            ex_response = None\<rparr>)"
  by (simp add: exchange_spec_def upt_conv_Cons replicate_append_same)

lemma exchange_spec_end: "exchange_spec silent answered shown os m 4 = \<lparr>ex_result = 1, ex_sent = replicate 4 m, ex_response = None\<rparr>"
  by (simp add: exchange_spec_def)

lemma udp_rounds_from:
  "n \<le> 4 \<Longrightarrow> udp_rounds os m n (replicate n m) =
     exchange_spec udp_silent udp_answered (\<lambda>a. c_str (take BUFFER_SIZE_CLIENT (at_data a))) os m n"
proof (induction n rule: inc_induct)
  case base
  then show ?case by (subst udp_rounds.simps) (simp add: MAX_RETRIES_def exchange_spec_end)
next
  case (step n)
  then show ?case
    by (subst udp_rounds.simps)
      (simp add: MAX_RETRIES_def exchange_spec_step udp_silent_def[of "os n"] udp_answered_def[of "os n"] Let_def replicate_append_same)
qed

lemma tcp_rounds_from:
  "n \<le> 4 \<Longrightarrow> tcp_rounds os m n (replicate n m) =
     exchange_spec tcp_silent tcp_answered (\<lambda>a. recv_buffer BUFFER_SIZE_CLIENT (at_data a)) os m n"
proof (induction n rule: inc_induct)
  case base
  then show ?case by (subst tcp_rounds.simps) (simp add: MAX_RETRIES_def exchange_spec_end)
next
  case (step n)
  then show ?case
    by (subst tcp_rounds.simps)
      (simp add: MAX_RETRIES_def exchange_spec_step tcp_silent_def[of "os n"] tcp_answered_def[of "os n"] Let_def replicate_append_same)
qed

text \<open>
  Both retry loops end and follow the reference: the order is sent once per round, at most four
  times; the first round in which the server does not stay silent decides between success with the
  bytes received and failure, and after four silent rounds the result is 1.
\<close>

theorem retry_loops_refine:
  "udp_rounds os m 0 [] = exchange_spec udp_silent udp_answered (\<lambda>a. c_str (take BUFFER_SIZE_CLIENT (at_data a))) os m 0
   \<and> tcp_rounds os m 0 [] = exchange_spec tcp_silent tcp_answered (\<lambda>a. recv_buffer BUFFER_SIZE_CLIENT (at_data a)) os m 0"
  using udp_rounds_from[of 0] tcp_rounds_from[of 0] by simp

section \<open>Witnesses\<close>

text \<open>Trees of named members, with the keys compared without case.\<close>

fun find_member :: "(string \<times> sample_json) list \<Rightarrow> string \<Rightarrow> sample_json option" where
  "find_member [] k = None"
| "find_member ((k', v) # ms) k = (if same_member k k' then Some v else find_member ms k)"

fun put_member :: "(string \<times> sample_json) list \<Rightarrow> string \<Rightarrow> sample_json \<Rightarrow> (string \<times> sample_json) list" where
  "put_member [] k v = []"
| "put_member ((k', v') # ms) k v = (if same_member k k' then (k, v) # ms else (k', v') # put_member ms k v)"

fun set_member :: "(string \<times> sample_json) list \<Rightarrow> string \<Rightarrow> sample_json \<Rightarrow> (string \<times> sample_json) list" where
  "set_member [] k v = []"
| "set_member ((k', v') # ms) k v = (if same_member k k' then (k', v) # ms else (k', v') # set_member ms k v)"

definition sample_cjson :: "sample_json cjson" where
  "sample_cjson = \<lparr>cj_parse = (\<lambda>_. None), cj_print = (\<lambda>_. Some ''{}''), cj_string = SStr, cj_number = SInt,
     cj_get = (\<lambda>j k. case j of SObj ms \<Rightarrow> find_member ms k | _ \<Rightarrow> None),
     cj_replace = (\<lambda>j k v. case j of SObj ms \<Rightarrow> SObj (put_member ms k v) | _ \<Rightarrow> j),
     cj_update = (\<lambda>j k v. case j of SObj ms \<Rightarrow> SObj (set_member ms k v) | _ \<Rightarrow> j),
     cj_keys = (\<lambda>j. case j of SObj ms \<Rightarrow> map fst ms | _ \<Rightarrow> [])\<rparr>"

lemma find_put_member:
  "find_member (put_member ms k v) k' =
     (if find_member ms k \<noteq> None \<and> same_member k k' then Some v else find_member ms k')"
  by (induction ms) (auto simp: same_member_def)

lemma find_set_member:
  "find_member (set_member ms k v) k' =
     (if find_member ms k \<noteq> None \<and> same_member k k' then Some v else find_member ms k')"
  by (induction ms) (auto simp: same_member_def)

lemma sample_cjson_ok: "cjson_ok sample_cjson"
  by (auto simp: cjson_ok_def sample_cjson_def find_put_member find_set_member split: sample_json.split)

lemma sample_cjson_keys_ok: "cjson_keys_ok sample_cjson"
proof -
  have "find_member ms k \<noteq> None \<longleftrightarrow> list_ex (same_member k) (map fst ms)" for ms k
    by (induction ms) auto
  moreover have "map fst (put_member ms k v) = rename_first k (map fst ms)"
    "map fst (set_member ms k v) = map fst ms" for ms k v
    by (induction ms) auto
  ultimately show ?thesis by (auto simp: cjson_keys_ok_def sample_cjson_def split: sample_json.split)
qed

definition sample_template :: sample_json where
  "sample_template = SObj [(''general_info'', SObj
     [(''id'', SStr []),
      (''source'', SObj [(''type'', SStr []), (''location'', SInt 1)]),
      (''destination'', SObj [(''type'', SStr []), (''location'', SInt 1)]),
      (''action'', SObj [(''type'', SStr []),
         (''product'', SObj [(''id'', SStr []), (''name'', SStr []), (''quantity'', SInt 1)])]),
      (''metadata'', SObj [(''date'', SStr []), (''message'', SStr []), (''priority'', SStr []),
         (''protocol'', SStr [])])])]"

definition sample_entries :: "string list" where
  "sample_entries = [''hub'', ''1'', ''warehouse'', ''2'', ''request'', ''1'', ''Meat'', ''60'', ''hi'', ''high'', ''UDP'']"

lemma sample_template_complete:
  "\<forall>p \<in> {id_path, date_path} \<union> field_path ` set order_fields. member_at sample_cjson p sample_template \<noteq> None"
  by (simp add: order_fields_def field_path_def sample_template_def sample_cjson_def request_keys)

lemma sample_entries_ok: "list_all entry_ok sample_entries"
  by (simp add: sample_entries_def entry_ok_def plain_line_def)

lemma sample_quantity:
  "field_path (order_fields ! 7) = [''general_info'', ''action'', ''product'', ''quantity'']"
  "field_value sample_cjson (snd (snd (order_fields ! 7))) (sample_entries ! 7) = SInt 60"
proof -
  have "atoi ''60'' = 60" by code_simp
  then show "field_value sample_cjson (snd (snd (order_fields ! 7))) (sample_entries ! 7) = SInt 60"
    by (simp add: order_fields_def field_value_def sample_cjson_def sample_entries_def)
  show "field_path (order_fields ! 7) = [''general_info'', ''action'', ''product'', ''quantity'']"
    by (simp add: order_fields_def field_path_def)
qed


end
