(* ===== verification/User_Db.thy ===== *)
theory User_Db
  imports C_Input
begin

text \<open>
  \<open>database/user_db.c\<close>: the table \<open>user\<close> and the operations of the user administration on it.  MySQL,
  its C connector and \<open>crypt\<close> are not part of the sources: which calls succeed, what a statement does
  to the table and how a password is hashed are the fields of a record, a parameter of the operations.
\<close>

section \<open>Rows and parameters\<close>

text \<open>The columns the program reads or writes; none of them is nullable.\<close>

record user_row =
  u_name :: string
  u_password :: string
  u_email :: string
  u_role :: string

text \<open>
  \<open>ud_query\<close> is \<open>mysql_query\<close> for a statement that changes the table: the affected rows and the table
  afterwards, or \<open>None\<close> for an error.  The Boolean fields say whether the call succeeds.
  \<open>ud_email_eq\<close> compares under the collation of the column; \<open>ud_crypt\<close> is \<open>crypt\<close>, \<open>None\<close> being \<open>NULL\<close>.
\<close>

record user_db =
  ud_init :: bool
  ud_real_connect :: bool
  ud_query :: "string \<Rightarrow> user_row list \<Rightarrow> (nat \<times> user_row list) option"
  ud_select :: bool
  ud_store_result :: bool
  ud_stmt_init :: bool
  ud_stmt_prepare :: bool
  ud_stmt_bind_param :: bool
  ud_stmt_execute :: bool
  ud_stmt_bind_result :: bool
  ud_email_eq :: "string \<Rightarrow> string \<Rightarrow> bool"
  ud_crypt :: "string \<Rightarrow> string \<Rightarrow> string option"

definition MAX_QUERY_LENGTH :: nat where "MAX_QUERY_LENGTH = 512"
definition MAX_NAME_LENGTH :: nat where "MAX_NAME_LENGTH = 100"
definition MAX_PASSWORD_LENGTH :: nat where "MAX_PASSWORD_LENGTH = 100"
definition MAX_EMAIL_LENGTH :: nat where "MAX_EMAIL_LENGTH = 100"
definition MAX_ROLE_LENGTH :: nat where "MAX_ROLE_LENGTH = 100"

section \<open>The operations\<close>

text \<open>Whether the function returns a connection.\<close>

definition connectToDb_user :: "user_db \<Rightarrow> bool" where
  "connectToDb_user D \<longleftrightarrow> ud_init D \<and> ud_real_connect D"

text \<open>The return value and the text that is printed when it is 1.\<close>

definition user_line :: "user_row \<Rightarrow> string" where
  "user_line row = u_name row @ '', '' @ u_email row @ '', '' @ u_role row @ newline"

definition getUsers :: "user_db \<Rightarrow> user_row list \<Rightarrow> int \<times> string" where
  "getUsers D users =
     (if \<not> connectToDb_user D then (0, [])
      else if \<not> ud_select D then (0, [])
      else if \<not> ud_store_result D then (0, [])
      else (1, newline @ ''Users in database:'' @ newline @ concat (map user_line users) @ newline))"

definition quote :: string where "quote = [CHR 0x27]"

definition SALT :: string where "SALT = ''$2a$12$abcdefghijklmnopqrstuvwxz0123456789''"

text \<open>What \<open>snprintf\<close> is asked to print; it keeps the first \<open>size - 1\<close> characters.\<close>

definition insert_text :: "string \<Rightarrow> string \<Rightarrow> string \<Rightarrow> string \<Rightarrow> string" where
  "insert_text name hashed email role =
     ''INSERT INTO user (name, password, email, role) VALUES ('' @ quote @ name @ quote @ '', '' @
     quote @ hashed @ quote @ '', '' @ quote @ email @ quote @ '', '' @ quote @ role @ quote @ '')''"

definition delete_text :: "string \<Rightarrow> string" where
  "delete_text email = ''DELETE FROM user WHERE email='' @ quote @ email @ quote"

definition snprintf_query :: "string \<Rightarrow> string" where
  "snprintf_query text = take (MAX_QUERY_LENGTH - 1) text"

text \<open>A string argument is \<open>None\<close> for \<open>NULL\<close>.  The return value and the table afterwards.\<close>

definition createUser ::
  "user_db \<Rightarrow> string option \<Rightarrow> string option \<Rightarrow> string option \<Rightarrow> string option \<Rightarrow> user_row list
   \<Rightarrow> int \<times> user_row list" where
  "createUser D name password email role users =
     (case (name, password, email, role) of
        (Some name, Some password, Some email, Some role) \<Rightarrow>
          if name = [] \<or> password = [] \<or> email = [] \<or> role = [] then (0, users)
          else if \<not> connectToDb_user D then (0, users)
          else (case ud_crypt D password SALT of
             None \<Rightarrow> (0, users)
           | Some hashed \<Rightarrow>
               (case ud_query D (snprintf_query (insert_text name hashed email role)) users of
                  None \<Rightarrow> (0, users)
                | Some (_, users) \<Rightarrow> (1, users)))
      | _ \<Rightarrow> (0, users))"

definition deleteUser :: "user_db \<Rightarrow> string option \<Rightarrow> user_row list \<Rightarrow> int \<times> user_row list" where
  "deleteUser D email users =
     (case email of
        None \<Rightarrow> (0, users)
      | Some email \<Rightarrow>
          if email = [] then (0, users)
          else if \<not> connectToDb_user D then (0, users)
          else (case ud_query D (snprintf_query (delete_text email)) users of
             None \<Rightarrow> (0, users)
           | Some (_, users) \<Rightarrow> (1, users)))"

section \<open>The dialogue\<close>

text \<open>
  \<open>fgets\<close> into an uninitialised buffer, then the line break cut off.  At the end of the input the
  buffer keeps its indeterminate content, so there is no value: \<open>None\<close>.
\<close>

definition read_field :: "nat \<Rightarrow> string \<Rightarrow> (string \<times> string) option" where
  "read_field sz s = (case fgets sz s of None \<Rightarrow> None | Some (line, rest) \<Rightarrow> Some (chomp line, rest))"

definition read_new_user :: "string \<Rightarrow> ((string \<times> string \<times> string \<times> string) \<times> string) option" where
  "read_new_user s =
     (case read_field MAX_NAME_LENGTH s of None \<Rightarrow> None
      | Some (name, s) \<Rightarrow> (case read_field MAX_PASSWORD_LENGTH s of None \<Rightarrow> None
      | Some (password, s) \<Rightarrow> (case read_field MAX_EMAIL_LENGTH s of None \<Rightarrow> None
      | Some (email, s) \<Rightarrow> (case read_field MAX_ROLE_LENGTH s of None \<Rightarrow> None
      | Some (role, s) \<Rightarrow> Some ((name, password, email, role), s)))))"

lemma read_field_le: "read_field sz s = Some (x, rest) \<Longrightarrow> length rest \<le> length s"
  by (auto simp: read_field_def split: option.splits dest: fgets_rest_le)

lemma read_new_user_le: "read_new_user s = Some (x, rest) \<Longrightarrow> length rest \<le> length s"
  unfolding read_new_user_def by (fastforce split: option.splits prod.splits dest: read_field_le)

lemma scanf_getchar_consumes: "scanf_int s = (Some n, rest) \<Longrightarrow> length (getchar rest) < length s"
  by (drule scanf_int_consumes) (simp add: getchar_def)

lemma read_field_line:
  "\<lbrakk>plain_line line; length line + 1 < sz\<rbrakk> \<Longrightarrow> read_field sz (line @ CHR 0x0A # rest) = Some (line, rest)"
  by (simp add: read_field_def fgets_fits plain_line_def)

text \<open>
  The state of \<open>manageDbUser\<close>: the input that is left, the number of database operations so far, the
  table, and the user lists that were printed.  \<open>D n\<close> answers the \<open>n\<close>-th operation.
\<close>

record user_dialogue =
  ud_input :: string
  ud_calls :: nat
  ud_users :: "user_row list"
  ud_listings :: "string list"

function manageDbUser :: "(nat \<Rightarrow> user_db) \<Rightarrow> user_dialogue \<Rightarrow> user_dialogue option" where
  "manageDbUser D w =
     (case scanf_int (ud_input w) of
        (None, s) \<Rightarrow> Some (w\<lparr>ud_input := s\<rparr>)
      | (Some choice, s) \<Rightarrow>
          let s = getchar s; D_now = D (ud_calls w)
          in if choice = 1 then
               (case read_new_user s of None \<Rightarrow> None
                | Some ((name, password, email, role), s) \<Rightarrow>
                    let (_, users) = createUser D_now (Some name) (Some password) (Some email) (Some role) (ud_users w)
                    in manageDbUser D (w\<lparr>ud_input := s, ud_calls := ud_calls w + 1, ud_users := users\<rparr>))
             else if choice = 2 then
               let (_, listing) = getUsers D_now (ud_users w)
               in manageDbUser D (w\<lparr>ud_input := s, ud_calls := ud_calls w + 1, ud_listings := ud_listings w @ [listing]\<rparr>)
             else if choice = 3 then
               (case read_field MAX_EMAIL_LENGTH s of None \<Rightarrow> None
                | Some (email, s) \<Rightarrow>
                    let (_, users) = deleteUser D_now (Some email) (ud_users w)
                    in manageDbUser D (w\<lparr>ud_input := s, ud_calls := ud_calls w + 1, ud_users := users\<rparr>))
             else if choice = 0 then Some (w\<lparr>ud_input := s\<rparr>)
             else manageDbUser D (w\<lparr>ud_input := s\<rparr>))"
  by pat_completeness auto
termination
  by (relation "measure (\<lambda>(_, w). length (ud_input w))")
    (auto dest!: read_new_user_le read_field_le scanf_getchar_consumes[OF sym] elim!: le_less_trans)

declare manageDbUser.simps [simp del]

text \<open>One pass of the loop: it ends with what is left of the input, or goes on with less of it.\<close>

lemma manageDbUser_pass:
  assumes "manageDbUser D w = Some d"
  shows "length (ud_input d) \<le> length (ud_input w)
    \<or> (\<exists>w'. manageDbUser D w' = Some d \<and> length (ud_input w') < length (ud_input w))"
proof (cases "scanf_int (ud_input w)")
  case (Pair c s)
  show ?thesis
  proof (cases c)
    case None
    with assms Pair scanf_int_rest[OF Pair] show ?thesis by (subst (asm) manageDbUser.simps) auto
  next
    case (Some choice)
    then have "length (getchar s) < length (ud_input w)" using Pair by (auto dest: scanf_getchar_consumes)
    with assms Pair Some show ?thesis
      by (subst (asm) manageDbUser.simps)
        (fastforce simp: Let_def split: if_splits option.splits prod.splits dest: read_new_user_le read_field_le)
  qed
qed

lemma manageDbUser_rest: "manageDbUser D w = Some d \<Longrightarrow> length (ud_input d) \<le> length (ud_input w)"
proof (induction "length (ud_input w)" arbitrary: w rule: less_induct)
  case less
  from manageDbUser_pass[OF less.prems] less.hyps show ?case by fastforce
qed

section \<open>What MySQL documents\<close>

text \<open>
  A text without quotes, backslashes and NULs is the value of the literal it is written in.  An
  \<open>INSERT\<close> that succeeds adds the row (the role is stored as one of the values of the \<open>ENUM\<close>), and no
  other row then has its \<open>UNIQUE\<close> email; a \<open>DELETE\<close> that succeeds removes the rows with the email.
\<close>

definition sql_plain :: "string \<Rightarrow> bool" where
  "sql_plain s \<longleftrightarrow> CHR 0x27 \<notin> set s \<and> CHR 0x5C \<notin> set s \<and> CHR 0x00 \<notin> set s"

definition has_email :: "user_db \<Rightarrow> string \<Rightarrow> user_row \<Rightarrow> bool" where
  "has_email D email row \<longleftrightarrow> ud_email_eq D (u_email row) email"

definition user_roles :: "string list" where "user_roles = [''admin'', ''client'']"

definition user_sql_ok :: "user_db \<Rightarrow> bool" where
  "user_sql_ok D \<longleftrightarrow>
     (\<forall>name hashed email role users k users'.
        list_all sql_plain [name, hashed, email, role]
        \<and> ud_query D (insert_text name hashed email role) users = Some (k, users')
        \<longrightarrow> (\<exists>role' \<in> set user_roles. (role \<in> set user_roles \<longrightarrow> role' = role) \<and>
              filter (has_email D email) users' = [\<lparr>u_name = name, u_password = hashed, u_email = email, u_role = role'\<rparr>]))
   \<and> (\<forall>email users k users'. sql_plain email \<and> ud_query D (delete_text email) users = Some (k, users')
        \<longrightarrow> users' = filter (\<lambda>row. \<not> has_email D email row) users)"

section \<open>What the operations achieve\<close>

lemma length_insert_text:
  "length (insert_text name hashed email role)
     = length name + length hashed + length email + length role + 70"
  by (simp add: insert_text_def quote_def)

lemma length_delete_text: "length (delete_text email) = length email + 31"
  by (simp add: delete_text_def quote_def)

lemma createUser_failed: "createUser D name password email role users = (0, users') \<Longrightarrow> users' = users"
  by (auto simp: createUser_def split: option.splits if_splits)

lemma deleteUser_failed: "deleteUser D email users = (0, users') \<Longrightarrow> users' = users"
  by (auto simp: deleteUser_def split: option.splits if_splits)

lemma createUser_stored:
  assumes sql: "user_sql_ok D"
    and plain: "sql_plain name" "sql_plain hashed" "sql_plain email" "sql_plain role"
    and short: "length name + length hashed + length email + length role \<le> 441"
    and crypt: "ud_crypt D password SALT = Some hashed"
    and created: "createUser D (Some name) (Some password) (Some email) (Some role) users = (1, users')"
  obtains role' where "role' \<in> set user_roles" "role \<in> set user_roles \<Longrightarrow> role' = role" "filter (has_email D email) users'
     = [\<lparr>u_name = name, u_password = hashed, u_email = email, u_role = role'\<rparr>]"
proof -
  have "snprintf_query (insert_text name hashed email role) = insert_text name hashed email role"
    using short by (simp add: snprintf_query_def MAX_QUERY_LENGTH_def length_insert_text)
  with created crypt obtain k where "ud_query D (insert_text name hashed email role) users = Some (k, users')"
    by (auto simp: createUser_def split: option.splits if_splits)
  with sql plain have "\<exists>role' \<in> set user_roles. (role \<in> set user_roles \<longrightarrow> role' = role) \<and> filter (has_email D email) users'
     = [\<lparr>u_name = name, u_password = hashed, u_email = email, u_role = role'\<rparr>]"
    unfolding user_sql_ok_def by simp
  with that show ?thesis by blast
qed

lemma deleteUser_removed:
  assumes "user_sql_ok D" "sql_plain email" "length email \<le> 480"
    and deleted: "deleteUser D (Some email) users = (1, users')"
  shows "users' = filter (\<lambda>row. \<not> has_email D email row) users"
proof -
  have "snprintf_query (delete_text email) = delete_text email"
    using assms(3) by (simp add: snprintf_query_def MAX_QUERY_LENGTH_def length_delete_text)
  with deleted obtain k where "ud_query D (delete_text email) users = Some (k, users')"
    by (auto simp: deleteUser_def split: option.splits if_splits)
  with assms(1,2) show ?thesis unfolding user_sql_ok_def by blast
qed

text \<open>
  The email goes into the statement as it is: with a quote in it the condition is the one the user
  writes, here one that every row satisfies.
\<close>

lemma delete_injection:
  "delete_text (quote @ '' OR '' @ quote @ ''1'' @ quote @ ''='' @ quote @ ''1'')
     = ''DELETE FROM user WHERE email='' @ quote @ quote @ '' OR '' @ quote @ ''1'' @ quote @ ''='' @ quote @ ''1'' @ quote"
  by (simp add: delete_text_def)

section \<open>The dialogue line by line\<close>

lemma scanf_line: "scanf_int (digit_char d # CHR 0x0A # rest) = (Some (int d), CHR 0x0A # rest)" if "d < 10"
proof -
  have *: "\<not> c_isspace (digit_char d)" "digit_char d \<noteq> CHR ''-''" "digit_char d \<noteq> CHR ''+''"
    using c_isdigit_digit_char[OF that] by (auto dest: c_isdigit_not_space c_isdigit_not_sign)
  moreover have "\<not> c_isdigit CHR 0x0A" by (simp add: c_isdigit_def)
  ultimately show ?thesis using that
    by (simp add: scanf_int_def scan_int_def strtol_value_def Let_def digits_val_def cast_int_def clamp_long_def)
qed

lemma manageDbUser_create:
  assumes "ud_input w = ''1'' @ newline @ name @ newline @ password @ newline @ email @ newline @ role @ newline @ rest"
    and "list_all plain_line [name, password, email, role]"
    and "list_all (\<lambda>x. length x < 99) [name, password, email, role]"
    and "createUser (D (ud_calls w)) (Some name) (Some password) (Some email) (Some role) (ud_users w) = (r, users')"
  shows "manageDbUser D w = manageDbUser D (w\<lparr>ud_input := rest, ud_calls := ud_calls w + 1, ud_users := users'\<rparr>)"
proof -
  have "digit_char 1 = CHR ''1''" by code_simp
  with scanf_line[of 1] have scan: "scanf_int (CHR ''1'' # CHR 0x0A # r) = (Some 1, CHR 0x0A # r)" for r
    by simp
  show ?thesis using assms
    by (subst manageDbUser.simps)
      (simp add: newline_def scan getchar_def read_new_user_def read_field_line MAX_NAME_LENGTH_def
        MAX_PASSWORD_LENGTH_def MAX_EMAIL_LENGTH_def MAX_ROLE_LENGTH_def)
qed

lemma manageDbUser_end:
  assumes "ud_input w = ''0'' @ newline @ rest"
  shows "manageDbUser D w = Some (w\<lparr>ud_input := rest\<rparr>)"
proof -
  have "digit_char 0 = CHR ''0''" by code_simp
  with scanf_line[of 0] have "scanf_int (CHR ''0'' # CHR 0x0A # rest) = (Some 0, CHR 0x0A # rest)" by simp
  with assms show ?thesis
    by (subst manageDbUser.simps) (simp add: newline_def getchar_def)
qed

end
