(* ===== verification/Auth_Proxy.thy ===== *)
theory Auth_Proxy
  imports User_Db
begin

text \<open>
  \<open>common/auth/auth_proxy.c\<close>: the session of the logged-in user, login against the table \<open>user\<close> and
  logout.  A login that dereferences the null pointer has no value: the result is \<open>None\<close>.
\<close>

section \<open>The proxy\<close>

definition PROXY_MAX_NAME_LENGTH :: nat where "PROXY_MAX_NAME_LENGTH = 100"
definition PROXY_MAX_PASSWORD_LENGTH :: nat where "PROXY_MAX_PASSWORD_LENGTH = 256"
definition PROXY_MAX_ROLE_LENGTH :: nat where "PROXY_MAX_ROLE_LENGTH = 50"
definition PROXY_MAX_USER_LENGTH :: nat where "PROXY_MAX_USER_LENGTH = 100"

record AuthProxy =
  isAuthenticated :: bool
  authenticatedUser :: string
  authenticatedRole :: string

text \<open>All bytes zero.\<close>

definition cleared_proxy :: AuthProxy where
  "cleared_proxy = \<lparr>isAuthenticated = False, authenticatedUser = [], authenticatedRole = []\<rparr>"

text \<open>The prepared \<open>SELECT ... WHERE email = ?\<close>: the first row of its result, if there is one.\<close>

definition select_user :: "user_db \<Rightarrow> string \<Rightarrow> user_row list \<Rightarrow> user_row option" where
  "select_user D email users = find (has_email D email) users"

text \<open>
  \<open>mysql_stmt_fetch\<close> returns 0 only if every column fits its buffer; a shorter value is followed by a
  NUL.  \<open>None\<close>: no row, or one that was truncated.
\<close>

definition stmt_fetch :: "user_db \<Rightarrow> string \<Rightarrow> user_row list \<Rightarrow> user_row option" where
  "stmt_fetch D email users =
     (case select_user D email users of None \<Rightarrow> None
      | Some row \<Rightarrow>
          if length (u_name row) \<le> PROXY_MAX_NAME_LENGTH \<and> length (u_password row) \<le> PROXY_MAX_PASSWORD_LENGTH
             \<and> length (u_role row) \<le> PROXY_MAX_ROLE_LENGTH
          then Some row else None)"

text \<open>\<open>strncpy(dst, src, sizeof(dst) - 1)\<close> and a NUL at the end.\<close>

definition copy_field :: "nat \<Rightarrow> string \<Rightarrow> string" where
  "copy_field sz src = take (sz - 1) (c_str src)"

text \<open>
  \<open>strcmp(hashed, db_password)\<close> reads the buffers as C strings.  It has no defined result if \<open>hashed\<close>
  is \<open>NULL\<close> or the password fills its buffer, so that no NUL follows it.
\<close>

definition authenticate ::
  "user_db \<Rightarrow> string \<Rightarrow> string \<Rightarrow> user_row list \<Rightarrow> AuthProxy \<Rightarrow> (bool \<times> AuthProxy) option" where
  "authenticate D email password users proxy =
     (if \<not> connectToDb_user D then Some (False, proxy)
      else if \<not> ud_stmt_init D then Some (False, proxy)
      else if \<not> ud_stmt_prepare D then Some (False, proxy)
      else if \<not> ud_stmt_bind_param D then Some (False, proxy)
      else if \<not> ud_stmt_execute D then Some (False, proxy)
      else if \<not> ud_stmt_bind_result D then Some (False, proxy)
      else (case stmt_fetch D email users of
         None \<Rightarrow> Some (False, proxy)
       | Some row \<Rightarrow>
           (case ud_crypt D password SALT of
              None \<Rightarrow> None
            | Some hashed \<Rightarrow>
                if length (u_password row) = PROXY_MAX_PASSWORD_LENGTH \<and> CHR 0x00 \<notin> set (u_password row) then None
                else if c_str hashed = c_str (u_password row) then
                  Some (True, proxy\<lparr>isAuthenticated := True,
                    authenticatedUser := copy_field PROXY_MAX_USER_LENGTH (u_name row),
                    authenticatedRole := copy_field PROXY_MAX_ROLE_LENGTH (u_role row)\<rparr>)
                else Some (False, proxy))))"

definition logout_proxy :: "AuthProxy \<Rightarrow> AuthProxy" where
  "logout_proxy proxy =
     (if isAuthenticated proxy
      then proxy\<lparr>isAuthenticated := False, authenticatedUser := [], authenticatedRole := []\<rparr>
      else proxy)"

text \<open>A null proxy is \<open>None\<close> in the argument.\<close>

definition manageDbUserWithAuth ::
  "user_db \<Rightarrow> AuthProxy option \<Rightarrow> string \<Rightarrow> string \<Rightarrow> user_row list \<Rightarrow> (bool \<times> AuthProxy option) option" where
  "manageDbUserWithAuth D proxy email password users =
     (case proxy of None \<Rightarrow> Some (False, None)
      | Some p \<Rightarrow> map_option (apsnd Some) (authenticate D email password users p))"

section \<open>Sessions\<close>

definition db_answers :: "user_db \<Rightarrow> bool" where
  "db_answers D \<longleftrightarrow> connectToDb_user D \<and> ud_stmt_init D \<and> ud_stmt_prepare D \<and> ud_stmt_bind_param D
     \<and> ud_stmt_execute D \<and> ud_stmt_bind_result D"

definition proxy_ok :: "AuthProxy \<Rightarrow> bool" where
  "proxy_ok proxy \<longleftrightarrow> length (authenticatedUser proxy) < PROXY_MAX_USER_LENGTH
     \<and> length (authenticatedRole proxy) < PROXY_MAX_ROLE_LENGTH
     \<and> (\<not> isAuthenticated proxy \<longrightarrow> authenticatedUser proxy = [] \<and> authenticatedRole proxy = [])"

lemma proxy_ok_cleared [simp]: "proxy_ok cleared_proxy"
  by (simp add: proxy_ok_def cleared_proxy_def PROXY_MAX_USER_LENGTH_def PROXY_MAX_ROLE_LENGTH_def)

lemma isAuthenticated_cleared [simp]: "\<not> isAuthenticated cleared_proxy"
  by (simp add: cleared_proxy_def)

lemma length_copy_field: "0 < sz \<Longrightarrow> length (copy_field sz src) < sz"
  by (simp add: copy_field_def less_imp_diff_less min_less_iff_disj)

lemma authenticate_fails: "authenticate D email password users proxy = Some (False, proxy') \<Longrightarrow> proxy' = proxy"
  by (auto simp: authenticate_def split: if_splits option.splits)

lemma authenticate_succeeds:
  assumes "authenticate D email password users proxy = Some (True, proxy')"
  obtains row hashed where "db_answers D" "row \<in> set users" "has_email D email row"
    "ud_crypt D password SALT = Some hashed" "c_str hashed = c_str (u_password row)"
    "proxy' = \<lparr>isAuthenticated = True, authenticatedUser = copy_field PROXY_MAX_USER_LENGTH (u_name row),
       authenticatedRole = copy_field PROXY_MAX_ROLE_LENGTH (u_role row)\<rparr>"
proof -
  obtain row where f: "stmt_fetch D email users = Some row" and "db_answers D"
    using assms by (auto simp: authenticate_def db_answers_def split: if_splits option.splits)
  moreover from f have "row \<in> set users" "has_email D email row"
    by (auto simp: stmt_fetch_def select_user_def find_Some_iff split: option.splits if_splits)
  moreover from f assms obtain hashed where "ud_crypt D password SALT = Some hashed"
      "c_str hashed = c_str (u_password row)"
      "proxy' = \<lparr>isAuthenticated = True, authenticatedUser = copy_field PROXY_MAX_USER_LENGTH (u_name row),
         authenticatedRole = copy_field PROXY_MAX_ROLE_LENGTH (u_role row)\<rparr>"
    by (cases proxy) (auto simp: authenticate_def split: if_splits option.splits)
  ultimately show ?thesis using that by blast
qed

lemma authenticate_proxy_ok:
  "\<lbrakk>authenticate D email password users proxy = Some (b, proxy'); proxy_ok proxy\<rbrakk> \<Longrightarrow> proxy_ok proxy'"
proof (cases b)
  case True
  moreover assume "authenticate D email password users proxy = Some (b, proxy')"
  ultimately show ?thesis
    by (auto elim!: authenticate_succeeds simp: proxy_ok_def length_copy_field PROXY_MAX_USER_LENGTH_def
        PROXY_MAX_ROLE_LENGTH_def)
next
  case False
  moreover assume "authenticate D email password users proxy = Some (b, proxy')" and "proxy_ok proxy"
  ultimately show ?thesis by (auto dest: authenticate_fails)
qed

lemma authenticate_session:
  assumes "authenticate D email password users proxy = Some (b, p)" and "proxy_ok proxy" and "\<not> isAuthenticated proxy"
  shows "proxy_ok p \<and> isAuthenticated p = b"
proof (cases b)
  case True
  with assms(1) have "isAuthenticated p" by (auto elim!: authenticate_succeeds)
  with True authenticate_proxy_ok[OF assms(1,2)] show ?thesis by simp
next
  case False
  with assms show ?thesis by (auto dest: authenticate_fails)
qed

lemma logout_proxy_ok: "proxy_ok proxy \<Longrightarrow> logout_proxy proxy = cleared_proxy"
  by (cases proxy) (auto simp: logout_proxy_def cleared_proxy_def proxy_ok_def)

lemma find_filter: "find P xs = (case filter P xs of [] \<Rightarrow> None | x # _ \<Rightarrow> Some x)"
  by (induction xs) auto

section \<open>Life of an account\<close>

lemma c_str_plain: "CHR 0x00 \<notin> set s \<Longrightarrow> c_str s = s"
  unfolding c_str_def by (rule takeWhile_eq_all_conv[THEN iffD2]) auto

lemma sql_plain_c_str [simp]: "sql_plain s \<Longrightarrow> c_str s = s"
  by (simp add: sql_plain_def c_str_plain)

lemma has_email_cong: "ud_email_eq D' = ud_email_eq D \<Longrightarrow> has_email D' = has_email D"
  by (intro ext) (simp add: has_email_def)

lemma createUser_authenticated:
  assumes "user_sql_ok D" and "db_answers D'" and "ud_email_eq D' = ud_email_eq D"
    and plain: "list_all sql_plain [name, hashed, email, role, hashed']"
    and short: "list_all (\<lambda>s. length s < 100) [name, email, role]" "length hashed \<le> 144"
    and crypt: "ud_crypt D password SALT = Some hashed" "ud_crypt D' attempt SALT = Some hashed'"
    and created: "createUser D (Some name) (Some password) (Some email) (Some role) users = (1, users')"
  shows "\<exists>role' \<in> set user_roles. (role \<in> set user_roles \<longrightarrow> role' = role) \<and> authenticate D' email attempt users' proxy
     = Some (if hashed' = hashed
             then (True, \<lparr>isAuthenticated = True, authenticatedUser = name, authenticatedRole = role'\<rparr>)
             else (False, proxy))"
proof -
  obtain role' where role': "role' \<in> set user_roles" "role \<in> set user_roles \<longrightarrow> role' = role" and row: "filter (has_email D email) users'
     = [\<lparr>u_name = name, u_password = hashed, u_email = email, u_role = role'\<rparr>]"
    using createUser_stored[OF assms(1) _ _ _ _ _ crypt(1) created] plain short by auto
  have "stmt_fetch D' email users'
      = Some \<lparr>u_name = name, u_password = hashed, u_email = email, u_role = role'\<rparr>"
    using row role' short
    by (auto simp: stmt_fetch_def select_user_def find_filter has_email_cong[OF assms(3)] user_roles_def
        PROXY_MAX_NAME_LENGTH_def PROXY_MAX_PASSWORD_LENGTH_def PROXY_MAX_ROLE_LENGTH_def)
  moreover have "copy_field PROXY_MAX_ROLE_LENGTH role' = role'"
    using role' by (auto simp: user_roles_def copy_field_def c_str_def PROXY_MAX_ROLE_LENGTH_def)
  moreover have "copy_field PROXY_MAX_USER_LENGTH name = name"
    using plain short by (simp add: copy_field_def PROXY_MAX_USER_LENGTH_def)
  ultimately have "authenticate D' email attempt users' proxy
     = Some (if hashed' = hashed
             then (True, \<lparr>isAuthenticated = True, authenticatedUser = name, authenticatedRole = role'\<rparr>)
             else (False, proxy))"
    using assms(2) plain short(2) crypt(2)
    by (cases proxy) (auto simp: authenticate_def db_answers_def PROXY_MAX_PASSWORD_LENGTH_def)
  with role' show ?thesis by blast
qed

text \<open>After an account was deleted no password opens it, whatever the connector answers.\<close>

theorem deleteUser_no_login:
  assumes "user_sql_ok D" and "ud_email_eq D' = ud_email_eq D" and "sql_plain email" and "length email < 100"
    and "deleteUser D (Some email) users = (1, users')"
  shows "authenticate D' email attempt users' proxy = Some (False, proxy)"
proof -
  have "users' = filter (\<lambda>row. \<not> has_email D email row) users"
    using deleteUser_removed[OF assms(1,3) _ assms(5)] assms(4) by simp
  then have "stmt_fetch D' email users' = None"
    by (simp add: stmt_fetch_def select_user_def find_filter has_email_cong[OF assms(2)] o_def split: option.split list.split)
  then show ?thesis by (simp add: authenticate_def)
qed

text \<open>
  C33: An account that was created can be used at once: with its email and a working connection the
  login succeeds exactly for the passwords that hash like the one it was created with.  The session
  then carries the name of the account and one of the two roles; otherwise it is unchanged.  After
  the account is deleted no password opens it.
\<close>

theorem createUser_authenticate:
  assumes "user_sql_ok D" and "db_answers D'" and "ud_email_eq D' = ud_email_eq D"
    and plain: "list_all sql_plain [name, hashed, email, role, hashed']"
    and short: "list_all (\<lambda>s. length s < 100) [name, email, role]" "length hashed \<le> 144"
    and crypt: "ud_crypt D password SALT = Some hashed" "ud_crypt D' attempt SALT = Some hashed'"
    and created: "createUser D (Some name) (Some password) (Some email) (Some role) users = (1, users')"
  shows "(\<exists>role' \<in> set user_roles. (role \<in> set user_roles \<longrightarrow> role' = role) \<and> authenticate D' email attempt users' proxy
     = Some (if hashed' = hashed
             then (True, \<lparr>isAuthenticated = True, authenticatedUser = name, authenticatedRole = role'\<rparr>)
             else (False, proxy)))
    \<and> (\<forall>users''. deleteUser D (Some email) users' = (1, users'') \<longrightarrow>
        authenticate D' email attempt users'' proxy = Some (False, proxy))"
  using createUser_authenticated[OF assms] deleteUser_no_login[OF assms(1,3), of email users'] plain short by simp

section \<open>Witnesses\<close>

text \<open>
  A user table that takes statements apart at the quotes: nine pieces are an \<open>INSERT\<close>, three a
  \<open>DELETE\<close>.  The hash of a password is the password after a \<open>#\<close>.
\<close>

fun split_quotes :: "string \<Rightarrow> string list" where
  "split_quotes [] = [[]]"
| "split_quotes (c # s) = (if c = CHR 0x27 then [] # split_quotes s
     else (case split_quotes s of [] \<Rightarrow> [[c]] | p # ps \<Rightarrow> (c # p) # ps))"

definition sample_query :: "string \<Rightarrow> user_row list \<Rightarrow> (nat \<times> user_row list) option" where
  "sample_query q users =
     (case split_quotes q of
        [_, n, _, h, _, e, _, r, _] \<Rightarrow>
          if r \<in> set user_roles \<and> e \<notin> set (map u_email users)
          then Some (1, users @ [\<lparr>u_name = n, u_password = h, u_email = e, u_role = r\<rparr>]) else None
      | [_, e, _] \<Rightarrow> Some (length (filter (\<lambda>row. u_email row = e) users), filter (\<lambda>row. u_email row \<noteq> e) users)
      | _ \<Rightarrow> None)"

definition sample_users :: user_db where
  "sample_users = \<lparr>ud_init = True, ud_real_connect = True, ud_query = sample_query, ud_select = True,
     ud_store_result = True, ud_stmt_init = True, ud_stmt_prepare = True, ud_stmt_bind_param = True,
     ud_stmt_execute = True, ud_stmt_bind_result = True, ud_email_eq = (=),
     ud_crypt = (\<lambda>password salt. Some (CHR ''#'' # password))\<rparr>"

lemma split_quotes_plain: "CHR 0x27 \<notin> set s \<Longrightarrow> split_quotes s = [s]"
  by (induction s) auto

lemma split_quotes_piece: "CHR 0x27 \<notin> set s \<Longrightarrow> split_quotes (s @ quote @ q) = s # split_quotes q"
  by (induction s) (auto simp: quote_def)

lemma split_insert:
  assumes "list_all (\<lambda>s. CHR 0x27 \<notin> set s) [a, n, b, h, e, r, c]"
  shows "split_quotes (a @ quote @ n @ quote @ b @ quote @ h @ quote @ b @ quote @ e @ quote @ b @ quote @ r @ quote @ c)
     = [a, n, b, h, b, e, b, r, c]"
  using assms by (simp add: split_quotes_piece split_quotes_plain)

lemma split_delete:
  assumes "CHR 0x27 \<notin> set a" "CHR 0x27 \<notin> set e"
  shows "split_quotes (a @ quote @ e @ quote) = [a, e, []]"
  using assms split_quotes_piece[of e "[]"] by (simp add: split_quotes_piece)

lemma sample_sql_ok: "user_sql_ok sample_users"
proof -
  have ins: "split_quotes (insert_text n h e r) = [''INSERT INTO user (name, password, email, role) VALUES ('',
      n, '', '', h, '', '', e, '', '', r, '')'']" if "list_all sql_plain [n, h, e, r]" for n h e r
    using that unfolding insert_text_def by (intro split_insert) (simp add: sql_plain_def)
  have del: "split_quotes (delete_text e) = [''DELETE FROM user WHERE email='', e, []]" if "sql_plain e" for e
    using that unfolding delete_text_def by (intro split_delete) (simp_all add: sql_plain_def)
  have email: "has_email sample_users e row \<longleftrightarrow> u_email row = e" for e row
    by (simp add: has_email_def sample_users_def)
  show ?thesis unfolding user_sql_ok_def
  proof (intro conjI allI impI, elim conjE)
    fix n h e r users k users'
    assume "list_all sql_plain [n, h, e, r]" and "ud_query sample_users (insert_text n h e r) users = Some (k, users')"
    then show "\<exists>role' \<in> set user_roles. (r \<in> set user_roles \<longrightarrow> role' = r) \<and> filter (has_email sample_users e) users'
        = [\<lparr>u_name = n, u_password = h, u_email = e, u_role = role'\<rparr>]"
      using ins[of n h e r]
      by (auto simp: sample_users_def sample_query_def email[unfolded sample_users_def] filter_empty_conv split: if_splits)
  next
    fix e users k users'
    assume "sql_plain e \<and> ud_query sample_users (delete_text e) users = Some (k, users')"
    then show "users' = filter (\<lambda>row. \<not> has_email sample_users e row) users"
      using del[of e] by (auto simp: sample_query_def email[unfolded sample_users_def] sample_users_def)
  qed
qed

definition ada :: user_row where
  "ada = \<lparr>u_name = ''Ada'', u_password = ''#pw'', u_email = ''a@v'', u_role = ''admin''\<rparr>"

lemma ada_created: "createUser sample_users (Some ''Ada'') (Some ''pw'') (Some ''a@v'') (Some ''admin'') [] = (1, [ada])"
  by code_simp

lemma ada_deleted: "deleteUser sample_users (Some ''a@v'') [ada] = (1, [])"
  by code_simp

lemma sample_users_answers [simp]: "db_answers sample_users"
  by (simp add: db_answers_def connectToDb_user_def sample_users_def)

theorem createUser_authenticate_witness:
  "authenticate sample_users ''a@v'' ''pw'' [ada] cleared_proxy
     = Some (True, \<lparr>isAuthenticated = True, authenticatedUser = ''Ada'', authenticatedRole = ''admin''\<rparr>)"
proof -
  have "ud_crypt sample_users ''pw'' SALT = Some ''#pw''" by (simp add: sample_users_def)
  moreover have "list_all sql_plain [''Ada'', ''#pw'', ''a@v'', ''admin'', ''#pw'']"
    by (simp add: sql_plain_def)
  ultimately show ?thesis
    using createUser_authenticate[OF sample_sql_ok sample_users_answers refl _ _ _ _ _ ada_created,
        where hashed = "''#pw''" and hashed' = "''#pw''" and proxy = cleared_proxy and attempt = "''pw''"]
    by (simp add: user_roles_def)
qed

theorem deleteUser_no_login_witness:
  "authenticate sample_users ''a@v'' ''pw'' [] cleared_proxy = Some (False, cleared_proxy)"
  using deleteUser_no_login[OF sample_sql_ok refl _ _ ada_deleted] by (simp add: sql_plain_def)

end
