(* ===== verification/Client_Menu.thy ===== *)
theory Client_Menu
  imports Client_Request Auth_Proxy
begin

text \<open>
  \<open>menu.c\<close> and \<open>main.c\<close> of the client: the global variables, the commands, and the three menus that
  call each other.  A command or menu yields an \<open>outcome\<close>; the menus take fuel, one unit for each pass
  of a loop, which \<open>client_runs_until_eof\<close> shows to be enough.
\<close>

section \<open>State, environment, outcomes\<close>

text \<open>
  What the client does that others can see: the process id it announces, data sent to the server, the
  answers to a login, logout, and the end of the connection.
\<close>

datatype client_event =
    Announced string
  | Sent_data string
  | Login_ok string string
  | Login_failed
  | Logged_out
  | Closed

text \<open>The global variables, the input that is left, the user table, and what happened so far.\<close>

record client =
  c_stdin :: string
  is_connected :: bool
  is_logged_in :: bool
  option_selected :: int
  auth_proxy :: AuthProxy
  c_users :: "user_row list"
  c_calls :: nat
  c_trace :: "client_event list"

definition initial_client :: "string \<Rightarrow> user_row list \<Rightarrow> client" where
  "initial_client input users = \<lparr>c_stdin = input, is_connected = False, is_logged_in = False,
     option_selected = 0, auth_proxy = cleared_proxy, c_users = users, c_calls = 0, c_trace = []\<rparr>"

text \<open>\<open>c_calls\<close> numbers the uses of the environment; each field answers the use with that number.\<close>

record 'c client_env =
  ce_cjson :: "'c cjson"
  ce_db :: "nat \<Rightarrow> user_db"
  ce_connect :: "nat \<Rightarrow> connect_os"
  ce_order :: "nat \<Rightarrow> order_os"
  ce_send :: "nat \<Rightarrow> int"

text \<open>
  Control returns; the process exits; the behaviour is undefined; or the fuel is used up.  Each
  carries the state reached.
\<close>

datatype outcome =
    Returned client
  | Exited int client
  | Undefined client
  | Running client

fun final :: "outcome \<Rightarrow> client" where
  "final (Returned w) = w"
| "final (Exited code w) = w"
| "final (Undefined w) = w"
| "final (Running w) = w"

fun and_then :: "outcome \<Rightarrow> (client \<Rightarrow> outcome) \<Rightarrow> outcome" where
  "and_then (Returned w) f = f w"
| "and_then m f = m"

definition log_events :: "client_event list \<Rightarrow> client \<Rightarrow> client" where
  "log_events es w = w\<lparr>c_trace := c_trace w @ es\<rparr>"

definition next_call :: "client \<Rightarrow> client" where
  "next_call w = w\<lparr>c_calls := c_calls w + 1\<rparr>"

section \<open>Commands\<close>

text \<open>\<open>client_env\<close>'s port: the environment variable \<open>CLIENT_PORT\<close> is \<open>None\<close> if it is not set.\<close>

definition get_client_port :: "string option \<Rightarrow> int" where
  "get_client_port env_port = (case env_port of Some s \<Rightarrow> atoi s | None \<Rightarrow> 8080)"

definition init_client_connection :: "'c client_env \<Rightarrow> int \<Rightarrow> client \<Rightarrow> outcome" where
  "init_client_connection E protocol_choice w =
     (let os = ce_connect E (c_calls w)
      in if protocol_choice = 1 then
           (case initialize_client_udp os of None \<Rightarrow> Undefined w
            | Some (r, sent) \<Rightarrow>
                let w = log_events (map Announced sent) (next_call w)
                in if r \<noteq> 0 then Returned w else Returned (w\<lparr>is_connected := True\<rparr>))
         else if protocol_choice = 2 then
           (case initialize_client_tcp os of None \<Rightarrow> Undefined w
            | Some (r, sent) \<Rightarrow>
                let w = log_events (map Announced sent) (next_call w)
                in if r \<noteq> 0 then Returned w else Returned (w\<lparr>is_connected := True\<rparr>))
         else Returned w)"

definition select_protocol_and_connect :: "'c client_env \<Rightarrow> client \<Rightarrow> outcome" where
  "select_protocol_and_connect E w =
     (if is_connected w then Returned w
      else let (choice, s) = get_int_input 1 2 (c_stdin w); w = w\<lparr>c_stdin := s, option_selected := choice\<rparr>
           in init_client_connection E (option_selected w) w)"

definition start_communication :: "'c client_env \<Rightarrow> int \<Rightarrow> client \<Rightarrow> outcome" where
  "start_communication E protocol_choice w =
     (let os = ce_order E (c_calls w)
      in if protocol_choice = 1 then
           (case client_communicate_udp (ce_cjson E) os (c_stdin w) of None \<Rightarrow> Exited 1 w
            | Some (ex, s) \<Rightarrow>
                let w = log_events (map Sent_data (ex_sent ex)) (next_call w\<lparr>c_stdin := s\<rparr>)
                in if ex_result ex = 1 then Returned (w\<lparr>is_connected := False\<rparr>)
                   else if ex_result ex < 0 then Returned (w\<lparr>is_connected := False\<rparr>)
                   else Returned w)
         else if protocol_choice = 2 then
           let (ex, s) = client_communicate_tcp (ce_cjson E) os (c_stdin w);
               w = log_events (map Sent_data (ex_sent ex)) (next_call w\<lparr>c_stdin := s\<rparr>)
           in if ex_result ex = - 1 then Returned (w\<lparr>is_connected := False\<rparr>) else Returned w
         else Returned w)"

definition BUFFER_PASS_USER :: nat where "BUFFER_PASS_USER = 110"

definition login :: "'c client_env \<Rightarrow> client \<Rightarrow> outcome" where
  "login E w =
     (case fgets BUFFER_PASS_USER (c_stdin w) of
        None \<Rightarrow> Returned w
      | Some (email, s) \<Rightarrow>
          (case fgets BUFFER_PASS_USER s of
             None \<Rightarrow> Returned (w\<lparr>c_stdin := s\<rparr>)
           | Some (password, s) \<Rightarrow>
               let D = ce_db E (c_calls w); w = next_call w\<lparr>c_stdin := s, auth_proxy := cleared_proxy\<rparr>
               in (case manageDbUserWithAuth D (Some (auth_proxy w)) (chomp email) (chomp password) (c_users w) of
                     None \<Rightarrow> Undefined w
                   | Some (success, proxy) \<Rightarrow>
                       let w = (case proxy of None \<Rightarrow> w | Some p \<Rightarrow> w\<lparr>auth_proxy := p\<rparr>)
                       in if success
                          then Returned (log_events [Login_ok (authenticatedUser (auth_proxy w)) (authenticatedRole (auth_proxy w))]
                                 (w\<lparr>is_logged_in := True\<rparr>))
                          else Returned (log_events [Login_failed] (w\<lparr>is_logged_in := False\<rparr>)))))"

definition sign_in :: "'c client_env \<Rightarrow> client \<Rightarrow> outcome" where
  "sign_in E w =
     (case manageDbUser (ce_db E)
         \<lparr>ud_input = c_stdin w, ud_calls = c_calls w, ud_users = c_users w, ud_listings = []\<rparr> of
        None \<Rightarrow> Undefined w
      | Some d \<Rightarrow> Returned (w\<lparr>c_stdin := ud_input d, c_calls := ud_calls d, c_users := ud_users d\<rparr>))"

definition exit_program :: "client \<Rightarrow> outcome" where
  "exit_program w = Exited 0 w"

definition send_message :: "'c client_env \<Rightarrow> client \<Rightarrow> outcome" where
  "send_message E w = (if \<not> is_connected w then Returned w else start_communication E (option_selected w) w)"

text \<open>\<open>sendto\<close> or \<open>send\<close> of a command; a failure is only reported.\<close>

definition send_command :: "'c client_env \<Rightarrow> string \<Rightarrow> client \<Rightarrow> outcome" where
  "send_command E msg w =
     (if \<not> is_connected w then Returned w
      else if option_selected w = 1 \<or> option_selected w = 2 then
        if ce_send E (c_calls w) < 0 then Returned (next_call w)
        else Returned (log_events [Sent_data msg] (next_call w))
      else Returned w)"

definition list_connected_clients :: "'c client_env \<Rightarrow> client \<Rightarrow> outcome" where
  "list_connected_clients E w = send_command E ''LIST_CLIENTS'' w"

definition show_message_reports :: "'c client_env \<Rightarrow> client \<Rightarrow> outcome" where
  "show_message_reports E w = send_command E ''SHOW_REPORT'' w"

definition disconnect :: "client \<Rightarrow> outcome" where
  "disconnect w =
     (if is_connected w then Exited 0 (log_events [Closed] (w\<lparr>is_connected := False\<rparr>)) else Returned w)"

definition logout :: "client \<Rightarrow> outcome" where
  "logout w = Returned (log_events [Logged_out] (w\<lparr>auth_proxy := logout_proxy (auth_proxy w), is_logged_in := False\<rparr>))"

section \<open>The menus\<close>

text \<open>The value of \<open>DISCONNECT\<close>, which is also the number of the last option.\<close>

definition DISCONNECT :: int where "DISCONNECT = 5"

definition read_option :: "int \<Rightarrow> client \<Rightarrow> int \<times> client" where
  "read_option mx w = (let (choice, s) = get_int_input 1 mx (c_stdin w) in (choice, w\<lparr>c_stdin := s\<rparr>))"

fun show_protocol_menu :: "nat \<Rightarrow> 'c client_env \<Rightarrow> client \<Rightarrow> outcome"
  and show_auth_menu :: "nat \<Rightarrow> 'c client_env \<Rightarrow> client \<Rightarrow> outcome"
  and show_connected_menu :: "nat \<Rightarrow> 'c client_env \<Rightarrow> client \<Rightarrow> outcome" where
  "show_protocol_menu 0 E w = Running w"
| "show_protocol_menu (Suc fuel) E w =
     (let (choice, w) = read_option 2 w;
          again = (\<lambda>w. if \<not> is_connected w \<and> choice \<noteq> 2 then show_protocol_menu fuel E w else Returned w)
      in if choice = 1 then
           and_then (and_then (select_protocol_and_connect E w)
             (\<lambda>w. if is_connected w then show_auth_menu fuel E w else Returned w)) again
         else if choice = 2 then and_then (exit_program w) again
         else again w)"
| "show_auth_menu 0 E w = Running w"
| "show_auth_menu (Suc fuel) E w =
     (let (choice, w) = read_option 3 w;
          again = (\<lambda>w. if is_connected w \<and> \<not> is_logged_in w \<and> choice \<noteq> 3 then show_auth_menu fuel E w else Returned w)
      in if choice = 1 then
           and_then (login E w)
             (\<lambda>w. if is_logged_in w
                  then and_then (show_connected_menu fuel E w)
                         (\<lambda>w. if is_connected w \<and> \<not> is_logged_in w then again w
                              else if \<not> is_connected w then Returned w
                              else again w)
                  else again w)
         else if choice = 2 then and_then (sign_in E w) again
         else if choice = 3 then and_then (disconnect w) again
         else again w)"
| "show_connected_menu 0 E w = Running w"
| "show_connected_menu (Suc fuel) E w =
     (let (choice, w) = read_option DISCONNECT w;
          again = (\<lambda>w. if \<not> is_connected w then Returned w
                       else if is_connected w \<and> is_logged_in w then show_connected_menu fuel E w else Returned w)
      in if choice = 1 then and_then (send_message E w) again
         else if choice = 2 then and_then (list_connected_clients E w) again
         else if choice = 3 then and_then (show_message_reports E w) again
         else if choice = 4 then
           and_then (logout w)
             (\<lambda>w. if \<not> is_logged_in w \<and> is_connected w then show_auth_menu fuel E w
                  else if \<not> is_connected w then Returned w
                  else again w)
         else if choice = DISCONNECT then and_then (disconnect w) again
         else again w)"

text \<open>\<open>main\<close>: after the first menu the process ends with status 0.\<close>

definition client_main :: "nat \<Rightarrow> 'c client_env \<Rightarrow> client \<Rightarrow> outcome" where
  "client_main fuel E w = and_then (show_protocol_menu fuel E w) (Exited 0)"

end
