(* ===== verification/Client_Safety.thy ===== *)
theory Client_Safety
  imports Client_Menu
begin

text \<open>
  What holds of every run of the client: the contract of the commands as a locale, in which the
  menus are treated once, and its interpretations.
\<close>

section \<open>Outcomes\<close>

text \<open>
  \<open>R\<close> of the state a command returns with, \<open>A\<close> of one it ends the process in, \<open>U\<close> of one with
  undefined behaviour, \<open>S\<close> when the fuel is used up.
\<close>

definition on_outcome ::
  "(client \<Rightarrow> bool) \<Rightarrow> (client \<Rightarrow> bool) \<Rightarrow> (client \<Rightarrow> bool) \<Rightarrow> (client \<Rightarrow> bool) \<Rightarrow> outcome \<Rightarrow> bool" where
  "on_outcome R A U S m \<longleftrightarrow> (case m of Returned w \<Rightarrow> R w | Exited _ w \<Rightarrow> A w | Undefined w \<Rightarrow> U w | Running w \<Rightarrow> S w)"

lemma on_outcome_simps [simp]:
  "on_outcome R A U S (Returned w) \<longleftrightarrow> R w"
  "on_outcome R A U S (Exited n w) \<longleftrightarrow> A w"
  "on_outcome R A U S (Undefined w) \<longleftrightarrow> U w"
  "on_outcome R A U S (Running w) \<longleftrightarrow> S w"
  by (simp_all add: on_outcome_def)

lemma on_and_then:
  "\<lbrakk>on_outcome Q A U S m; \<And>w. Q w \<Longrightarrow> on_outcome R A U S (f w)\<rbrakk> \<Longrightarrow> on_outcome R A U S (and_then m f)"
  by (cases m) simp_all

lemma on_outcome_mono:
  "\<lbrakk>on_outcome Q A U S m; \<And>w. Q w \<Longrightarrow> R w; \<And>w. A w \<Longrightarrow> B w; \<And>w. U w \<Longrightarrow> V w; \<And>w. S w \<Longrightarrow> T w\<rbrakk> \<Longrightarrow> on_outcome R B V T m"
  by (cases m) simp_all

lemma on_outcome_conj:
  "\<lbrakk>on_outcome R A U S m; on_outcome Q B V T m\<rbrakk>
   \<Longrightarrow> on_outcome (\<lambda>w. R w \<and> Q w) (\<lambda>w. A w \<and> B w) (\<lambda>w. U w \<and> V w) (\<lambda>w. S w \<and> T w) m"
  by (cases m) simp_all

lemma log_events_simps [simp]:
  "c_stdin (log_events es w) = c_stdin w" "is_connected (log_events es w) = is_connected w"
  "is_logged_in (log_events es w) = is_logged_in w" "option_selected (log_events es w) = option_selected w"
  "auth_proxy (log_events es w) = auth_proxy w" "c_users (log_events es w) = c_users w"
  "c_calls (log_events es w) = c_calls w" "c_trace (log_events es w) = c_trace w @ es"
  by (simp_all add: log_events_def)

lemma next_call_simps [simp]:
  "c_stdin (next_call w) = c_stdin w" "is_connected (next_call w) = is_connected w"
  "is_logged_in (next_call w) = is_logged_in w" "option_selected (next_call w) = option_selected w"
  "auth_proxy (next_call w) = auth_proxy w" "c_users (next_call w) = c_users w"
  "c_trace (next_call w) = c_trace w"
  by (simp_all add: next_call_def)

lemmas command_defs = select_protocol_and_connect_def init_client_connection_def login_def sign_in_def
  send_message_def start_communication_def send_command_def disconnect_def logout_def exit_program_def

section \<open>The flags\<close>

text \<open>No command uses up the fuel; each changes only the flags it is about.\<close>

abbreviation returns :: "(client \<Rightarrow> bool) \<Rightarrow> outcome \<Rightarrow> bool" where
  "returns R \<equiv> on_outcome R (\<lambda>_. True) (\<lambda>_. True) (\<lambda>_. False)"

lemma login_flags: "returns (\<lambda>w'. is_connected w' = is_connected w) (login E w)"
  by (auto simp: command_defs Let_def split: option.split prod.split)

lemma sign_in_flags:
  "returns (\<lambda>w'. is_connected w' = is_connected w \<and> is_logged_in w' = is_logged_in w) (sign_in E w)"
  by (auto simp: command_defs split: option.split)

lemma send_message_flags: "returns (\<lambda>w'. is_logged_in w' = is_logged_in w) (send_message E w)"
  by (auto simp: command_defs Let_def split: option.split prod.split)

lemma send_command_flags:
  "returns (\<lambda>w'. is_connected w' = is_connected w \<and> is_logged_in w' = is_logged_in w) (send_command E msg w)"
  by (auto simp: command_defs)

lemma select_flags: "returns (\<lambda>w'. True) (select_protocol_and_connect E w)"
  by (auto simp: command_defs Let_def split: option.split prod.split)

lemma logout_flags: "returns (\<lambda>w'. is_connected w' = is_connected w \<and> \<not> is_logged_in w') (logout w)"
  by (simp add: command_defs)

lemma disconnect_flags: "is_connected w \<Longrightarrow> returns (\<lambda>w'. False) (disconnect w)"
  by (simp add: command_defs)

lemma read_option_range: "read_option mx w = (choice, w') \<Longrightarrow> 1 \<le> mx \<Longrightarrow> 1 \<le> choice \<and> choice \<le> mx"
  using get_int_input_range[of 1 mx "c_stdin w"] by (auto simp: read_option_def split: prod.splits)

lemma read_option_state: "read_option mx w = (choice, w') \<Longrightarrow> \<exists>s. w' = w\<lparr>c_stdin := s\<rparr>"
  by (auto simp: read_option_def split: prod.splits)

section \<open>Invariants of the menus\<close>

text \<open>
  The contract: \<open>J\<close> holds between commands, \<open>A\<close> where the process ends, \<open>U\<close> where its behaviour is
  undefined.  A command that sends may rely on a user being logged in.
\<close>

locale menu_invariant =
  fixes E :: "'c client_env" and J A U :: "client \<Rightarrow> bool"
  assumes weaken: "J w \<Longrightarrow> A w"
    and input: "J w \<Longrightarrow> J (w\<lparr>c_stdin := s\<rparr>)"
    and keep_connect: "J w \<Longrightarrow> on_outcome J A U A (select_protocol_and_connect E w)"
    and keep_login: "J w \<Longrightarrow> on_outcome J A U A (login E w)"
    and keep_sign_in: "J w \<Longrightarrow> on_outcome J A U A (sign_in E w)"
    and keep_send: "\<lbrakk>J w; is_logged_in w\<rbrakk> \<Longrightarrow> on_outcome J A U A (send_message E w)"
    and keep_command: "\<lbrakk>J w; is_logged_in w\<rbrakk> \<Longrightarrow> on_outcome J A U A (send_command E msg w)"
    and keep_disconnect: "J w \<Longrightarrow> on_outcome J A U A (disconnect w)"
    and keep_logout: "J w \<Longrightarrow> on_outcome J A U A (logout w)"
begin

lemma with_flags:
  assumes "on_outcome J A U A m" and "returns F m"
  shows "on_outcome (\<lambda>w. J w \<and> F w) A U A m"
  using on_outcome_conj[OF assms] by (rule on_outcome_mono) simp_all

lemma read_option_keeps:
  assumes "read_option mx w = (choice, w')" and "J w"
  shows "J w' \<and> is_connected w' = is_connected w \<and> is_logged_in w' = is_logged_in w"
  using read_option_state[OF assms(1)] input[OF assms(2)] by auto

abbreviation after_protocol :: "outcome \<Rightarrow> bool" where
  "after_protocol \<equiv> on_outcome (\<lambda>w. J w \<and> is_connected w \<and> is_logged_in w) A U A"

abbreviation after_menu :: "outcome \<Rightarrow> bool" where
  "after_menu \<equiv> on_outcome (\<lambda>w. J w \<and> (is_connected w \<longrightarrow> is_logged_in w)) A U A"

lemma protocol_step:
  assumes protocol: "\<And>w. \<lbrakk>J w; \<not> is_connected w\<rbrakk> \<Longrightarrow> after_protocol (show_protocol_menu fuel E w)"
    and auth: "\<And>w. \<lbrakk>J w; is_connected w\<rbrakk> \<Longrightarrow> after_menu (show_auth_menu fuel E w)"
    and w: "J w" "\<not> is_connected w"
  shows "after_protocol (show_protocol_menu (Suc fuel) E w)"
proof -
  obtain choice w1 where r: "read_option 2 w = (choice, w1)" by fastforce
  then have w1: "J w1" "\<not> is_connected w1" and "choice = 1 \<or> choice = 2"
    using read_option_keeps[OF r w(1)] read_option_range[OF r] w(2) by auto
  then consider (connect) "choice = 1" | (quit) "choice = 2" by blast
  then show ?thesis
  proof cases
    case connect
    have "after_menu (and_then (select_protocol_and_connect E w1)
        (\<lambda>w. if is_connected w then show_auth_menu fuel E w else Returned w))"
      by (rule on_and_then[OF keep_connect[OF w1(1)]]) (simp add: auth)
    then show ?thesis using connect
      by (simp add: r Let_def) (erule on_and_then, simp add: protocol)
  next
    case quit
    then show ?thesis by (simp add: r exit_program_def weaken w1)
  qed
qed

lemma auth_step:
  assumes auth: "\<And>w. \<lbrakk>J w; is_connected w\<rbrakk> \<Longrightarrow> after_menu (show_auth_menu fuel E w)"
    and connected: "\<And>w. \<lbrakk>J w; is_connected w; is_logged_in w\<rbrakk> \<Longrightarrow> after_menu (show_connected_menu fuel E w)"
    and w: "J w" "is_connected w"
  shows "after_menu (show_auth_menu (Suc fuel) E w)"
proof -
  obtain choice w1 where r: "read_option 3 w = (choice, w1)" by fastforce
  then have w1: "J w1" "is_connected w1" and "choice = 1 \<or> choice = 2 \<or> choice = 3"
    using read_option_keeps[OF r w(1)] read_option_range[OF r] w(2) by auto
  then consider (login) "choice = 1" | (sign_in) "choice = 2" | (quit) "choice = 3" by blast
  then show ?thesis
  proof cases
    case login
    note logged = with_flags[OF keep_login[OF w1(1)] login_flags]
    show ?thesis using login w1(2)
      by (simp add: r Let_def)
        (rule on_and_then[OF logged], auto intro!: on_and_then[OF connected] simp: auth)
  next
    case sign_in
    note created = with_flags[OF keep_sign_in[OF w1(1)] sign_in_flags]
    show ?thesis using sign_in w1(2)
      by (simp add: r Let_def) (rule on_and_then[OF created], auto simp: auth)
  next
    case quit
    note closed = with_flags[OF keep_disconnect[OF w1(1)] disconnect_flags[OF w1(2)]]
    show ?thesis using quit by (simp add: r Let_def) (rule on_and_then[OF closed], simp)
  qed
qed

lemma connected_step:
  assumes auth: "\<And>w. \<lbrakk>J w; is_connected w\<rbrakk> \<Longrightarrow> after_menu (show_auth_menu fuel E w)"
    and connected: "\<And>w. \<lbrakk>J w; is_connected w; is_logged_in w\<rbrakk> \<Longrightarrow> after_menu (show_connected_menu fuel E w)"
    and w: "J w" "is_connected w" "is_logged_in w"
  shows "after_menu (show_connected_menu (Suc fuel) E w)"
proof -
  obtain choice w1 where r: "read_option DISCONNECT w = (choice, w1)" by fastforce
  then have w1: "J w1" "is_connected w1" "is_logged_in w1"
    and "choice = 1 \<or> choice = 2 \<or> choice = 3 \<or> choice = 4 \<or> choice = DISCONNECT"
    using read_option_keeps[OF r w(1)] read_option_range[OF r] w(2,3) by (auto simp: DISCONNECT_def)
  then consider (send) "choice = 1" | (list) "choice = 2" | (report) "choice = 3" | (logout) "choice = 4"
    | (quit) "choice = DISCONNECT" by blast
  then show ?thesis
  proof cases
    case send
    note sent = with_flags[OF keep_send[OF w1(1,3)] send_message_flags]
    show ?thesis using send w1(3)
      by (simp add: r Let_def) (rule on_and_then[OF sent], auto simp: connected)
  next
    case list
    note sent = with_flags[OF keep_command[OF w1(1,3)] send_command_flags]
    show ?thesis using list w1
      by (simp add: r Let_def list_connected_clients_def) (rule on_and_then[OF sent], auto simp: connected)
  next
    case report
    note sent = with_flags[OF keep_command[OF w1(1,3)] send_command_flags]
    show ?thesis using report w1
      by (simp add: r Let_def show_message_reports_def) (rule on_and_then[OF sent], auto simp: connected)
  next
    case logout
    note out = with_flags[OF keep_logout[OF w1(1)] logout_flags]
    show ?thesis using logout w1(2)
      by (simp add: r Let_def) (rule on_and_then[OF out], auto simp: auth)
  next
    case quit
    note closed = with_flags[OF keep_disconnect[OF w1(1)] disconnect_flags[OF w1(2)]]
    show ?thesis using quit
      by (simp add: r[unfolded DISCONNECT_def] Let_def DISCONNECT_def) (rule on_and_then[OF closed], simp)
  qed
qed

lemma menus:
  "(\<forall>w. J w \<longrightarrow> \<not> is_connected w \<longrightarrow> after_protocol (show_protocol_menu fuel E w))
   \<and> (\<forall>w. J w \<longrightarrow> is_connected w \<longrightarrow> after_menu (show_auth_menu fuel E w))
   \<and> (\<forall>w. J w \<longrightarrow> is_connected w \<longrightarrow> is_logged_in w \<longrightarrow> after_menu (show_connected_menu fuel E w))"
proof (induction fuel)
  case 0
  then show ?case by (simp add: weaken)
next
  case (Suc fuel)
  then show ?case by (blast intro: protocol_step auth_step connected_step)
qed

lemma whole_run:
  assumes "J (initial_client stdin users)"
  shows "after_protocol (show_protocol_menu fuel E (initial_client stdin users))"
  using menus[of fuel] assms by (simp add: initial_client_def)

end

section \<open>Data is sent for a logged-in user only\<close>

text \<open>Whether a user is logged in after the events, and whether every piece of data was sent while one was.\<close>

fun session_after :: "bool \<Rightarrow> client_event list \<Rightarrow> bool" where
  "session_after b [] = b"
| "session_after b (Login_ok user role # es) = session_after True es"
| "session_after b (Login_failed # es) = session_after False es"
| "session_after b (Logged_out # es) = session_after False es"
| "session_after b (e # es) = session_after b es"

fun authorised :: "bool \<Rightarrow> client_event list \<Rightarrow> bool" where
  "authorised b [] = True"
| "authorised b (Sent_data d # es) = (b \<and> authorised b es)"
| "authorised b (e # es) = authorised (session_after b [e]) es"

lemma session_after_append: "session_after b (es @ fs) = session_after (session_after b es) fs"
  by (induction b es rule: session_after.induct) simp_all

lemma authorised_append: "authorised b (es @ fs) \<longleftrightarrow> authorised b es \<and> authorised (session_after b es) fs"
  by (induction b es rule: authorised.induct) simp_all

lemma session_after_quiet [simp]:
  "session_after b (map Announced ms) = b" "session_after b (map Sent_data ms) = b"
  by (induction ms) simp_all

lemma authorised_quiet [simp]:
  "authorised b (map Announced ms)" "authorised b (map Sent_data ms) \<longleftrightarrow> b \<or> ms = []"
  by (induction ms) auto

lemma session_after_login:
  "session_after False es \<Longrightarrow> \<exists>us user role vs. es = us @ Login_ok user role # vs \<and> set vs \<inter> {Login_failed, Logged_out} = {}"
proof (induction es rule: rev_induct)
  case Nil
  then show ?case by simp
next
  case (snoc e es)
  show ?case
  proof (cases "\<exists>user role. e = Login_ok user role")
    case True
    then show ?thesis by fastforce
  next
    case False
    with snoc.prems have "session_after False es" "e \<noteq> Login_failed" "e \<noteq> Logged_out"
      by (cases e; simp add: session_after_append)+
    with snoc.IH obtain us user role vs where "es = us @ Login_ok user role # vs"
      and "set vs \<inter> {Login_failed, Logged_out} = {}" by blast
    then have "es @ [e] = us @ Login_ok user role # (vs @ [e])" and "set (vs @ [e]) \<inter> {Login_failed, Logged_out} = {}"
      using \<open>e \<noteq> Login_failed\<close> \<open>e \<noteq> Logged_out\<close> by auto
    then show ?thesis by blast
  qed
qed

definition trace_ok :: "client \<Rightarrow> bool" where
  "trace_ok w \<longleftrightarrow> authorised False (c_trace w)"

definition session_ok :: "client \<Rightarrow> bool" where
  "session_ok w \<longleftrightarrow> trace_ok w \<and> session_after False (c_trace w) = is_logged_in w"

lemmas session_defs = session_ok_def trace_ok_def authorised_append session_after_append

lemma and_then_case:
  "on_outcome R A U S (case x of None \<Rightarrow> m | Some y \<Rightarrow> f y) \<longleftrightarrow>
     (x = None \<longrightarrow> on_outcome R A U S m) \<and> (\<forall>y. x = Some y \<longrightarrow> on_outcome R A U S (f y))"
  by (cases x) simp_all

interpretation authorised_run: menu_invariant E session_ok trace_ok trace_ok
proof (unfold_locales, goal_cases)
  case (1 w)
  then show ?case by (simp add: session_ok_def)
next
  case (2 w s)
  then show ?case by (simp add: session_defs)
next
  case (3 w)
  then show ?case
    by (auto simp: command_defs Let_def session_defs split: option.split prod.split)
next
  case (4 w)
  then show ?case
    by (auto simp: command_defs Let_def session_defs split: option.split prod.split)
next
  case (5 w)
  then show ?case by (auto simp: command_defs session_defs split: option.split)
next
  case (6 w)
  then show ?case
    by (auto simp: command_defs Let_def session_defs split: option.split prod.split)
next
  case (7 w msg)
  then show ?case by (auto simp: command_defs session_defs)
next
  case (8 w)
  then show ?case by (auto simp: command_defs session_defs)
next
  case (9 w)
  then show ?case by (simp add: command_defs session_defs)
qed

text \<open>
  C28: Whatever the user types, whatever the network and the database answer, and whenever the run is
  cut off: before each piece of data the client sent, a login had succeeded, and between the two no
  logout and no failed login came.
\<close>

theorem data_needs_login:
  assumes "c_trace (final (client_main fuel E (initial_client input users))) = es @ Sent_data d # fs"
  shows "\<exists>us user role vs. es = us @ Login_ok user role # vs \<and> set vs \<inter> {Login_failed, Logged_out} = {}"
proof -
  let ?m = "show_protocol_menu fuel E (initial_client input users)"
  have "session_ok (initial_client input users)" by (simp add: session_defs initial_client_def)
  then have "trace_ok (final ?m)"
    using authorised_run.whole_run[of input users fuel E] by (cases ?m) (auto simp: session_ok_def)
  moreover have "final (client_main fuel E (initial_client input users)) = final ?m"
    by (cases ?m) (simp_all add: client_main_def)
  ultimately have "session_after False es"
    using assms by (simp add: trace_ok_def authorised_append)
  then show ?thesis by (rule session_after_login)
qed

section \<open>The proxy agrees with the menus\<close>

text \<open>Who is logged in after the events: name and role of the last login, unless a logout or a failed login came later.\<close>

fun session_user :: "(string \<times> string) option \<Rightarrow> client_event list \<Rightarrow> (string \<times> string) option" where
  "session_user u [] = u"
| "session_user u (Login_ok user role # es) = session_user (Some (user, role)) es"
| "session_user u (Login_failed # es) = session_user None es"
| "session_user u (Logged_out # es) = session_user None es"
| "session_user u (e # es) = session_user u es"

lemma session_user_append: "session_user u (es @ fs) = session_user (session_user u es) fs"
  by (induction u es rule: session_user.induct) simp_all

lemma session_user_quiet [simp]:
  "session_user u (map Announced ms) = u" "session_user u (map Sent_data ms) = u"
  by (induction ms) simp_all

text \<open>The proxy of such a session: all bytes zero if there is none.\<close>

definition proxy_of :: "(string \<times> string) option \<Rightarrow> AuthProxy" where
  "proxy_of u = (case u of None \<Rightarrow> cleared_proxy
     | Some (user, role) \<Rightarrow> \<lparr>isAuthenticated = True, authenticatedUser = user, authenticatedRole = role\<rparr>)"

definition flag_agrees :: "client \<Rightarrow> bool" where
  "flag_agrees w \<longleftrightarrow> is_logged_in w = (session_user None (c_trace w) \<noteq> None)"

definition session_agrees :: "client \<Rightarrow> bool" where
  "session_agrees w \<longleftrightarrow> flag_agrees w \<and> auth_proxy w = proxy_of (session_user None (c_trace w)) \<and> proxy_ok (auth_proxy w)"

definition login_undefined :: "client \<Rightarrow> bool" where
  "login_undefined w \<longleftrightarrow> flag_agrees w \<and> auth_proxy w = cleared_proxy"

lemmas agree_defs = session_agrees_def flag_agrees_def login_undefined_def session_user_append

lemma login_agrees:
  assumes "session_agrees w"
  shows "on_outcome session_agrees session_agrees (\<lambda>w. session_agrees w \<or> login_undefined w) session_agrees (login E w)"
proof (cases "fgets BUFFER_PASS_USER (c_stdin w)")
  case None
  with assms show ?thesis by (simp add: login_def)
next
  case (Some r)
  then obtain email s where email: "fgets BUFFER_PASS_USER (c_stdin w) = Some (email, s)" by (cases r) simp
  show ?thesis
  proof (cases "fgets BUFFER_PASS_USER s")
    case None
    with assms email show ?thesis by (auto simp: login_def agree_defs)
  next
    case (Some r)
    then obtain password s' where password: "fgets BUFFER_PASS_USER s = Some (password, s')" by (cases r) simp
    show ?thesis
    proof (cases "authenticate (ce_db E (c_calls w)) (chomp email) (chomp password) (c_users w) cleared_proxy")
      case None
      with assms email password show ?thesis by (simp add: login_def manageDbUserWithAuth_def agree_defs)
    next
      case (Some r)
      obtain b p where r: "r = (b, p)" by (cases r)
      note a = Some[unfolded r]
      have p: "proxy_ok p" "isAuthenticated p = b" "\<not> b \<Longrightarrow> p = cleared_proxy"
        using authenticate_session[OF a] authenticate_fails a by auto
      have "proxy_of (Some (authenticatedUser p, authenticatedRole p)) = p" if b
        using p(2) that by (cases p) (simp add: proxy_of_def)
      with p email password Some r show ?thesis
        by (cases b) (simp_all add: login_def manageDbUserWithAuth_def agree_defs Let_def proxy_of_def)
    qed
  qed
qed

interpretation proxy_run: menu_invariant E session_agrees session_agrees "\<lambda>w. session_agrees w \<or> login_undefined w"
proof (unfold_locales, goal_cases)
  case (1 w)
  then show ?case .
next
  case (2 w s)
  then show ?case by (auto simp: agree_defs)
next
  case (3 w)
  then show ?case
    by (auto simp: command_defs Let_def agree_defs split: option.split prod.split)
next
  case (4 w)
  then show ?case by (rule login_agrees)
next
  case (5 w)
  then show ?case by (auto simp: command_defs agree_defs split: option.split)
next
  case (6 w)
  then show ?case
    by (auto simp: command_defs Let_def agree_defs split: option.split prod.split)
next
  case (7 w msg)
  then show ?case by (auto simp: command_defs agree_defs)
next
  case (8 w)
  then show ?case by (auto simp: command_defs agree_defs)
next
  case (9 w)
  then have "logout_proxy (auth_proxy w) = cleared_proxy" unfolding session_agrees_def by (blast intro: logout_proxy_ok)
  then show ?case by (simp add: command_defs agree_defs proxy_of_def)
qed

text \<open>
  C35: At the end of every run of the client, and wherever it is cut off, the flag of the menus says
  whether the last login was followed by neither a logout nor a failed login.  Then the proxy holds the
  name and the role of that login, as terminated strings in its buffers; otherwise all its bytes are
  zero.  Only a login whose behaviour is undefined leaves the proxy cleared beside the flag of an
  earlier session.  The first menu returns only while someone is logged in, with the connection open.
\<close>

theorem menu_session_agrees:
  "(case client_main fuel E (initial_client input users) of
      Undefined w \<Rightarrow> is_logged_in w = (session_user None (c_trace w) \<noteq> None)
        \<and> auth_proxy w \<in> {proxy_of (session_user None (c_trace w)), cleared_proxy}
    | m \<Rightarrow> is_logged_in (final m) = (session_user None (c_trace (final m)) \<noteq> None)
        \<and> auth_proxy (final m) = proxy_of (session_user None (c_trace (final m)))
        \<and> length (authenticatedUser (auth_proxy (final m))) < 100 \<and> length (authenticatedRole (auth_proxy (final m))) < 50)
    \<and> (\<forall>w. show_protocol_menu fuel E (initial_client input users) = Returned w \<longrightarrow>
      is_connected w \<and> is_logged_in w \<and> isAuthenticated (auth_proxy w))"
proof (rule conjI)
  let ?m = "show_protocol_menu fuel E (initial_client input users)"
  have "session_agrees (initial_client input users)"
    by (simp add: agree_defs initial_client_def proxy_of_def)
  note run = proxy_run.whole_run[OF this, of fuel E]
  from run show "case client_main fuel E (initial_client input users) of
      Undefined w \<Rightarrow> is_logged_in w = (session_user None (c_trace w) \<noteq> None)
        \<and> auth_proxy w \<in> {proxy_of (session_user None (c_trace w)), cleared_proxy}
    | m \<Rightarrow> is_logged_in (final m) = (session_user None (c_trace (final m)) \<noteq> None)
        \<and> auth_proxy (final m) = proxy_of (session_user None (c_trace (final m)))
        \<and> length (authenticatedUser (auth_proxy (final m))) < 100 \<and> length (authenticatedRole (auth_proxy (final m))) < 50"
    by (cases ?m) (auto simp: client_main_def session_agrees_def flag_agrees_def login_undefined_def proxy_ok_def
        PROXY_MAX_USER_LENGTH_def PROXY_MAX_ROLE_LENGTH_def)
  from run show "\<forall>w. ?m = Returned w \<longrightarrow> is_connected w \<and> is_logged_in w \<and> isAuthenticated (auth_proxy w)"
    by (auto simp: session_agrees_def flag_agrees_def proxy_of_def split: prod.splits)
qed

section \<open>Fuel\<close>

definition shorter :: "client \<Rightarrow> client \<Rightarrow> bool" where
  "shorter w w' \<longleftrightarrow> length (c_stdin w') \<le> length (c_stdin w)"

lemma shorter_trans: "\<lbrakk>shorter u v; shorter v w\<rbrakk> \<Longrightarrow> shorter u w"
  by (simp add: shorter_def)

lemma select_shorter: "returns (shorter w) (select_protocol_and_connect E w)"
  using get_int_input_rest[of 1 2 "c_stdin w"]
  by (auto simp: command_defs Let_def shorter_def split: option.split prod.split)

lemma login_shorter: "returns (shorter w) (login E w)"
  by (auto simp: login_def Let_def shorter_def split: option.split prod.split dest!: fgets_rest_le)

lemma sign_in_shorter: "returns (shorter w) (sign_in E w)"
  by (auto simp: sign_in_def shorter_def split: option.split dest!: manageDbUser_rest)

lemma send_message_shorter: "returns (shorter w) (send_message E w)"
  by (auto simp: send_message_def start_communication_def Let_def shorter_def client_communicate_tcp_rest
      split: option.split prod.split dest: client_communicate_udp_rest)

lemma send_command_shorter: "returns (shorter w) (send_command E msg w)"
  by (auto simp: send_command_def shorter_def)

lemma disconnect_shorter: "returns (shorter w) (disconnect w)"
  by (auto simp: disconnect_def shorter_def)

lemma logout_shorter: "returns (shorter w) (logout w)"
  by (auto simp: logout_def shorter_def)

text \<open>With more fuel than input, the fuel is used up only after the whole input was read.\<close>

definition at_eof :: "client \<Rightarrow> bool" where
  "at_eof w \<longleftrightarrow> c_stdin w = []"

definition enough :: "nat \<Rightarrow> client \<Rightarrow> bool" where
  "enough fuel w \<longleftrightarrow> at_eof w \<or> length (c_stdin w) < fuel"

abbreviation runs_from :: "client \<Rightarrow> outcome \<Rightarrow> bool" where
  "runs_from w \<equiv> on_outcome (shorter w) (\<lambda>_. True) (\<lambda>_. True) at_eof"

lemma enough_shorter: "\<lbrakk>enough fuel w; shorter w w'\<rbrakk> \<Longrightarrow> enough fuel w'"
  by (auto simp: enough_def shorter_def at_eof_def)

lemma read_option_enough:
  "\<lbrakk>read_option mx w = (choice, w'); enough (Suc fuel) w\<rbrakk> \<Longrightarrow> enough fuel w' \<and> shorter w w'"
  using get_int_input_consumes[of "c_stdin w" 1 mx] get_int_input_rest[of 1 mx "c_stdin w"]
  by (cases "c_stdin w = []") (auto simp: read_option_def enough_def shorter_def at_eof_def split: prod.splits)

lemma runs_from_returns: "returns (shorter w) m \<Longrightarrow> runs_from w m"
  by (erule on_outcome_mono) simp_all

lemma runs_from_later: "\<lbrakk>runs_from w' m; shorter w w'\<rbrakk> \<Longrightarrow> runs_from w m"
  by (erule on_outcome_mono) (auto intro: shorter_trans)

lemma runs_from_then:
  assumes "runs_from w m" and "\<And>w'. shorter w w' \<Longrightarrow> runs_from w (f w')"
  shows "runs_from w (and_then m f)"
  using assms by (rule on_and_then)

lemma menu_steps:
  assumes protocol: "\<And>w. enough fuel w \<Longrightarrow> runs_from w (show_protocol_menu fuel E w)"
    and auth: "\<And>w. enough fuel w \<Longrightarrow> runs_from w (show_auth_menu fuel E w)"
    and connected: "\<And>w. enough fuel w \<Longrightarrow> runs_from w (show_connected_menu fuel E w)"
    and w: "enough (Suc fuel) w"
  shows "runs_from w (show_protocol_menu (Suc fuel) E w)"
    and "runs_from w (show_auth_menu (Suc fuel) E w)"
    and "runs_from w (show_connected_menu (Suc fuel) E w)"
proof -
  have next_menu: "runs_from w1 (show_protocol_menu fuel E w2)" "runs_from w1 (show_auth_menu fuel E w2)"
      "runs_from w1 (show_connected_menu fuel E w2)" if "enough fuel w1" "shorter w1 w2" for w1 w2
    using enough_shorter[OF that] that(2) by (auto intro: runs_from_later protocol auth connected)
  have select: "runs_from w1 (select_protocol_and_connect E w2)" and login: "runs_from w1 (login E w2)"
    and sign_in: "runs_from w1 (sign_in E w2)" and send: "runs_from w1 (send_message E w2)"
    and command: "runs_from w1 (send_command E msg w2)" and disconnect: "runs_from w1 (disconnect w2)"
    and logout: "runs_from w1 (logout w2)" if "shorter w1 w2" for w1 w2 msg
    using that by (auto intro!: runs_from_later[OF runs_from_returns] select_shorter login_shorter sign_in_shorter
        send_message_shorter send_command_shorter disconnect_shorter logout_shorter)
  show "runs_from w (show_protocol_menu (Suc fuel) E w)"
  proof -
    obtain choice w1 where r: "read_option 2 w = (choice, w1)" by fastforce
    from read_option_enough[OF r w] have w1: "enough fuel w1" "shorter w w1" by auto
    have "runs_from w1 (show_protocol_menu (Suc fuel) E w)"
      by (auto simp: r Let_def exit_program_def intro!: runs_from_then select next_menu[OF w1(1)])
        (auto simp: shorter_def)
    then show ?thesis using w1(2) by (rule runs_from_later)
  qed
  show "runs_from w (show_auth_menu (Suc fuel) E w)"
  proof -
    obtain choice w1 where r: "read_option 3 w = (choice, w1)" by fastforce
    from read_option_enough[OF r w] have w1: "enough fuel w1" "shorter w w1" by auto
    have "runs_from w1 (show_auth_menu (Suc fuel) E w)"
      by (auto simp: r Let_def intro!: runs_from_then login sign_in disconnect next_menu[OF w1(1)])
        (auto simp: shorter_def)
    then show ?thesis using w1(2) by (rule runs_from_later)
  qed
  show "runs_from w (show_connected_menu (Suc fuel) E w)"
  proof -
    obtain choice w1 where r: "read_option DISCONNECT w = (choice, w1)" by fastforce
    from read_option_enough[OF r w] have w1: "enough fuel w1" "shorter w w1" by auto
    have "runs_from w1 (show_connected_menu (Suc fuel) E w)"
      by (auto simp: r Let_def list_connected_clients_def show_message_reports_def
          intro!: runs_from_then send command disconnect logout next_menu[OF w1(1)])
        (auto simp: shorter_def)
    then show ?thesis using w1(2) by (rule runs_from_later)
  qed
qed

lemma menus_runs_from:
  "\<forall>w. enough fuel w \<longrightarrow> runs_from w (show_protocol_menu fuel E w) \<and> runs_from w (show_auth_menu fuel E w)
     \<and> runs_from w (show_connected_menu fuel E w)"
proof (induction fuel)
  case 0
  then show ?case by (simp add: enough_def)
next
  case (Suc fuel)
  then show ?case by (blast intro: menu_steps)
qed

text \<open>More fuel does not change a run that ended.\<close>

definition ended :: "outcome \<Rightarrow> bool" where
  "ended m \<longleftrightarrow> (case m of Running _ \<Rightarrow> False | _ \<Rightarrow> True)"

lemma ended_simps [simp]: "ended (Returned w)" "ended (Exited n w)" "ended (Undefined w)" "\<not> ended (Running w)"
  by (simp_all add: ended_def)

lemma and_then_more_fuel:
  assumes "ended (and_then m f)" and "ended m \<Longrightarrow> m' = m" and "\<And>w. ended (f w) \<Longrightarrow> g w = f w"
  shows "and_then m' g = and_then m f"
  using assms by (cases m) auto

lemma menus_more_fuel_step:
  assumes protocol: "\<And>w. ended (show_protocol_menu n E w) \<Longrightarrow> show_protocol_menu m E w = show_protocol_menu n E w"
    and auth: "\<And>w. ended (show_auth_menu n E w) \<Longrightarrow> show_auth_menu m E w = show_auth_menu n E w"
    and connected: "\<And>w. ended (show_connected_menu n E w) \<Longrightarrow> show_connected_menu m E w = show_connected_menu n E w"
  shows "ended (show_protocol_menu (Suc n) E w) \<Longrightarrow> show_protocol_menu (Suc m) E w = show_protocol_menu (Suc n) E w"
    and "ended (show_auth_menu (Suc n) E w) \<Longrightarrow> show_auth_menu (Suc m) E w = show_auth_menu (Suc n) E w"
    and "ended (show_connected_menu (Suc n) E w) \<Longrightarrow> show_connected_menu (Suc m) E w = show_connected_menu (Suc n) E w"
proof -
  assume e: "ended (show_protocol_menu (Suc n) E w)"
  obtain choice w1 where r: "read_option 2 w = (choice, w1)" by fastforce
  show "show_protocol_menu (Suc m) E w = show_protocol_menu (Suc n) E w"
    using e by (auto simp: r Let_def protocol auth intro!: and_then_more_fuel split: if_splits)
next
  assume e: "ended (show_auth_menu (Suc n) E w)"
  obtain choice w1 where r: "read_option 3 w = (choice, w1)" by fastforce
  show "show_auth_menu (Suc m) E w = show_auth_menu (Suc n) E w"
    using e by (auto simp: r Let_def auth connected intro!: and_then_more_fuel split: if_splits)
next
  assume e: "ended (show_connected_menu (Suc n) E w)"
  obtain choice w1 where r: "read_option DISCONNECT w = (choice, w1)" by fastforce
  show "show_connected_menu (Suc m) E w = show_connected_menu (Suc n) E w"
    using e by (auto simp: r Let_def auth connected intro!: and_then_more_fuel split: if_splits)
qed
lemma menus_more_fuel:
  "(\<forall>w. ended (show_protocol_menu n E w) \<longrightarrow> show_protocol_menu (n + k) E w = show_protocol_menu n E w)
   \<and> (\<forall>w. ended (show_auth_menu n E w) \<longrightarrow> show_auth_menu (n + k) E w = show_auth_menu n E w)
   \<and> (\<forall>w. ended (show_connected_menu n E w) \<longrightarrow> show_connected_menu (n + k) E w = show_connected_menu n E w)"
proof (induction n)
  case 0
  then show ?case by simp
next
  case (Suc n)
  then show ?case unfolding add_Suc by (intro conjI allI impI menus_more_fuel_step) blast+
qed

lemma client_main_more_fuel:
  assumes "ended (client_main n E w)" and "n \<le> m"
  shows "client_main m E w = client_main n E w"
proof -
  have "ended (show_protocol_menu n E w)"
    using assms(1) by (cases "show_protocol_menu n E w") (simp_all add: client_main_def)
  then show ?thesis using menus_more_fuel[of n E "m - n"] assms(2) by (simp add: client_main_def)
qed

text \<open>
  C34: The client ends on every input that ends it: with more fuel than input, either the run ended, and
  no larger fuel changes it, or the whole input was read.  Before the end of the input no menu loops.
\<close>

theorem client_runs_until_eof:
  assumes "length input < fuel"
  shows "(ended (client_main fuel E (initial_client input users))
      \<and> (\<forall>m \<ge> fuel. client_main m E (initial_client input users) = client_main fuel E (initial_client input users)))
    \<or> (\<exists>w. client_main fuel E (initial_client input users) = Running w \<and> c_stdin w = [])"
proof (cases "ended (client_main fuel E (initial_client input users))")
  case True
  then show ?thesis using client_main_more_fuel by blast
next
  case False
  let ?m = "show_protocol_menu fuel E (initial_client input users)"
  have "enough fuel (initial_client input users)" using assms by (simp add: enough_def initial_client_def)
  then have "runs_from (initial_client input users) ?m" using menus_runs_from by blast
  with False show ?thesis by (cases ?m) (simp_all add: client_main_def at_eof_def)
qed

end
