(* ===== verification/Client_Runs.thy ===== *)
theory Client_Runs
  imports Client_Safety
begin

text \<open>
  Runs of the client: how a line of input selects an option, the end of the input, the account a
  user makes for himself, the login that outlives its connection; and the witnesses.
\<close>

section \<open>One line, one option\<close>

lemma get_int_input_line:
  assumes "d < 10" "mn \<le> int d" "int d \<le> mx"
  shows "get_int_input mn mx (digit_char d # CHR 0x0A # rest) = (int d, rest)"
proof -
  have c: "c_isdigit (digit_char d)" using assms(1) by simp
  then have *: "\<not> c_isspace (digit_char d)" "digit_char d \<noteq> CHR ''-''" "digit_char d \<noteq> CHR ''+''"
      "digit_char d \<noteq> CHR 0x0A" "digit_char d \<noteq> CHR 0x00" "menu_char (digit_char d)"
    by (auto dest: c_isdigit_not_space c_isdigit_not_sign simp: menu_char_def) (auto simp: c_isdigit_def)
  have line: "fgets BUFFER_SIZE_MENU (digit_char d # CHR 0x0A # rest) = Some ([digit_char d, CHR 0x0A], rest)"
    using fgets_fits[of "[digit_char d]" BUFFER_SIZE_MENU rest] *(4) by (simp add: BUFFER_SIZE_MENU_def)
  moreover have "sscanf_int [digit_char d, CHR 0x0A] = Some (int d)"
  proof -
    have "\<not> c_isdigit CHR 0x0A" by (simp add: c_isdigit_def)
    with c * assms(1) show ?thesis
      by (simp add: sscanf_int_def scan_int_def strtol_value_def c_str_def Let_def digits_val_def cast_int_def clamp_long_def)
  qed
  moreover have "list_all menu_char (c_str [digit_char d, CHR 0x0A])"
    using * by (simp add: c_str_def menu_char_def)
  ultimately show ?thesis using assms by (subst get_int_input.simps) simp
qed

lemma digit_chars: "CHR ''0'' = digit_char 0" "CHR ''1'' = digit_char 1" "CHR ''2'' = digit_char 2" "CHR ''5'' = digit_char 5"
  by code_simp+

lemma read_option_line:
  assumes "c_stdin w = digit_char d # CHR 0x0A # rest" "1 \<le> d" "d < 10" "int d \<le> mx"
  shows "read_option mx w = (int d, w\<lparr>c_stdin := rest\<rparr>)"
  using assms get_int_input_line[of d 1 mx rest] by (simp add: read_option_def)

lemma read_option_eof: "c_stdin w = [] \<Longrightarrow> read_option mx w = (1, w)"
  by (simp add: read_option_def)

section \<open>The end of the input\<close>

text \<open>
  A connected client whose input ends before a login asks for one again and again: the menu takes the
  end of the input for option 1, and the login returns at once.
\<close>

lemma auth_menu_eof:
  "\<lbrakk>c_stdin w = []; is_connected w; \<not> is_logged_in w\<rbrakk> \<Longrightarrow> show_auth_menu fuel E w = Running w"
  by (induction fuel) (simp_all add: read_option_eof login_def fgets_def Let_def)

theorem client_spins_at_eof:
  assumes "initialize_client_udp (ce_connect E 0) = Some (0, sent)"
  shows "\<exists>w. client_main fuel E (initial_client (''1'' @ newline @ ''1'' @ newline) users) = Running w"
proof (cases fuel)
  case 0
  then show ?thesis by (simp add: client_main_def)
next
  case (Suc n)
  let ?w0 = "initial_client (''1'' @ newline @ ''1'' @ newline) users"
  let ?w1 = "?w0\<lparr>c_stdin := ''1'' @ newline\<rparr>"
  have r: "read_option 2 ?w0 = (1, ?w1)"
    using read_option_line[of ?w0 1 "''1'' @ newline" 2] by (simp add: initial_client_def newline_def digit_chars)
  have "get_int_input 1 2 (''1'' @ newline) = (1, [])"
    using get_int_input_line[of 1 1 2 "[]"] by (simp add: newline_def digit_chars)
  then obtain w2 where "select_protocol_and_connect E ?w1 = Returned w2"
      and w2: "c_stdin w2 = []" "is_connected w2" "\<not> is_logged_in w2"
    using assms by (auto simp: select_protocol_and_connect_def init_client_connection_def initial_client_def Let_def)
  with r Suc auth_menu_eof[OF w2, of n E] show ?thesis by (simp add: client_main_def Let_def)
qed

section \<open>An account for everyone\<close>

lemma fgets_password:
  "\<lbrakk>plain_line s; length s < 100\<rbrakk> \<Longrightarrow> fgets BUFFER_PASS_USER (s @ CHR 0x0A # rest) = Some (s @ [CHR 0x0A], rest)"
  by (rule fgets_fits) (simp_all add: plain_line_def BUFFER_PASS_USER_def)

text \<open>
  C36: Whoever reaches the login menu can make himself an administrator without logging in: option 2,
  a new account with the role \<open>admin\<close>, then option 1 with its email and password, and the client stands
  at the menu of a connected user, as this administrator.
\<close>

theorem sign_in_makes_admin:
  assumes w: "is_connected w" "\<not> is_logged_in w"
    and typed: "c_stdin w = input_lines [''2'', ''1'', name, password, email, ''admin'', ''0'', ''1'', email, password] @ rest"
    and plain: "list_all plain_line [name, password, email]" "list_all sql_plain [name, hashed, email]"
    and short: "list_all (\<lambda>s. length s < 99) [name, password, email]" "length hashed \<le> 144"
    and db: "user_sql_ok (ce_db E (c_calls w))" "db_answers (ce_db E (c_calls w + 1))"
      "ud_email_eq (ce_db E (c_calls w + 1)) = ud_email_eq (ce_db E (c_calls w))"
    and crypt: "ud_crypt (ce_db E (c_calls w)) password SALT = Some hashed"
      "ud_crypt (ce_db E (c_calls w + 1)) password SALT = Some hashed"
    and created: "createUser (ce_db E (c_calls w)) (Some name) (Some password) (Some email) (Some ''admin'') (c_users w)
      = (1, users')"
  shows "\<exists>w'. show_auth_menu 2 E w = Running w' \<and> is_connected w' \<and> is_logged_in w' \<and> c_stdin w' = rest
    \<and> auth_proxy w' = \<lparr>isAuthenticated = True, authenticatedUser = name, authenticatedRole = ''admin''\<rparr>"
proof -
  define D where "D = ce_db E"
  let ?dialogue = "\<lambda>ls n us. \<lparr>ud_input = input_lines ls @ rest, ud_calls = n, ud_users = us, ud_listings = []\<rparr>"
  let ?w1 = "w\<lparr>c_stdin := input_lines [''1'', name, password, email, ''admin'', ''0'', ''1'', email, password] @ rest\<rparr>"
  let ?w2 = "w\<lparr>c_stdin := input_lines [''1'', email, password] @ rest, c_calls := c_calls w + 1, c_users := users'\<rparr>"
  let ?w3 = "?w2\<lparr>c_stdin := input_lines [email, password] @ rest\<rparr>"
  have opt1: "read_option 3 w = (2, ?w1)"
    using read_option_line[of w 2 _ 3] typed by (simp add: input_lines_def newline_def digit_chars)
  have "manageDbUser D (?dialogue [''1'', name, password, email, ''admin'', ''0'', ''1'', email, password] (c_calls w) (c_users w))
      = manageDbUser D (?dialogue [''0'', ''1'', email, password] (c_calls w + 1) users')"
    using plain(1) short(1) created
    by (subst manageDbUser_create[where name = name and password = password and email = email and role = "''admin''"
          and rest = "input_lines [''0'', ''1'', email, password] @ rest" and r = 1 and users' = users'])
      (simp_all add: input_lines_def D_def plain_line_def)
  also have "\<dots> = Some (?dialogue [''1'', email, password] (c_calls w + 1) users')"
    by (subst manageDbUser_end[where rest = "input_lines [''1'', email, password] @ rest"]) (simp_all add: input_lines_def)
  finally have sign: "sign_in E ?w1 = Returned ?w2" by (simp add: sign_in_def D_def)
  have opt2: "read_option 3 ?w2 = (1, ?w3)"
    using read_option_line[of ?w2 1 _ 3] by (simp add: input_lines_def newline_def digit_chars)
  have "sql_plain ''admin''" by (simp add: sql_plain_def)
  with plain(2) short crypt db created have
    auth: "authenticate (ce_db E (c_calls w + 1)) email password users' cleared_proxy
      = Some (True, \<lparr>isAuthenticated = True, authenticatedUser = name, authenticatedRole = ''admin''\<rparr>)"
    using createUser_authenticated[of "ce_db E (c_calls w)" "ce_db E (c_calls w + 1)" name hashed email "''admin''" hashed
        password password "c_users w" users' cleared_proxy]
    by (auto simp: user_roles_def)
  have "\<exists>w'. login E ?w3 = Returned w' \<and> is_connected w' \<and> is_logged_in w' \<and> c_stdin w' = rest
    \<and> auth_proxy w' = \<lparr>isAuthenticated = True, authenticatedUser = name, authenticatedRole = ''admin''\<rparr>"
    using plain(1) short(1) auth w(1)
    by (simp add: login_def input_lines_def newline_def fgets_password manageDbUserWithAuth_def)
  with opt1 sign opt2 w show ?thesis by (auto simp: numeral_2_eq_2 Let_def)
qed

section \<open>Witnesses\<close>

text \<open>
  A machine on which every call succeeds, but the template of an order is missing.
\<close>

definition sample_client_env :: "sample_json client_env" where
  "sample_client_env = \<lparr>ce_cjson = sample_cjson, ce_db = (\<lambda>_. sample_users),
     ce_connect = (\<lambda>_. \<lparr>co_gethostbyname = True, co_socket = 3, co_connect = 0, co_getpid = 47, co_junk = [], co_send = 6,
        co_receiver = \<lparr>ro_malloc = True, ro_setsockopt = 0, ro_pthread_create = 0\<rparr>\<rparr>),
     ce_order = (\<lambda>_. \<lparr>oo_template = None, oo_uuid = [], oo_date = [],
        oo_rounds = (\<lambda>_. \<lparr>at_send = 0, at_select = 0, at_setsockopt = 0, at_recv = - 1, at_timeout = True, at_data = []\<rparr>)\<rparr>),
     ce_send = (\<lambda>_. 12)\<rparr>"

lemma pid_47: "to_string 47 = ''47''"
proof -
  have "digit_char 4 = CHR ''4''" "digit_char 7 = CHR ''7''" by code_simp+
  then show ?thesis by (simp add: to_string_def nat_digits.simps[of 47] nat_digits.simps[of 4])
qed

lemma sample_connects:
  "initialize_client_udp (ce_connect sample_client_env n) = Some (0, [''47'' @ [CHR 0x00]])"
  "initialize_client_tcp (ce_connect sample_client_env n) = Some (0, [''47''])"
  by (simp_all add: sample_client_env_def initialize_client_udp_def initialize_client_tcp_def cl_pid_str_def pid_47
      start_message_receiver_def c_str_def)

lemma option_lines:
  "\<lbrakk>mn \<le> 1; 1 \<le> mx\<rbrakk> \<Longrightarrow> get_int_input mn mx (CHR ''1'' # CHR 0x0A # rest) = (1, rest)"
  "\<lbrakk>mn \<le> 2; 2 \<le> mx\<rbrakk> \<Longrightarrow> get_int_input mn mx (CHR ''2'' # CHR 0x0A # rest) = (2, rest)"
  "\<lbrakk>mn \<le> 5; 5 \<le> mx\<rbrakk> \<Longrightarrow> get_int_input mn mx (CHR ''5'' # CHR 0x0A # rest) = (5, rest)"
  using get_int_input_line[of 1 mn mx rest] get_int_input_line[of 2 mn mx rest] get_int_input_line[of 5 mn mx rest]
  by (simp_all add: digit_chars)

lemma ada_login: "authenticate sample_users ''a@v'' ''pw'' [ada] cleared_proxy
   = Some (True, \<lparr>isAuthenticated = True, authenticatedUser = ''Ada'', authenticatedRole = ''admin''\<rparr>)"
  by code_simp

lemma ada_types:
  "\<lbrakk>c_stdin w = input_lines [''a@v'', ''pw''] @ rest; c_users w = [ada]\<rbrakk> \<Longrightarrow>
   login sample_client_env w = Returned (log_events [Login_ok ''Ada'' ''admin'']
     (next_call w\<lparr>c_stdin := rest, is_logged_in := True,
        auth_proxy := \<lparr>isAuthenticated = True, authenticatedUser = ''Ada'', authenticatedRole = ''admin''\<rparr>\<rparr>))"
  using fgets_password[of "''a@v''" "''pw'' @ newline @ rest"] fgets_password[of "''pw''" rest]
    chomp_line[of "''a@v''"] chomp_line[of "''pw''"]
  by (cases w) (simp add: login_def input_lines_def newline_def plain_line_def manageDbUserWithAuth_def ada_login
      sample_client_env_def next_call_def log_events_def)

text \<open>A login, a request for the list of clients, and the end of the connection.\<close>

lemma listing_run:
  "\<exists>us. c_trace (final (client_main (Suc (Suc (Suc (Suc 0)))) sample_client_env (initial_client
     (input_lines [''1'', ''2'', ''1'', ''a@v'', ''pw'', ''2'', ''5'']) [ada])))
   = [Announced ''47'', Login_ok ''Ada'' ''admin''] @ Sent_data ''LIST_CLIENTS'' # us"
  using ada_types[where rest = "''2'' @ newline @ ''5'' @ newline"]
  by (simp add: client_main_def read_option_def input_lines_def newline_def option_lines initial_client_def Let_def
      select_protocol_and_connect_def init_client_connection_def sample_connects list_connected_clients_def
      send_command_def disconnect_def DISCONNECT_def)
    (simp add: sample_client_env_def)

theorem data_needs_login_witness:
  "\<exists>us user role vs. [Announced ''47'', Login_ok ''Ada'' ''admin''] = us @ Login_ok user role # vs
     \<and> set vs \<inter> {Login_failed, Logged_out} = {}"
  using listing_run data_needs_login by blast

text \<open>
  A user logs in, loses the connection while sending an order, connects again and looks at the account
  menu: the flag of the first login ends the client with the connection open.
\<close>

lemma stale_run:
  "\<exists>w. show_protocol_menu (Suc (Suc (Suc (Suc 0)))) sample_client_env (initial_client
     (input_lines [''1'', ''2'', ''1'', ''a@v'', ''pw'', ''1'', ''1'', ''2'', ''2'', ''0'']) [ada]) = Returned w"
proof -
  have [simp]: "manageDbUser D \<lparr>ud_input = [CHR ''0'', CHR 0x0A], ud_calls = n, ud_users = us, ud_listings = ls\<rparr>
      = Some \<lparr>ud_input = [], ud_calls = n, ud_users = us, ud_listings = ls\<rparr>" for D n us ls
    by (subst manageDbUser_end[where rest = "[]"]) (simp_all add: newline_def)
  have [simp]: "client_communicate_tcp (ce_cjson sample_client_env) (ce_order sample_client_env n) s
      = (\<lparr>ex_result = - 1, ex_sent = [], ex_response = None\<rparr>, s)" for n s
    by (simp add: client_communicate_tcp_def sample_client_env_def read_json_from_file_def)
  show ?thesis
    using ada_types[where rest = "''1'' @ newline @ ''1'' @ newline @ ''2'' @ newline @ ''2'' @ newline @ ''0'' @ newline"]
    by (simp add: read_option_def input_lines_def newline_def option_lines initial_client_def Let_def
      select_protocol_and_connect_def init_client_connection_def sample_connects send_message_def start_communication_def
      DISCONNECT_def sign_in_def)
qed

theorem menu_session_agrees_witness:
  "\<exists>w. isAuthenticated (auth_proxy w) \<and> show_protocol_menu (Suc (Suc (Suc (Suc 0)))) sample_client_env (initial_client
     (input_lines [''1'', ''2'', ''1'', ''a@v'', ''pw'', ''1'', ''1'', ''2'', ''2'', ''0'']) [ada]) = Returned w"
  using stale_run menu_session_agrees by blast

theorem client_runs_until_eof_witness:
  "client_main 100 sample_client_env (initial_client (''2'' @ newline) [])
     = client_main 3 sample_client_env (initial_client (''2'' @ newline) [])"
proof -
  have "ended (client_main 3 sample_client_env (initial_client (''2'' @ newline) []))"
    by (simp add: client_main_def numeral_3_eq_3 read_option_def newline_def option_lines initial_client_def exit_program_def)
  then have no: "\<nexists>w. client_main 3 sample_client_env (initial_client (''2'' @ newline) []) = Running w"
    by (auto simp only: ended_simps)
  have "length (''2'' @ newline) < 3" by (simp add: newline_def)
  then consider "\<forall>m \<ge> 3. client_main m sample_client_env (initial_client (''2'' @ newline) [])
      = client_main 3 sample_client_env (initial_client (''2'' @ newline) [])"
    | w where "client_main 3 sample_client_env (initial_client (''2'' @ newline) []) = Running w"
    using client_runs_until_eof[of "''2'' @ newline" 3 sample_client_env "[]"] by blast
  then show ?thesis
  proof cases
    case 1
    have "3 \<le> (100 :: nat)" by simp
    with 1 show ?thesis by blast
  next
    case 2
    with no show ?thesis by blast
  qed
qed

definition newcomer :: client where
  "newcomer = (initial_client (input_lines [''2'', ''1'', ''Ada'', ''pw'', ''a@v'', ''admin'', ''0'', ''1'', ''a@v'', ''pw'']) [])
     \<lparr>is_connected := True\<rparr>"

theorem sign_in_makes_admin_witness:
  "\<exists>w'. show_auth_menu 2 sample_client_env newcomer = Running w' \<and> is_logged_in w' \<and> authenticatedRole (auth_proxy w') = ''admin''"
proof -
  have crypt: "ud_crypt sample_users ''pw'' SALT = Some ''#pw''" by (simp add: sample_users_def)
  have plain: "list_all sql_plain [''Ada'', ''#pw'', ''a@v'']" "list_all plain_line [''Ada'', ''pw'', ''a@v'']"
    by (simp_all add: sql_plain_def plain_line_def)
  have db: "ce_db sample_client_env n = sample_users" for n by (simp add: sample_client_env_def)
  have "\<exists>w'. show_auth_menu 2 sample_client_env newcomer = Running w' \<and> is_connected w' \<and> is_logged_in w' \<and> c_stdin w' = []
    \<and> auth_proxy w' = \<lparr>isAuthenticated = True, authenticatedUser = ''Ada'', authenticatedRole = ''admin''\<rparr>"
    by (rule sign_in_makes_admin[OF _ _ _ plain(2,1), where users' = "[ada]"])
      (simp_all add: newcomer_def initial_client_def db crypt sample_sql_ok ada_created)
  then show ?thesis by auto
qed

end
