(* ===== verification/Json_Text.thy ===== *)
theory Json_Text
  imports Json_Sample
begin

text \<open>
  A printer and a parser of JSON text for the sample documents, for the witnesses of the theorems that
  cross the wire: the client prints with cJSON, the server parses with JsonCpp.  What is printed is
  parsed back to the same document.
\<close>

section \<open>Printing\<close>

definition escape :: "char \<Rightarrow> string" where
  "escape c = (if c = CHR 0x22 \<or> c = CHR 0x5C then [CHR 0x5C, c] else [c])"

definition quoted :: "string \<Rightarrow> string" where
  "quoted s = CHR 0x22 # concat (map escape s) @ [CHR 0x22]"

function json_text :: "sample_json \<Rightarrow> string" and members_text :: "(string \<times> sample_json) list \<Rightarrow> string" where
  "json_text SNull = ''null''"
| "json_text (SInt n) = to_string n"
| "json_text (SStr s) = quoted s"
| "json_text (SObj []) = ''{}''"
| "json_text (SObj (m # ms)) = CHR ''{'' # members_text (m # ms)"
| "members_text [] = []"
| "members_text ((k, v) # ms) =
     quoted k @ CHR '':'' # json_text v @ (if ms = [] then ''}'' else CHR '','' # members_text ms)"
  by pat_completeness auto
termination
  by (relation "measure (\<lambda>x. case x of Inl t \<Rightarrow> size t | Inr ms \<Rightarrow> size_list (size_prod (\<lambda>_. 0) size) ms)") auto

section \<open>Parsing\<close>

fun read_quoted :: "string \<Rightarrow> (string \<times> string) option" where
  "read_quoted [] = None"
| "read_quoted (c # s) =
     (if c = CHR 0x22 then Some ([], s)
      else if c = CHR 0x5C then
        (case s of [] \<Rightarrow> None | d # s' \<Rightarrow> map_option (\<lambda>(t, r). (d # t, r)) (read_quoted s'))
      else map_option (\<lambda>(t, r). (c # t, r)) (read_quoted s))"

definition numeral_char :: "char \<Rightarrow> bool" where
  "numeral_char c \<longleftrightarrow> c_isdigit c \<or> c = CHR ''-''"

text \<open>The first argument bounds the nesting of the calls.\<close>

fun read_value :: "nat \<Rightarrow> string \<Rightarrow> (sample_json \<times> string) option"
  and read_members :: "nat \<Rightarrow> string \<Rightarrow> ((string \<times> sample_json) list \<times> string) option" where
  "read_value 0 s = None"
| "read_value (Suc n) s =
     (case s of
        [] \<Rightarrow> None
      | c # r \<Rightarrow>
          if c = CHR ''{'' then
            if r \<noteq> [] \<and> hd r = CHR ''}'' then Some (SObj [], tl r)
            else map_option (\<lambda>(ms, r). (SObj ms, r)) (read_members n r)
          else if c = CHR 0x22 then map_option (\<lambda>(t, r). (SStr t, r)) (read_quoted r)
          else if take 4 s = ''null'' then Some (SNull, drop 4 s)
          else if numeral_char c then Some (SInt (atoi (takeWhile numeral_char s)), dropWhile numeral_char s)
          else None)"
| "read_members 0 s = None"
| "read_members (Suc n) s =
     (if s = [] \<or> hd s \<noteq> CHR 0x22 then None
      else case read_quoted (tl s) of
        None \<Rightarrow> None
      | Some (k, r) \<Rightarrow>
          if r = [] \<or> hd r \<noteq> CHR '':'' then None
          else case read_value n (tl r) of
            None \<Rightarrow> None
          | Some (v, r) \<Rightarrow>
              if r \<noteq> [] \<and> hd r = CHR ''}'' then Some ([(k, v)], tl r)
              else if r \<noteq> [] \<and> hd r = CHR '','' then
                map_option (\<lambda>(ms, r). ((k, v) # ms, r)) (read_members n (tl r))
              else None)"

definition json_read :: "string \<Rightarrow> sample_json option" where
  "json_read s = (case read_value (length s) s of Some (t, []) \<Rightarrow> Some t | _ \<Rightarrow> None)"

section \<open>What is printed is read back\<close>

text \<open>Documents whose numbers are of type \<open>int\<close> and whose texts contain no NUL.\<close>

function plain_json :: "sample_json \<Rightarrow> bool" where
  "plain_json SNull \<longleftrightarrow> True"
| "plain_json (SInt n) \<longleftrightarrow> in_int32 n"
| "plain_json (SStr s) \<longleftrightarrow> CHR 0x00 \<notin> set s"
| "plain_json (SObj []) \<longleftrightarrow> True"
| "plain_json (SObj ((k, v) # ms)) \<longleftrightarrow> CHR 0x00 \<notin> set k \<and> plain_json v \<and> plain_json (SObj ms)"
  by pat_completeness auto
termination by (relation "measure size") auto

lemma read_quoted_text: "read_quoted (concat (map escape s) @ CHR 0x22 # r) = Some (s, r)"
  by (induction s) (auto simp: escape_def)

lemma read_quoted_quoted: "read_quoted (tl (quoted s @ r)) = Some (s, r)"
  by (simp add: quoted_def read_quoted_text)

lemma quoted_start: "quoted s \<noteq> []" "hd (quoted s @ r) = CHR 0x22"
  by (simp_all add: quoted_def)

lemma to_string_numeral: "\<forall>c \<in> set (to_string n). numeral_char c"
  using nat_digits_all_digits by (auto simp: to_string_def numeral_char_def list_all_iff)

lemma hd_to_string: "numeral_char (hd (to_string n))"
  using to_string_numeral[of n] to_string_nonempty[of n] by (cases "to_string n") auto

lemma numeral_char_other:
  "\<not> numeral_char CHR ''{''" "\<not> numeral_char CHR 0x22" "\<not> numeral_char CHR ''n''" "\<not> numeral_char CHR ''}''"
  "\<not> numeral_char CHR '',''"
  by (simp_all add: numeral_char_def c_isdigit_def)

text \<open>A number ends where no character of a number follows.\<close>

definition stops :: "string \<Rightarrow> bool" where
  "stops r \<longleftrightarrow> r = [] \<or> \<not> numeral_char (hd r)"

lemma take_numeral:
  assumes "stops r"
  shows "takeWhile numeral_char (to_string n @ r) = to_string n" and "dropWhile numeral_char (to_string n @ r) = r"
proof -
  have "takeWhile numeral_char r = []" "dropWhile numeral_char r = r"
    using assms by (cases r; simp add: stops_def)+
  then show "takeWhile numeral_char (to_string n @ r) = to_string n" "dropWhile numeral_char (to_string n @ r) = r"
    using to_string_numeral by (simp_all add: takeWhile_append2 dropWhile_append2)
qed

lemma read_number:
  assumes "stops r" and "in_int32 n"
  shows "read_value (Suc k) (to_string n @ r) = Some (SInt n, r)"
proof -
  obtain c ds where c: "to_string n = c # ds" by (cases "to_string n") simp_all
  have num: "numeral_char c" using hd_to_string[of n] by (simp add: c)
  then have other: "c \<noteq> CHR ''{''" "c \<noteq> CHR 0x22" "c \<noteq> CHR ''n''" using numeral_char_other by auto
  have "take 4 (c # ds @ r) \<noteq> ''null''" using other by simp
  with other num take_numeral[OF assms(1), of n] atoi_to_string[OF assms(2)] show ?thesis
    by (simp add: c)
qed

text \<open>Every call has enough fuel if the first has as much as the text has characters.\<close>

lemma read_text:
  "\<lbrakk>plain_json t; stops r; length (json_text t) \<le> n\<rbrakk> \<Longrightarrow> read_value n (json_text t @ r) = Some (t, r)"
  "\<lbrakk>plain_json (SObj ms); ms \<noteq> []; length (members_text ms) \<le> n\<rbrakk>
    \<Longrightarrow> read_members n (members_text ms @ r) = Some (ms, r)"
proof (induction t and ms arbitrary: n r and n r rule: json_text_members_text.induct)
  case 1
  then show ?case by (cases n) (auto simp: numeral_char_other)
next
  case (2 m)
  then obtain k where "n = Suc k" by (cases n) auto
  with 2 show ?case by (simp add: read_number del: read_value.simps)
next
  case (3 s)
  then show ?case by (cases n) (auto simp: quoted_def read_quoted_text)
next
  case 4
  then show ?case by (cases n) auto
next
  case (5 m ms)
  obtain k v where m: "m = (k, v)" by (cases m)
  obtain l where l: "n = Suc l" using 5(4) by (cases n) auto
  have "read_members l (members_text (m # ms) @ r) = Some (m # ms, r)"
    using 5(2,4) l by (intro 5(1)) simp_all
  moreover have "hd (members_text (m # ms) @ r) = CHR 0x22" "members_text (m # ms) \<noteq> []"
    by (simp_all add: m quoted_def)
  ultimately show ?case by (simp add: l)
next
  case 6
  then show ?case by simp
next
  case (7 k v ms)
  obtain l where l: "n = Suc l" using 7(5) by (cases n) (auto simp: quoted_def)
  have plain: "plain_json v" "plain_json (SObj ms)" using 7(3) by simp_all
  let ?rest = "if ms = [] then ''}'' else CHR '','' # members_text ms"
  have len: "length (json_text v) \<le> l" "ms \<noteq> [] \<Longrightarrow> length (members_text ms) \<le> l"
    using 7(5) l by (auto simp: quoted_def split: if_splits)
  have stop: "stops (?rest @ r)" by (simp add: stops_def numeral_char_other)
  have v: "read_value l (json_text v @ ?rest @ r) = Some (v, ?rest @ r)"
    using 7(1)[OF plain(1) stop len(1)] .
  have q: "read_quoted (tl (quoted k @ CHR '':'' # json_text v @ ?rest @ r)) = Some (k, CHR '':'' # json_text v @ ?rest @ r)"
    by (rule read_quoted_quoted)
  have start: "hd (quoted k @ CHR '':'' # json_text v @ ?rest @ r) = CHR 0x22" by (rule quoted_start)
  have more: "ms \<noteq> [] \<Longrightarrow> read_members l (members_text ms @ r) = Some (ms, r)"
    using 7(2)[OF _ plain(2) _ len(2)] by blast
  have flat: "members_text ((k, v) # ms) @ r = quoted k @ CHR '':'' # json_text v @ ?rest @ r" by simp
  show ?case
    using v unfolding l flat read_members.simps q
    by (cases "ms = []") (simp_all add: start quoted_start more)
qed

theorem json_read_text: "plain_json t \<Longrightarrow> json_read (json_text t) = Some t"
  using read_text(1)[of t "[]" "length (json_text t)"] by (simp add: json_read_def stops_def)

text \<open>A text that is printed contains no NUL.\<close>

lemma quoted_no_nul: "CHR 0x00 \<notin> set s \<Longrightarrow> CHR 0x00 \<notin> set (quoted s)"
  by (auto simp: quoted_def escape_def)

lemma text_no_nul:
  "plain_json t \<Longrightarrow> CHR 0x00 \<notin> set (json_text t)"
  "plain_json (SObj ms) \<Longrightarrow> CHR 0x00 \<notin> set (members_text ms)"
proof (induction t and ms rule: json_text_members_text.induct)
  case (2 n)
  have "\<not> numeral_char CHR 0x00" by (simp add: numeral_char_def c_isdigit_def)
  with to_string_numeral[of n] show ?case by auto
qed (auto simp: quoted_no_nul)

section \<open>The sample of JsonCpp with this parser\<close>

definition text_jsoncpp :: "sample_json jsoncpp" where
  "text_jsoncpp = (sample [])\<lparr>jv_parse := (\<lambda>_ s. Inr (json_read s))\<rparr>"

lemma text_ops [simp]:
  "jv_index text_jsoncpp = sample_index" "jv_isNull text_jsoncpp v \<longleftrightarrow> v = SNull"
  "jv_isMember text_jsoncpp = sample_isMember" "jv_asString text_jsoncpp = sample_asString"
  "jv_asInt text_jsoncpp = sample_asInt" "jv_parse text_jsoncpp b s = Inr (json_read s)"
  by (simp_all add: text_jsoncpp_def)

lemma jsoncpp_ok_text: "jsoncpp_ok text_jsoncpp"
  using jsoncpp_ok_sample[of "[]"] by (simp add: jsoncpp_ok_def text_jsoncpp_def)

end
