(* ===== verification/Client_Server.thy ===== *)
theory Client_Server
  imports Server_Orders Client_Runs Json_Text
begin

text \<open>
  The client and the server on the two ends of a connection: the first message of a client registers
  it under its own process id, and what the server reads of an order.
\<close>

section \<open>The announcement\<close>

lemma to_string_plain: "plain_line (to_string n)"
  using plain_nat_digits by (auto simp: to_string_def plain_line_def)

lemma c_str_prefix: "CHR 0x00 \<notin> set s \<Longrightarrow> c_str (s @ CHR 0x00 # t) = s"
  by (induction s) (auto simp: c_str_def)

lemma recv_short: "\<lbrakk>CHR 0x00 \<notin> set s; length s < sz\<rbrakk> \<Longrightarrow> recv_buffer sz s = s"
  by (simp add: recv_buffer_def c_str_plain)

lemma recv_terminated: "\<lbrakk>CHR 0x00 \<notin> set s; length s < sz\<rbrakk> \<Longrightarrow> recv_buffer sz (s @ CHR 0x00 # t) = s"
proof -
  assume s: "CHR 0x00 \<notin> set s" and "length s < sz"
  then have "length s \<le> sz - 1" by simp
  then show ?thesis
  proof (cases "sz - 1 - length s")
    case 0
    with s \<open>length s \<le> sz - 1\<close> show ?thesis by (simp add: recv_buffer_def c_str_plain)
  next
    case (Suc n)
    with s \<open>length s \<le> sz - 1\<close> show ?thesis by (simp add: recv_buffer_def c_str_prefix)
  qed
qed

lemma announced_pid:
  assumes "cl_pid_str pid junk = Some d"
  shows "recv_buffer BUFFER_SIZE_SERVER d = to_string pid \<and> c_str d = to_string pid"
proof -
  have short: "length (to_string pid) < 6" and d: "d = to_string pid @ CHR 0x00 # take (5 - length (to_string pid)) junk"
    using assms by (auto simp: cl_pid_str_def take_Cons' split: if_splits)
  have "CHR 0x00 \<notin> set (to_string pid)" using to_string_plain by (simp add: plain_line_def)
  then show ?thesis using short by (simp add: d recv_terminated c_str_prefix BUFFER_SIZE_SERVER_def)
qed

lemma registered_lookup:
  assumes "registry_ok R" and "known_protocol proto" and "map_of (client_table proto R) pid = None"
    and "next_id proto R \<le> MAX_CLIENTS_ID"
  obtains R' where "registerClient pid proto cli fd now R = Inr (next_id proto R, R')"
    and "map_of (client_table proto R') pid = Some (new_client (next_id proto R) proto cli fd now)"
proof -
  have "next_id proto R < INT_MAX" using assms(4) by (simp add: MAX_CLIENTS_ID_def)
  from registerClient_table[OF assms(1,2) this, of pid cli fd now] assms(2-4)
  obtain R' where r: "registerClient pid proto cli fd now R = Inr (next_id proto R, R')"
    and t: "client_table proto R'
      = om_assign pid (new_client (next_id proto R) proto cli fd now) (client_table proto R)"
    by auto
  have "om_ok (client_table proto R)"
    using assms(1,2) by (auto simp: registry_ok_def client_table_def known_protocol_def dest: table_okD(1))
  with t have "map_of (client_table proto R') pid = Some (new_client (next_id proto R) proto cli fd now)"
    by (simp add: om.find_assign)
  with r that show ?thesis by blast
qed

text \<open>
  C29: The first message of a client registers it under its own process id.  The one datagram a UDP
  client sends when it connects makes the server enter its address under that id, with the next free
  number; the first read of a TCP connection does the same.  However the rest of the client's buffer
  was filled, \<open>atoi\<close> reads the id that was printed.
\<close>

theorem client_registers_its_pid:
  assumes "initialize_client_udp os = Some (0, ds)" and "initialize_client_tcp os = Some (0, ms)"
    and pid: "in_int32 (co_getpid os)" "co_getpid os \<noteq> 0"
    and R: "registry_ok (tables S)" "next_id ''UDP'' (tables S) \<le> MAX_CLIENTS_ID" "next_id ''TCP'' (tables S) \<le> MAX_CLIENTS_ID"
    and new: "map_of (clientMapUdp (tables S)) (co_getpid os) = None" "map_of (clientMapTcp (tables S)) (co_getpid os) = None"
  shows "\<exists>d m U T. ds = [d] \<and> ms = [m]
    \<and> udp_pass E now (Datagram d cli) (s, S) = (Skip, s\<lparr>s_client_id := next_id ''UDP'' (tables S)\<rparr>, S\<lparr>tables := U\<rparr>)
    \<and> map_of (clientMapUdp U) (co_getpid os) = Some (new_client (next_id ''UDP'' (tables S)) ''UDP'' cli 0 now)
    \<and> tcp_first E now fd cli (Bytes m) (s, S)
        = (Next, co_getpid os, s\<lparr>s_client_id := next_id ''TCP'' (tables S)\<rparr>, S\<lparr>tables := T\<rparr>)
    \<and> map_of (clientMapTcp T) (co_getpid os) = Some (new_client (next_id ''TCP'' (tables S)) ''TCP'' cli fd now)"
proof -
  obtain d where d: "cl_pid_str (co_getpid os) (co_junk os) = Some d" and sends: "ds = [d]" "ms = [c_str d]"
    using assms(1,2) by (auto simp: initialize_client_udp_def initialize_client_tcp_def split: if_splits option.splits)
  note p = announced_pid[OF d]
  have "recv_buffer BUFFER_SIZE_SERVER (c_str d) = to_string (co_getpid os)"
    using p d to_string_plain[of "co_getpid os"]
    by (simp add: cl_pid_str_def recv_short plain_line_def BUFFER_SIZE_SERVER_def split: if_splits)
  moreover obtain U where "registerClient (co_getpid os) ''UDP'' cli 0 now (tables S) = Inr (next_id ''UDP'' (tables S), U)"
    and "map_of (clientMapUdp U) (co_getpid os) = Some (new_client (next_id ''UDP'' (tables S)) ''UDP'' cli 0 now)"
    using registered_lookup[OF R(1) _ _ R(2), of "co_getpid os" cli 0 now] new(1)
    by (auto simp: known_protocol_def client_table_def)
  moreover obtain T where "registerClient (co_getpid os) ''TCP'' cli fd now (tables S) = Inr (next_id ''TCP'' (tables S), T)"
    and "map_of (clientMapTcp T) (co_getpid os) = Some (new_client (next_id ''TCP'' (tables S)) ''TCP'' cli fd now)"
    using registered_lookup[OF R(1) _ _ R(3), of "co_getpid os" cli fd now] new(2)
    by (auto simp: known_protocol_def client_table_def)
  ultimately show ?thesis
    using p pid new sends
    by (intro exI[of _ d] exI[of _ "c_str d"] exI[of _ U] exI[of _ T]) (simp add: udp_pass_unfold tcp_first_def atoi_to_string Let_def)
qed

text \<open>
  What the server makes of an announcement it has heard before.  JsonCpp reads the digits as a number,
  and documents that \<open>isMember\<close> of a number throws.
\<close>

definition number_document :: "'j jsoncpp \<Rightarrow> int \<Rightarrow> bool" where
  "number_document J n \<longleftrightarrow> (\<exists>v. jv_parse J True (to_string n) = Inr (Some v)
     \<and> (\<forall>k. jv_isMember J v k = Inl Json_LogicError))"

lemma announced_pass:
  assumes "cl_pid_str pid junk = Some d" and "in_int32 pid" "pid \<noteq> 0"
    and "registry_ok (tables S)" "next_id ''UDP'' (tables S) \<le> MAX_CLIENTS_ID" "map_of (clientMapUdp (tables S)) pid = None"
  obtains U where "udp_pass E now (Datagram d cli) (s, S) = (Skip, s\<lparr>s_client_id := next_id ''UDP'' (tables S)\<rparr>, S\<lparr>tables := U\<rparr>)"
    and "map_of (clientMapUdp U) pid \<noteq> None"
proof -
  obtain U where "registerClient pid ''UDP'' cli 0 now (tables S) = Inr (next_id ''UDP'' (tables S), U)"
    and "map_of (clientMapUdp U) pid = Some (new_client (next_id ''UDP'' (tables S)) ''UDP'' cli 0 now)"
    using registered_lookup[OF assms(4) _ _ assms(5), of pid cli 0 now] assms(6)
    by (auto simp: known_protocol_def client_table_def)
  then show ?thesis
    using announced_pid[OF assms(1)] assms(2,3,6) by (intro that[of U]) (simp_all add: udp_pass_unfold atoi_to_string Let_def)
qed

lemma announced_again:
  assumes "cl_pid_str pid junk = Some d" and "in_int32 pid" "pid \<noteq> 0"
    and "map_of (clientMapUdp (tables S)) pid \<noteq> None" and "number_document (env_json E) pid"
  shows "udp_pass E now (Datagram d cli) (s, S) =
    (if isValid s \<and> productStock s then Throw Json_LogicError else Next, s,
     snd (net_send E (Sendto cli ''UDP Server received your message.'') S))"
proof -
  let ?b = "to_string pid"
  obtain v where v: "jv_parse (env_json E) True ?b = Inr (Some v)" "jv_isMember (env_json E) v ''general_info'' = Inl Json_LogicError"
    using assms(5) by (auto simp: number_document_def)
  have pid: "atoi ?b = pid" using assms(2) by (rule atoi_to_string)
  have "atoi ''LIST_CLIENTS'' = 0" "atoi ''SHOW_REPORT'' = 0" by code_simp+
  with pid assms(3) have other: "?b \<noteq> ''LIST_CLIENTS''" "?b \<noteq> ''SHOW_REPORT''" by metis+
  have "\<not> (?b \<noteq> [] \<and> hd ?b = CHR ''{'')" using pid assms(3) atoi_brace[of ?b] by auto
  moreover have "processMessage E ?b ''UDP'' i S' = Inl Json_LogicError" for i S'
    using other v by (simp add: processMessage_def Let_def)
  ultimately show ?thesis
    using announced_pid[OF assms(1)] pid assms(4)
    by (auto simp: udp_pass_unfold message_stages_def udp_reply_def reply_with_def process_stage_def Let_def)
qed

text \<open>
  C30: A process id must not be announced twice.  When a UDP client connects again while it is still
  registered, or a client on another machine has the same process id, the server takes the
  announcement for a message.  If the last order of the UDP session was accepted, or there was none
  yet, the message is processed: the number is no JSON object, and the exception ends the server.
  After a rejected order the announcement is acknowledged and otherwise ignored, so that the client
  at the other address is never registered.
\<close>

theorem second_announcement_of_a_pid:
  assumes client: "initialize_client_udp os = Some (0, ds)" "initialize_client_udp os' = Some (0, ds')"
      "co_getpid os' = co_getpid os"
    and pid: "in_int32 (co_getpid os)" "co_getpid os \<noteq> 0"
    and R: "registry_ok (tables S)" "next_id ''UDP'' (tables S) \<le> MAX_CLIENTS_ID"
      "map_of (clientMapUdp (tables S)) (co_getpid os) = None"
    and J: "number_document (env_json E) (co_getpid os)"
  shows "\<exists>d d' s1 S1 S2. ds = [d] \<and> ds' = [d']
    \<and> udp_pass E now (Datagram d cli) (s, S) = (Skip, s1, S1)
    \<and> udp_pass E now' (Datagram d' cli') (s1, S1) =
        (if isValid s \<and> productStock s then Throw Json_LogicError else Next, s1, S2)
    \<and> tables S2 = tables S1 \<and> orders S2 = orders S \<and> inventory S2 = inventory S
    \<and> (quiet E \<longrightarrow> sent S2 = sent S @ [Sendto cli' ''UDP Server received your message.''])"
proof -
  obtain d where d: "cl_pid_str (co_getpid os) (co_junk os) = Some d" "ds = [d]"
    using client(1) by (auto simp: initialize_client_udp_def split: if_splits option.splits)
  obtain d' where d': "cl_pid_str (co_getpid os) (co_junk os') = Some d'" "ds' = [d']"
    using client(2,3) by (auto simp: initialize_client_udp_def split: if_splits option.splits)
  obtain U where U: "udp_pass E now (Datagram d cli) (s, S)
      = (Skip, s\<lparr>s_client_id := next_id ''UDP'' (tables S)\<rparr>, S\<lparr>tables := U\<rparr>)"
      "map_of (clientMapUdp U) (co_getpid os) \<noteq> None"
    by (rule announced_pass[OF d(1) pid R])
  let ?s = "s\<lparr>s_client_id := next_id ''UDP'' (tables S)\<rparr>" and ?S = "S\<lparr>tables := U\<rparr>"
  let ?S2 = "snd (net_send E (Sendto cli' ''UDP Server received your message.'') ?S)"
  have "udp_pass E now' (Datagram d' cli') (?s, ?S)
      = (if isValid s \<and> productStock s then Throw Json_LogicError else Next, ?s, ?S2)"
    using announced_again[OF d'(1) pid _ J, where S = ?S and s = ?s and now = now' and cli = cli'] U(2) by simp
  moreover have "quiet E \<longrightarrow> sent ?S2 = sent S @ [Sendto cli' ''UDP Server received your message.'']"
    by (simp add: net_send_quiet)
  ultimately show ?thesis
    using d(2) d'(2) U(1)
    by (intro exI[of _ d] exI[of _ d'] exI[of _ ?s] exI[of _ ?S] exI[of _ ?S2]) simp
qed

section \<open>The order\<close>

lemma send_text_no_nul: "CHR 0x00 \<notin> set (send_text msg)"
  by (auto simp: send_text_def c_str_def dest: in_set_takeD set_takeWhileD)

lemma recv_send_text: "recv_buffer BUFFER_SIZE_SERVER (send_text msg) = take 2047 (c_str msg)"
proof -
  have "CHR 0x00 \<notin> set (take 2047 (c_str msg))"
    by (auto simp: c_str_def dest: in_set_takeD set_takeWhileD)
  then show ?thesis
    by (simp add: recv_buffer_def send_text_def BUFFER_SIZE_SERVER_def BUFFER_SIZE_CLIENT_def c_str_plain)
qed

lemma recv_send_buffer: "recv_buffer BUFFER_SIZE_SERVER (send_buffer msg) = take 2047 (c_str msg)"
proof (cases "length (send_text msg) < 2048")
  case True
  then have "send_buffer msg = send_text msg @ CHR 0x00 # replicate (4095 - length (send_text msg)) (CHR 0x00)"
    by (simp add: send_buffer_def BUFFER_SIZE_CLIENT_def flip: replicate_Suc)
  with True show ?thesis
    using recv_terminated[OF send_text_no_nul, of msg 2048] recv_short[OF send_text_no_nul, of msg 2048]
      recv_send_text[of msg] by (simp add: BUFFER_SIZE_SERVER_def)
next
  case False
  then have "recv_buffer BUFFER_SIZE_SERVER (send_buffer msg) = recv_buffer BUFFER_SIZE_SERVER (send_text msg)"
    by (simp add: recv_buffer_def send_buffer_def BUFFER_SIZE_SERVER_def)
  then show ?thesis by (simp add: recv_send_text)
qed

text \<open>
  Of an order the server reads the first 2047 characters, over UDP and over TCP: it gets the order
  the client printed exactly if that is shorter than 2048 characters, although the client's own buffer
  holds 4096.
\<close>

theorem server_reads_order:
  "(recv_buffer BUFFER_SIZE_SERVER (send_buffer msg) = c_str msg \<longleftrightarrow> length (c_str msg) < 2048)
   \<and> recv_buffer BUFFER_SIZE_SERVER (send_text msg) = recv_buffer BUFFER_SIZE_SERVER (send_buffer msg)"
  by (auto simp: recv_send_buffer recv_send_text take_all_iff)

section \<open>From the prompts to the stock\<close>

text \<open>The order that eleven entries make, in the order of the prompts.\<close>

definition entered_order :: "string list \<Rightarrow> order" where
  "entered_order ls =
     \<lparr>o_source_type = ls ! 0, o_source_location = atoi (ls ! 1), o_destination_type = ls ! 2,
      o_destination_location = atoi (ls ! 3), o_action_type = ls ! 4, o_product_id = ls ! 5,
      o_product_name = ls ! 6, o_quantity = atoi (ls ! 7)\<rparr>"

text \<open>
  A tree of cJSON whose members are the fields of an order, under the keys of the request format as they
  are spelled there.
\<close>

definition no_nul :: "string \<Rightarrow> bool" where
  "no_nul s \<longleftrightarrow> CHR 0x00 \<notin> set s"

definition text_at :: "'c cjson \<Rightarrow> 'c \<Rightarrow> string list \<Rightarrow> string \<Rightarrow> bool" where
  "text_at C tree q s \<longleftrightarrow> exact_at C q tree \<and> member_at C q tree = Some (cj_string C s) \<and> no_nul s"

definition number_at :: "'c cjson \<Rightarrow> 'c \<Rightarrow> string list \<Rightarrow> int \<Rightarrow> bool" where
  "number_at C tree q n \<longleftrightarrow> exact_at C q tree \<and> member_at C q tree = Some (cj_number C n) \<and> in_int32 n"

definition tree_order :: "'c cjson \<Rightarrow> 'c \<Rightarrow> order \<Rightarrow> string \<Rightarrow> bool" where
  "tree_order C tree r p \<longleftrightarrow>
     text_at C tree (p_source ''type'') (o_source_type r)
   \<and> number_at C tree (p_source ''location'') (o_source_location r)
   \<and> text_at C tree (p_destination ''type'') (o_destination_type r)
   \<and> number_at C tree (p_destination ''location'') (o_destination_location r)
   \<and> text_at C tree (p_action ''type'') (o_action_type r)
   \<and> text_at C tree (p_product ''id'') (o_product_id r)
   \<and> text_at C tree (p_product ''name'') (o_product_name r)
   \<and> number_at C tree (p_product ''quantity'') (o_quantity r)
   \<and> (\<exists>x. text_at C tree id_path x) \<and> (\<exists>x. text_at C tree date_path x)
   \<and> (\<exists>x. text_at C tree (p_metadata ''message'') x) \<and> (\<exists>x. text_at C tree (p_metadata ''priority'') x)
   \<and> text_at C tree (p_metadata ''protocol'') p"

text \<open>
  What both libraries document of a text that cJSON prints and JsonCpp parses.  cJSON writes JSON, with
  no NUL in it, and an object starts with a brace.  JsonCpp parses JSON text whose nesting is below its
  \<open>stackLimit\<close> of 1000, whether it collects comments or not.  The value has the same members as the
  tree, each under the spelling of its key; where the lookup of cJSON, which ignores case and takes the
  first match, and that of JsonCpp, which compares exactly and keeps the last, could differ, nothing is
  assumed: \<open>mirrors\<close> is about the paths in which one key matches without case and is spelled as asked.
\<close>

definition mirrors :: "'c cjson \<Rightarrow> 'j jsoncpp \<Rightarrow> 'c \<Rightarrow> 'j \<Rightarrow> bool" where
  "mirrors C J tree root \<longleftrightarrow>
     (\<forall>q s. text_at C tree q s \<longrightarrow> json_string J root q = Inr s)
   \<and> (\<forall>q n. number_at C tree q n \<longrightarrow> json_int J root q = Inr n \<and> json_string J root q = Inr (to_string n))
   \<and> (\<forall>q k. exact_at C (q @ [k]) tree \<longrightarrow>
        present J root q \<and> rbind (json_path J root q) (\<lambda>v. jv_isMember J v k) = Inr True)"

definition STACK_LIMIT :: nat where "STACK_LIMIT = 1000"

text \<open>At least the depth of the nesting.\<close>

definition brackets :: "string \<Rightarrow> nat" where
  "brackets s = length (List.filter (\<lambda>c. c = CHR ''{'' \<or> c = CHR ''['') s)"

definition libraries_agree :: "'c cjson \<Rightarrow> 'j jsoncpp \<Rightarrow> bool" where
  "libraries_agree C J \<longleftrightarrow> (\<forall>tree msg. cj_print C tree = Some msg \<longrightarrow>
     no_nul msg \<and> (cj_keys C tree \<noteq> [] \<longrightarrow> msg \<noteq> [] \<and> hd msg = CHR ''{'')
   \<and> (brackets msg < STACK_LIMIT \<longrightarrow>
        (\<exists>root. (\<forall>comments. jv_parse J comments msg = Inr (Some root)) \<and> mirrors C J tree root)))"

lemma mirrors_node:
  assumes "mirrors C J tree root" and "exact_at C (q @ k # ks) tree"
  shows "present J root q \<and> rbind (json_path J root q) (\<lambda>v. jv_isMember J v k) = Inr True"
proof -
  have "exact_at C (q @ [k]) tree" using assms(2) exact_at_append[of C "q @ [k]" ks tree] by simp
  with assms(1) show ?thesis unfolding mirrors_def by blast
qed

lemma tree_order_message:
  assumes agree: "libraries_agree C J" and msg: "cj_print C tree = Some msg" "brackets msg < STACK_LIMIT"
    and tree: "tree_order C tree r p"
  shows "no_nul msg \<and> (\<exists>root. order_message J msg root r p)"
proof -
  obtain root where parse: "\<And>b. jv_parse J b msg = Inr (Some root)" and m: "mirrors C J tree root"
    and "no_nul msg" and start: "cj_keys C tree \<noteq> [] \<Longrightarrow> msg \<noteq> [] \<and> hd msg = CHR ''{''"
    using agree msg unfolding libraries_agree_def by blast
  have texts: "text_at C tree q s \<Longrightarrow> json_string J root q = Inr s"
    and numbers: "number_at C tree q n \<Longrightarrow> json_int J root q = Inr n \<and> json_string J root q = Inr (to_string n)" for q s n
    using m unfolding mirrors_def by blast+
  have exact: "exact_at C (p_destination ''type'') tree" "exact_at C (p_product ''name'') tree"
    using tree by (auto simp: tree_order_def text_at_def simp del: exact_at.simps)
  then have "cj_keys C tree \<noteq> []" by auto
  note nodes = mirrors_node[OF m, of "[]" "''general_info''"] mirrors_node[OF m, of "[''general_info'']"]
    mirrors_node[OF m, of "[''general_info'', ''destination'']"] mirrors_node[OF m, of "[''general_info'', ''action'']"]
    mirrors_node[OF m, of "[''general_info'', ''action'', ''product'']"]
  have "present J root [''general_info'']" "present J root [''general_info'', ''destination'']"
    "present J root [''general_info'', ''action'']" "present J root [''general_info'', ''action'', ''product'']"
    "rbind (json_path J root [''general_info'', ''action'']) (\<lambda>a. jv_isMember J a ''product'') = Inr True"
    "jv_isMember J root ''general_info'' = Inr True"
    using nodes(1)[of "[''destination'', ''type'']"] nodes(2)[of "''destination''" "[''type'']"]
      nodes(3)[of "''type''" "[]"] nodes(4)[of "''product''" "[''name'']"] nodes(5)[of "''name''" "[]"] exact
    by (simp_all del: exact_at.simps json_path.simps(2))
  then have "order_message J msg root r p"
    using tree start[OF \<open>cj_keys C tree \<noteq> []\<close>] parse texts numbers
    unfolding order_message_def order_reads_def tree_order_def number_at_def[of C tree _ _] by blast
  with \<open>no_nul msg\<close> show ?thesis by blast
qed

lemma entered_tree_order:
  assumes C: "cjson_ok C" "cjson_keys_ok C" and ls: "length ls = length order_fields" "list_all entry_ok ls"
    and json: "\<forall>p \<in> request_paths. exact_at C p json" and os: "no_nul uuid" "no_nul date"
    and run: "update_json_with_user_input C uuid date json (input_lines ls @ rest) = (tree, rest')"
  shows "rest' = rest \<and> tree_order C tree (entered_order ls) (ls ! 10)"
proof -
  have "\<forall>p \<in> {id_path, date_path} \<union> field_path ` set order_fields. member_at C p json \<noteq> None"
    by (rule ballI, rule exact_at_member, rule json[rule_format]) (simp only: request_paths_def)
  note f = request_fields[OF C(1) ls this run]
  have exact: "exact_at C p tree" if "p \<in> request_paths" for p
    using update_json_exact[OF C json, of uuid date "input_lines ls @ rest"] run that by simp
  have field: "member_at C (field_path (order_fields ! i)) tree = Some (field_value C (snd (snd (order_fields ! i))) (ls ! i))"
    "exact_at C (field_path (order_fields ! i)) tree" "no_nul (ls ! i)" if "i < length order_fields" for i
    using f that exact ls
    by (auto simp: request_paths_def list_all_length entry_ok_def plain_line_def no_nul_def simp del: member_at.simps exact_at.simps)
  have paths: "field_path (order_fields ! 0) = p_source ''type''" "field_path (order_fields ! 1) = p_source ''location''"
    "field_path (order_fields ! 2) = p_destination ''type''" "field_path (order_fields ! 3) = p_destination ''location''"
    "field_path (order_fields ! 4) = p_action ''type''" "field_path (order_fields ! 5) = p_product ''id''"
    "field_path (order_fields ! 6) = p_product ''name''" "field_path (order_fields ! 7) = p_product ''quantity''"
    "field_path (order_fields ! 8) = p_metadata ''message''" "field_path (order_fields ! 9) = p_metadata ''priority''"
    "field_path (order_fields ! 10) = p_metadata ''protocol''"
    by (simp_all add: order_fields_def field_path_def)
  have eleven: "length order_fields = 11" by (simp add: order_fields_def)
  have texts: "text_at C tree (field_path (order_fields ! i)) (ls ! i)"
    if "i < 11" "snd (snd (order_fields ! i)) = Text_field" for i
    using field[of i] that eleven by (simp add: text_at_def field_value_def del: member_at.simps exact_at.simps)
  have numbers: "number_at C tree (field_path (order_fields ! i)) (atoi (ls ! i))"
    if "i < 11" "snd (snd (order_fields ! i)) = Number_field" for i
    using field[of i] that eleven by (simp add: number_at_def field_value_def in_int32_atoi del: member_at.simps exact_at.simps)
  have kinds: "snd (snd (order_fields ! 0)) = Text_field" "snd (snd (order_fields ! 1)) = Number_field"
    "snd (snd (order_fields ! 2)) = Text_field" "snd (snd (order_fields ! 3)) = Number_field"
    "snd (snd (order_fields ! 4)) = Text_field" "snd (snd (order_fields ! 5)) = Text_field"
    "snd (snd (order_fields ! 6)) = Text_field" "snd (snd (order_fields ! 7)) = Number_field"
    "snd (snd (order_fields ! 8)) = Text_field" "snd (snd (order_fields ! 9)) = Text_field"
    "snd (snd (order_fields ! 10)) = Text_field"
    by (simp_all add: order_fields_def)
  have "text_at C tree id_path uuid" "text_at C tree date_path date"
    using f os exact by (auto simp: text_at_def request_paths_def simp del: member_at.simps exact_at.simps)
  moreover note texts[OF _ kinds(1)] numbers[OF _ kinds(2)] texts[OF _ kinds(3)] numbers[OF _ kinds(4)] texts[OF _ kinds(5)]
    texts[OF _ kinds(6)] texts[OF _ kinds(7)] numbers[OF _ kinds(8)] texts[OF _ kinds(9)] texts[OF _ kinds(10)] texts[OF _ kinds(11)]
  ultimately have "tree_order C tree (entered_order ls) (ls ! 10)"
    unfolding tree_order_def entered_order_def order.simps paths by simp blast
  with f show ?thesis by blast
qed

lemma udp_sent_copies: "d \<in> set (ex_sent (udp_rounds os m 0 [])) \<Longrightarrow> d = m"
  using udp_rounds_from[of 0 os m] by (auto simp: exchange_spec_def split: option.splits if_splits)

lemma c_str_send_buffer: "c_str (send_buffer msg) = send_text msg"
proof (cases "BUFFER_SIZE_CLIENT - length (send_text msg)")
  case 0
  then show ?thesis using send_text_no_nul by (simp add: send_buffer_def c_str_plain)
next
  case (Suc n)
  then show ?thesis using send_text_no_nul by (simp add: send_buffer_def c_str_prefix)
qed

text \<open>Each copy of a typed order reaches the server, and reads there as typed.\<close>

lemma typed_copy:
  assumes client: "cjson_ok C" "cjson_keys_ok C" "read_json_from_file C (oo_template os) = Some json"
      "\<forall>p \<in> request_paths. exact_at C p json" "no_nul (oo_uuid os)" "no_nul (oo_date os)"
    and typed: "length ls = length order_fields" "list_all entry_ok ls"
    and sends: "client_communicate_udp C os (input_lines ls @ rest) = Some (ex, rest')" "d \<in> set (ex_sent ex)"
      "length (c_str d) < 2048" "brackets (c_str d) < STACK_LIMIT"
    and agree: "libraries_agree C J"
  obtains root where "rest' = rest" and "recv_buffer 2048 d = c_str d"
    and "order_message J (c_str d) root (entered_order ls) (ls ! 10)"
proof -
  obtain tree left where u: "update_json_with_user_input C (oo_uuid os) (oo_date os) json (input_lines ls @ rest) = (tree, left)"
    by fastforce
  with entered_tree_order[OF client(1,2) typed client(4-6)]
  have left: "left = rest" and order: "tree_order C tree (entered_order ls) (ls ! 10)" by auto
  obtain msg where p: "cj_print C tree = Some msg" and d: "d \<in> set (ex_sent (udp_rounds (oo_rounds os) (send_buffer msg) 0 []))"
    and "rest' = rest"
    using sends(1,2) client(3) u left by (auto simp: client_communicate_udp_def split: option.splits)
  have "no_nul msg" using agree p unfolding libraries_agree_def by blast
  moreover have "d = send_buffer msg" using d by (rule udp_sent_copies)
  ultimately have sent: "c_str d = msg" and read: "recv_buffer 2048 d = msg"
    using sends(3) recv_send_buffer[of msg]
    by (auto simp: no_nul_def c_str_send_buffer send_text_def c_str_plain BUFFER_SIZE_CLIENT_def BUFFER_SIZE_SERVER_def)
  obtain root where "order_message J msg root (entered_order ls) (ls ! 10)"
    using tree_order_message[OF agree p _ order] sends(4) sent by auto
  with sent read \<open>rest' = rest\<close> show ?thesis by (intro that) simp_all
qed

text \<open>
  C25: What a user types at the prompts moves the stock.  The template has the members of the request
  format, spelled as there.  Each copy of the order that the client sends, if it has fewer than 2048
  characters and fewer than 1000 opening brackets, makes the server carry out exactly the order typed,
  provided that its source is a hub that holds the quantity, that it is within the limits, and that
  the destination has room: the units are moved, and the text of the order is stored.
\<close>

theorem typed_order_moves_stock:
  assumes client: "cjson_ok C" "cjson_keys_ok C" "read_json_from_file C (oo_template os) = Some json"
      "\<forall>p \<in> request_paths. exact_at C p json" "no_nul (oo_uuid os)" "no_nul (oo_date os)"
    and typed: "length ls = length order_fields" "list_all entry_ok ls"
    and sends: "client_communicate_udp C os (input_lines ls @ rest) = Some (ex, rest')" "d \<in> set (ex_sent ex)"
      "length (c_str d) < 2048" "brackets (c_str d) < STACK_LIMIT"
    and agree: "libraries_agree C (env_json E)"
    and server: "quiet E" "state_ok E Next S" "db_reliable (env_mysql E) (inventory S)"
    and ready: "order_ready (env_mysql E) (inventory S) (entered_order ls) Hub a"
      "total_ordered (env_json E) (ls ! 6) (storedOrders (orders S)) + atoi (ls ! 7) \<le> INT_MAX"
  shows "rest' = rest \<and> (\<exists>s' S'. udp_pass E now (Datagram d cli) (s, S) = (Next, s', S')
    \<and> stock_at (env_mysql E) (inventory S') = moved_stock (env_mysql E) (entered_order ls) (inventory S)
    \<and> storedOrders (orders S') = storedOrders (orders S) @ [c_str d])"
proof -
  obtain root where m: "rest' = rest" "recv_buffer 2048 d = c_str d"
      "order_message (env_json E) (c_str d) root (entered_order ls) (ls ! 10)"
    by (rule typed_copy[OF client typed sends agree]) (rule that)
  then show ?thesis
    using udp_hub_order_pass[OF server, of d root "entered_order ls" "ls ! 10" a now cli s] ready
    by (auto simp: entered_order_def)
qed

section \<open>Witnesses\<close>

theorem client_registers_its_pid_witness:
  "\<exists>U. udp_pass (sample_env SNull) 9 (Datagram (''47'' @ [CHR 0x00]) (sample_addr 6000)) (new_session, sample_server 0)
     = (Skip, new_session\<lparr>s_client_id := 2\<rparr>, sample_server 0\<lparr>tables := U\<rparr>) \<and> map_of (clientMapUdp U) 47 \<noteq> None"
proof -
  have "in_int32 (co_getpid (ce_connect sample_client_env 0))" "co_getpid (ce_connect sample_client_env 0) = 47"
    by (simp_all add: sample_client_env_def in_int32_def)
  moreover have "next_id ''UDP'' sample_registry = 2" "next_id ''TCP'' sample_registry = 1"
    by (simp_all add: next_id_def sample_registry_def empty_registry_def)
  moreover have "map_of (clientMapUdp sample_registry) 47 = None" "map_of (clientMapTcp sample_registry) 47 = None"
    by (simp_all add: sample_registry_def empty_registry_def)
  ultimately show ?thesis
    using client_registers_its_pid[OF sample_connects(1)[of 0] sample_connects(2)[of 0],
        where S = "sample_server 0" and s = new_session and E = "sample_env SNull" and now = 9 and cli = "sample_addr 6000"]
      sample_registry_ok by (fastforce simp: MAX_CLIENTS_ID_def)
qed

definition digits_env :: "sample_json env" where
  "digits_env = (sample_env SNull)\<lparr>env_json := sample [(''47'', SInt 47)]\<rparr>"

theorem second_announcement_of_a_pid_witness:
  "(\<exists>d d' s1 S1 S2. udp_pass digits_env 5 (Datagram d (sample_addr 6000)) (new_session, sample_server 0) = (Skip, s1, S1)
     \<and> udp_pass digits_env 9 (Datagram d' (sample_addr 6001)) (s1, S1) = (Throw Json_LogicError, s1, S2))
   \<and> (\<exists>d d' s1 S1 S2. udp_pass digits_env 5 (Datagram d (sample_addr 6000)) (new_session\<lparr>isValid := False\<rparr>, sample_server 0)
        = (Skip, s1, S1)
     \<and> udp_pass digits_env 9 (Datagram d' (sample_addr 6001)) (s1, S1) = (Next, s1, S2))"
proof -
  have pid: "co_getpid (ce_connect sample_client_env n) = 47" for n
    by (simp add: sample_client_env_def)
  have "to_string 47 = ''47''" by code_simp
  then have J: "number_document (env_json digits_env) 47"
    by (simp add: number_document_def digits_env_def)
  have free: "next_id ''UDP'' sample_registry \<le> MAX_CLIENTS_ID" "map_of (clientMapUdp sample_registry) 47 = None"
    by (simp_all add: next_id_def sample_registry_def empty_registry_def MAX_CLIENTS_ID_def)
  let ?os = "ce_connect sample_client_env"
  have same: "co_getpid (?os 1) = co_getpid (?os 0)" and int: "in_int32 (co_getpid (?os 0))" "co_getpid (?os 0) \<noteq> 0"
    by (simp_all add: pid in_int32_def)
  have R: "registry_ok (tables (sample_server 0))" "next_id ''UDP'' (tables (sample_server 0)) \<le> MAX_CLIENTS_ID"
    "map_of (clientMapUdp (tables (sample_server 0))) (co_getpid (?os 0)) = None"
    "number_document (env_json digits_env) (co_getpid (?os 0))"
    using sample_registry_ok free J by (simp_all add: pid)
  have twice: "\<exists>d d' s1 S1 S2. udp_pass digits_env 5 (Datagram d (sample_addr 6000)) (s, sample_server 0) = (Skip, s1, S1)
      \<and> udp_pass digits_env 9 (Datagram d' (sample_addr 6001)) (s1, S1) =
        (if isValid s \<and> productStock s then Throw Json_LogicError else Next, s1, S2)" for s
    using second_announcement_of_a_pid[OF sample_connects(1)[of 0] sample_connects(1)[of 1] same int R,
        where s = s and now = 5 and now' = 9 and cli = "sample_addr 6000" and cli' = "sample_addr 6001"]
    by blast
  from twice[of new_session] twice[of "new_session\<lparr>isValid := False\<rparr>"] show ?thesis by (simp add: new_session_def)
qed

text \<open>
  cJSON with the printer and the parser of \<open>Json_Text\<close>; it prints documents whose numbers are of type
  \<open>int\<close> and whose texts contain no NUL, as every request is.
\<close>

definition wire_cjson :: "sample_json cjson" where
  "wire_cjson = sample_cjson\<lparr>cj_parse := json_read,
     cj_print := (\<lambda>t. if plain_json t then Some (json_text t) else None)\<rparr>"

lemma wire_ops [simp]:
  "cj_get wire_cjson = cj_get sample_cjson" "cj_keys wire_cjson = cj_keys sample_cjson"
  "cj_replace wire_cjson = cj_replace sample_cjson" "cj_update wire_cjson = cj_update sample_cjson"
  "cj_string wire_cjson = SStr" "cj_number wire_cjson = SInt" "cj_parse wire_cjson = json_read"
  "cj_print wire_cjson t = (if plain_json t then Some (json_text t) else None)"
  by (simp_all add: wire_cjson_def sample_cjson_def)

lemma sample_members:
  "cj_get sample_cjson j k = (case j of SObj ms \<Rightarrow> find_member ms k | _ \<Rightarrow> None)"
  "cj_keys sample_cjson j = (case j of SObj ms \<Rightarrow> map fst ms | _ \<Rightarrow> [])"
  by (simp_all add: sample_cjson_def)

lemma wire_ok: "cjson_ok wire_cjson" "cjson_keys_ok wire_cjson"
  using sample_cjson_ok sample_cjson_keys_ok by (simp_all add: cjson_ok_def cjson_keys_ok_def)

text \<open>The two libraries on these documents.\<close>

lemma find_member_exact:
  "List.filter (same_member k) (map fst ms) = [k] \<Longrightarrow> map_of ms k = find_member ms k"
proof (induction ms)
  case (Cons m ms)
  then show ?case by (cases m) (auto split: if_splits)
qed simp

lemma exact_path:
  "exact_at wire_cjson q t \<Longrightarrow> \<exists>v. member_at wire_cjson q t = Some v \<and> json_path text_jsoncpp t q = Inr v"
proof (induction q arbitrary: t)
  case (Cons k q)
  then obtain ms where t: "t = SObj ms" by (auto simp: sample_members split: sample_json.splits)
  with Cons.prems obtain sub where sub: "find_member ms k = Some sub" "exact_at wire_cjson q sub"
    and "List.filter (same_member k) (map fst ms) = [k]"
    by (auto simp: sample_members split: option.splits)
  with find_member_exact have "map_of ms k = Some sub" by metis
  with Cons.IH[OF sub(2)] sub(1) show ?case by (auto simp: t sample_members)
qed simp

lemma exact_node:
  assumes "exact_at wire_cjson [k] t"
  shows "\<exists>ms. t = SObj ms \<and> map_of ms k \<noteq> None"
proof -
  obtain ms sub where ms: "t = SObj ms" "find_member ms k = Some sub" "List.filter (same_member k) (map fst ms) = [k]"
    using assms by (auto simp: sample_members split: sample_json.splits option.splits)
  with find_member_exact[OF ms(3)] show ?thesis by auto
qed

lemma wire_mirrors: "mirrors wire_cjson text_jsoncpp t t"
  unfolding mirrors_def
proof (intro conjI allI impI)
  fix q s assume "text_at wire_cjson t q s"
  with exact_path[of q t] show "json_string text_jsoncpp t q = Inr s" by (auto simp: text_at_def json_string_def)
next
  fix q n assume "number_at wire_cjson t q n"
  with exact_path[of q t] show "json_int text_jsoncpp t q = Inr n" "json_string text_jsoncpp t q = Inr (to_string n)"
    by (auto simp: number_at_def json_string_def json_int_def)
next
  fix q k assume "exact_at wire_cjson (q @ [k]) t"
  then obtain sub where "exact_at wire_cjson q t" "member_at wire_cjson q t = Some sub" "exact_at wire_cjson [k] sub"
    unfolding exact_at_append by blast
  with exact_path[of q t] exact_node[of k sub] obtain ms where "json_path text_jsoncpp t q = Inr (SObj ms)" "map_of ms k \<noteq> None"
    by auto
  then show "present text_jsoncpp t q" "rbind (json_path text_jsoncpp t q) (\<lambda>v. jv_isMember text_jsoncpp v k) = Inr True"
    by (simp_all add: present_def)
qed

lemma wire_agrees: "libraries_agree wire_cjson text_jsoncpp"
  unfolding libraries_agree_def
proof (intro allI impI)
  fix t msg assume "cj_print wire_cjson t = Some msg"
  then have t: "plain_json t" "msg = json_text t" by (simp_all split: if_splits)
  have "msg \<noteq> [] \<and> hd msg = CHR ''{''" if "cj_keys wire_cjson t \<noteq> []"
    using that t(2) by (cases t rule: json_text.cases) (auto simp: sample_members)
  with t text_no_nul(1)[OF t(1)] json_read_text[OF t(1)] wire_mirrors
  show "no_nul msg \<and> (cj_keys wire_cjson t \<noteq> [] \<longrightarrow> msg \<noteq> [] \<and> hd msg = CHR ''{'') \<and>
      (brackets msg < STACK_LIMIT \<longrightarrow> (\<exists>root. (\<forall>comments. jv_parse text_jsoncpp comments msg = Inr (Some root))
        \<and> mirrors wire_cjson text_jsoncpp t root))"
    by (auto simp: no_nul_def)
qed

text \<open>The request format, and fifty units of a product, typed at the prompts.\<close>

lemma wire_template: "\<forall>p \<in> request_paths. exact_at wire_cjson p sample_template"
  by (simp add: request_paths_def order_fields_def field_path_def sample_template_def sample_members request_keys)

abbreviation typed_fields :: "string \<Rightarrow> order" where
  "typed_fields m \<equiv> sample_order_fields ''hub'' 1 ''hub'' 2 ''request'' ''2'' m 50"

definition wire_env :: "sample_json env" where
  "wire_env = (sample_env SNull)\<lparr>env_json := text_jsoncpp\<rparr>"

definition typed_entries :: "string \<Rightarrow> string list" where
  "typed_entries m = [''hub'', ''1'', ''hub'', ''2'', ''request'', ''2'', m, ''50'', ''m'', ''p'', ''TCP'']"

definition typed_tree :: "string \<Rightarrow> sample_json" where
  "typed_tree m = SObj [(''general_info'', SObj
     [(''id'', SStr ''u''),
      (''source'', SObj [(''type'', SStr ''hub''), (''location'', SInt 1)]),
      (''destination'', SObj [(''type'', SStr ''hub''), (''location'', SInt 2)]),
      (''action'', SObj [(''type'', SStr ''request''),
         (''product'', SObj [(''id'', SStr ''2''), (''name'', SStr m), (''quantity'', SInt 50)])]),
      (''metadata'', SObj [(''date'', SStr ''d''), (''message'', SStr ''m''), (''priority'', SStr ''p''),
         (''protocol'', SStr ''TCP'')])])]"

definition typed_os :: order_os where
  "typed_os = \<lparr>oo_template = Some (json_text sample_template), oo_uuid = ''u'', oo_date = ''d'',
     oo_rounds = (\<lambda>_. \<lparr>at_send = 4096, at_select = 1, at_setsockopt = 0, at_recv = 5, at_timeout = False, at_data = ''hello''\<rparr>)\<rparr>"

lemma typed_entered: "entered_order (typed_entries m) = typed_fields m"
proof -
  have "atoi ''1'' = 1" "atoi ''2'' = 2" "atoi ''50'' = 50" by code_simp+
  then show ?thesis by (simp add: entered_order_def typed_entries_def sample_order_fields_def)
qed

lemma typed_lines:
  "entry_ok m \<Longrightarrow> list_all entry_ok (typed_entries m)" "length (typed_entries m) = length order_fields"
  "typed_entries m ! 10 = ''TCP''"
  by (simp_all add: typed_entries_def entry_ok_def plain_line_def order_fields_def)

lemma apart:
  "\<not> same_member ''id'' ''source''" "\<not> same_member ''id'' ''destination''"
  "\<not> same_member ''id'' ''action''" "\<not> same_member ''id'' ''metadata''"
  "\<not> same_member ''source'' ''id''" "\<not> same_member ''source'' ''destination''"
  "\<not> same_member ''source'' ''action''" "\<not> same_member ''source'' ''metadata''"
  "\<not> same_member ''destination'' ''id''" "\<not> same_member ''destination'' ''source''"
  "\<not> same_member ''destination'' ''action''" "\<not> same_member ''destination'' ''metadata''"
  "\<not> same_member ''action'' ''id''" "\<not> same_member ''action'' ''source''"
  "\<not> same_member ''action'' ''destination''" "\<not> same_member ''action'' ''metadata''"
  "\<not> same_member ''metadata'' ''id''" "\<not> same_member ''metadata'' ''source''"
  "\<not> same_member ''metadata'' ''destination''" "\<not> same_member ''metadata'' ''action''"
  "\<not> same_member ''type'' ''location''" "\<not> same_member ''location'' ''type''"
  "\<not> same_member ''type'' ''product''" "\<not> same_member ''product'' ''type''"
  "\<not> same_member ''id'' ''name''" "\<not> same_member ''id'' ''quantity''" "\<not> same_member ''name'' ''id''"
  "\<not> same_member ''name'' ''quantity''" "\<not> same_member ''quantity'' ''id''"
  "\<not> same_member ''quantity'' ''name''" "\<not> same_member ''date'' ''message''"
  "\<not> same_member ''date'' ''priority''" "\<not> same_member ''date'' ''protocol''"
  "\<not> same_member ''message'' ''date''" "\<not> same_member ''message'' ''priority''"
  "\<not> same_member ''message'' ''protocol''" "\<not> same_member ''priority'' ''date''"
  "\<not> same_member ''priority'' ''message''" "\<not> same_member ''priority'' ''protocol''"
  "\<not> same_member ''protocol'' ''date''" "\<not> same_member ''protocol'' ''message''"
  "\<not> same_member ''protocol'' ''priority''"
  by (simp_all add: request_keys)

lemma typed_update:
  assumes "entry_ok m"
  shows "update_json_with_user_input wire_cjson ''u'' ''d'' sample_template (input_lines (typed_entries m) @ [])
     = (typed_tree m, [])"
proof -
  have numbers: "atoi ''1'' = 1" "atoi ''2'' = 2" "atoi ''50'' = 50" by code_simp+
  have entries: "entry_ok ''hub''" "entry_ok ''1''" "entry_ok ''2''" "entry_ok ''request''" "entry_ok ''50''" "entry_ok ''m''"
    "entry_ok ''p''" "entry_ok ''TCP''"
    by (simp_all add: entry_ok_def plain_line_def)
  have none: "input_lines [] @ [] = []" by (simp add: input_lines_def)
  show ?thesis
    unfolding typed_entries_def typed_tree_def update_json_with_user_input_def order_fields_def sample_template_def Let_def
    by (simp add: get_non_empty_input_entry entries assms numbers field_value_def none sample_cjson_def apart
        del: append_Nil2 append_Nil get_non_empty_input.simps)
qed

lemma typed_tree_plain: "no_nul m \<Longrightarrow> plain_json (typed_tree m)"
  by (simp add: typed_tree_def no_nul_def in_int32_def)

lemma template_read: "read_json_from_file wire_cjson (oo_template typed_os) = Some sample_template"
proof -
  have "plain_json sample_template" by (simp add: sample_template_def in_int32_def)
  with json_read_text text_no_nul(1) show ?thesis
    by (simp add: read_json_from_file_def typed_os_def c_str_plain)
qed

lemma typed_sends:
  assumes "entry_ok m"
  shows "\<exists>ex. client_communicate_udp wire_cjson typed_os (input_lines (typed_entries m) @ []) = Some (ex, [])
     \<and> send_buffer (json_text (typed_tree m)) \<in> set (ex_sent ex)"
proof -
  have "no_nul m" using assms by (auto simp: no_nul_def entry_ok_def plain_line_def)
  with typed_tree_plain have print: "cj_print wire_cjson (typed_tree m) = Some (json_text (typed_tree m))" by simp
  have rounds: "ex_sent (udp_rounds (oo_rounds typed_os) x 0 []) = [x]" for x
    by (subst udp_rounds.simps) (simp add: typed_os_def Let_def)
  have os: "oo_uuid typed_os = ''u''" "oo_date typed_os = ''d''" by (simp_all add: typed_os_def)
  show ?thesis
    unfolding client_communicate_udp_def template_read option.case os typed_update[OF assms] Let_def prod.case print
    using rounds by (simp add: typed_os_def)
qed

text \<open>The text of the order, on the wire.\<close>

abbreviation typed_order :: "string \<Rightarrow> string" where
  "typed_order m \<equiv> json_text (typed_tree m)"

lemma typed_length: "length (typed_order ''Water'') < 2048" "length (typed_order ''Fuel'') < 2048"
  "brackets (typed_order ''Water'') < STACK_LIMIT" "brackets (typed_order ''Fuel'') < STACK_LIMIT"
  by code_simp+

lemma typed_text:
  assumes "entry_ok m" and "length (typed_order m) < 2048"
  shows "c_str (send_buffer (typed_order m)) = typed_order m"
proof -
  have "no_nul m" using assms(1) by (auto simp: no_nul_def entry_ok_def plain_line_def)
  from text_no_nul(1)[OF typed_tree_plain[OF this]] assms(2) show ?thesis
    by (simp add: c_str_send_buffer send_text_def c_str_plain BUFFER_SIZE_CLIENT_def)
qed

lemma typed_entry_ok: "entry_ok ''Water''" "entry_ok ''Fuel''"
  by (simp_all add: entry_ok_def plain_line_def)

lemma wire_server:
  "quiet wire_env" "env_json wire_env = text_jsoncpp" "env_mysql wire_env = sample_mysql"
  "state_ok wire_env Next (sample_server 1000)" "no_nul (oo_uuid typed_os)" "no_nul (oo_date typed_os)"
  by (simp_all add: wire_env_def quiet_def sample_env_def state_ok_def sample_registry_ok db_ok_seed store_ok_empty
      typed_os_def no_nul_def)

lemma typed_fits:
  "total_ordered J p (storedOrders (orders (sample_server 1000))) + atoi (typed_entries m ! 7) \<le> INT_MAX"
  using typed_entered[of m] by (simp add: entered_order_def sample_order_fields_def)

theorem typed_order_moves_stock_witness:
  "\<exists>s' S'. udp_pass wire_env 0 (Datagram (send_buffer (typed_order ''Water'')) (sample_addr 7000))
       (new_session, sample_server 1000) = (Next, s', S')
     \<and> stock_at sample_mysql (inventory S') Hub 2 ''Water'' = Some 1050"
proof -
  have moved: "moved_stock sample_mysql (hub_fields 50) (seed_db 1000) Hub 2 ''Water'' = Some 1050" by code_simp
  note water = typed_entry_ok(1)
  obtain ex where sends: "client_communicate_udp wire_cjson typed_os (input_lines (typed_entries ''Water'') @ []) = Some (ex, [])"
    "send_buffer (typed_order ''Water'') \<in> set (ex_sent ex)"
    using typed_sends[OF water] by blast
  have short: "length (c_str (send_buffer (typed_order ''Water''))) < 2048"
    "brackets (c_str (send_buffer (typed_order ''Water''))) < STACK_LIMIT"
    unfolding typed_text[OF water typed_length(1)] by (rule typed_length)+
  have ready: "order_ready (env_mysql wire_env) (inventory (sample_server 1000)) (entered_order (typed_entries ''Water'')) Hub 1000"
    "libraries_agree wire_cjson (env_json wire_env)" "db_reliable (env_mysql wire_env) (inventory (sample_server 1000))"
    using hub_order_ready wire_agrees by (simp_all add: typed_entered wire_server db_reliable_sample)
  from typed_order_moves_stock[OF wire_ok template_read wire_template wire_server(5,6) typed_lines(2) typed_lines(1)[OF water]
      sends short ready(2) wire_server(1,4) ready(3) ready(1) typed_fits, of 0 "sample_addr 7000" new_session] moved
  show ?thesis by (auto simp: wire_server typed_entered)
qed

end
