(* ===== verification/Server_Survival.thy ===== *)
theory Server_Survival
  imports Program_Accounts
begin

text \<open>
  What the server survives.  Orderly input are the two commands, texts that are no JSON document, and
  orders in the request format for a product of the table with a numeric product id.  A program that
  works on such a message is calm: it contains no exception, whatever the answers to its calls.  So
  orderly messages alone never end the server, up to the overflow of a counter.
\<close>

section \<open>Calm programs\<close>

text \<open>
  \<open>calm G p Q\<close>: whatever the answers to its actions, the program never raises, does only actions in
  \<open>G\<close>, and ends with a value in \<open>Q\<close>.
\<close>

primrec calm :: "(action \<Rightarrow> bool) \<Rightarrow> 'a program \<Rightarrow> ('a \<Rightarrow> bool) \<Rightarrow> bool" where
  "calm G (Return v) Q \<longleftrightarrow> Q v"
| "calm G (Raise e) Q \<longleftrightarrow> False"
| "calm G (Act a k) Q \<longleftrightarrow> G a \<and> (\<forall>n. possible a n \<longrightarrow> calm G (k n) Q)"

lemma calm_mono: "\<lbrakk>calm G p Q; \<And>v. Q v \<Longrightarrow> Q' v\<rbrakk> \<Longrightarrow> calm G p Q'"
  by (induction p) auto

lemma calm_bind: "calm G (bind_program p f) Q \<longleftrightarrow> calm G p (\<lambda>v. calm G (f v) Q)"
  by (induction p) auto

lemma calm_bindI: "\<lbrakk>calm G p R; \<And>v. R v \<Longrightarrow> calm G (f v) Q\<rbrakk> \<Longrightarrow> calm G (bind_program p f) Q"
  unfolding calm_bind by (rule calm_mono)

named_theorems calm_intros \<open>how calm passes through a program\<close>

lemma calm_Return [calm_intros]: "Q v \<Longrightarrow> calm G (Return v) Q"
  by simp

lemma calm_if [calm_intros]:
  "\<lbrakk>c \<Longrightarrow> calm G p Q; \<not> c \<Longrightarrow> calm G p' Q\<rbrakk> \<Longrightarrow> calm G (if c then p else p') Q"
  by simp

text \<open>A result that is known not to be an exception.\<close>

lemma calm_attempt: "\<lbrakk>\<exists>x. r = Inr x; \<And>x. r = Inr x \<Longrightarrow> calm G (f x) Q\<rbrakk> \<Longrightarrow> calm G (attempt r f) Q"
  by auto

lemma calm_Act [calm_intros]: "\<lbrakk>G a; \<And>n. possible a n \<Longrightarrow> calm G (k n) Q\<rbrakk> \<Longrightarrow> calm G (Act a k) Q"
  by simp

lemma calm_Cons:
  assumes "calm G (h s) R" and "\<And>s'. R (Next, s') \<Longrightarrow> calm G (run_steps hs s') Q"
    and "\<And>f s'. \<lbrakk>R (f, s'); f \<noteq> Next\<rbrakk> \<Longrightarrow> Q (f, s')"
  shows "calm G (run_steps (h # hs) s) Q"
  unfolding run_steps.simps by (rule calm_bindI[OF assms(1)]) (use assms(2,3) in auto)

section \<open>Orderly messages\<close>

text \<open>An order in the request format that the server can process, and what an orderly client sends.\<close>

definition proper_order :: "'j jsoncpp \<Rightarrow> string \<Rightarrow> bool" where
  "proper_order J buffer \<longleftrightarrow> (\<exists>root r p n. order_message J buffer root r p
     \<and> known_product (o_product_name r) \<and> stoi (o_product_id r) = Inr n)"

definition orderly :: "'j jsoncpp \<Rightarrow> string \<Rightarrow> bool" where
  "orderly J buffer \<longleftrightarrow> buffer = ''LIST_CLIENTS'' \<or> buffer = ''SHOW_REPORT''
     \<or> jv_parse J True buffer = Inr None \<and> jv_parse J False buffer = Inr None
     \<or> proper_order J buffer"

text \<open>The actions of a thread that works on an orderly message.\<close>

fun tame :: "'j jsoncpp \<Rightarrow> action \<Rightarrow> bool" where
  "tame J (Store_order buffer) \<longleftrightarrow> orderly J buffer \<and> buffer \<noteq> [] \<and> hd buffer = CHR ''{''"
| "tame J (Process_message buffer proto cid) \<longleftrightarrow> orderly J buffer"
| "tame J _ \<longleftrightarrow> True"

lemma tame_database: "tame J (Read_stock s l p)" "tame J (Change_stock s l p q)" "tame J (Transmit ev)"
  by simp_all

text \<open>Of the tame actions only the storing of an order can throw, when a total overflows.\<close>

lemma orderly_line:
  assumes "orderly J buffer" and "buffer \<noteq> []" "hd buffer = CHR ''{''"
  obtains x where "order_line J buffer = Inr x"
proof -
  consider "jv_parse J False buffer = Inr None" | "proper_order J buffer"
    using assms by (auto simp: orderly_def)
  then show ?thesis
  proof cases
    case 1
    then show ?thesis by (intro that[of None]) (simp add: order_line_def)
  next
    case 2
    then obtain root r p where m: "order_message J buffer root r p" by (auto simp: proper_order_def)
    from order_messageD(2)[OF m] order_readsD(8,9)[OF order_messageD(5)[OF m]] show ?thesis
      by (intro that) (simp add: order_line_def)
  qed
qed

lemma orderly_processed:
  assumes "orderly (env_json E) buffer"
  obtains S' where "processMessage E buffer proto cid S = Inr S'"
proof -
  consider "buffer = ''LIST_CLIENTS''" | "buffer = ''SHOW_REPORT''"
    | "jv_parse (env_json E) True buffer = Inr None" | "proper_order (env_json E) buffer"
    using assms by (auto simp: orderly_def)
  then show ?thesis
  proof cases
    case 3
    then have "\<exists>S'. processMessage E buffer proto cid S = Inr S'" by (simp add: processMessage_def Let_def)
    with that show ?thesis by blast
  next
    case 4
    then show ?thesis using that by (auto simp: proper_order_def dest!: processMessage_order)
  qed (use that in \<open>auto simp: processMessage_def\<close>)
qed

lemma tame_perform:
  assumes "tame (env_json E) a" and "store_ok (env_json E) (orders S)" and "perform E a S = (Inl e, S')"
  shows "e = Signed_overflow \<and> tables S' = tables S
    \<and> (\<exists>p. INT_MAX < total_ordered (env_json E) p (storedOrders (orders S')))"
proof (cases a)
  case (Store_order buffer)
  let ?J = "env_json E"
  obtain x where line: "order_line ?J buffer = Inr x"
    using assms(1) Store_order by (auto elim: orderly_line)
  obtain st where st: "storeOrder ?J buffer (orders S) = (Inl e, st)" "S' = S\<lparr>orders := st\<rparr>"
    using assms(3) Store_order by (auto split: prod.splits sum.splits)
  then obtain p q where x: "x = Some (p, q)"
    using line by (cases x) (auto simp: storeOrder_line Let_def)
  with storeOrder_total_fits[OF assms(2), of buffer p q] line st(1)
  have e: "e = Signed_overflow" and over: "INT_MAX < total_ordered ?J p (storedOrders (orders S)) + q"
    and stored: "storedOrders st = storedOrders (orders S) @ [buffer]"
    by (auto split: if_splits)
  have "total_ordered ?J p (storedOrders st) = total_ordered ?J p (storedOrders (orders S)) + q"
    using line x by (simp add: stored total_ordered_append, simp add: total_ordered_def contribution_def)
  with over have "INT_MAX < total_ordered ?J p (storedOrders (orders S'))" by (simp add: st(2))
  then show ?thesis using e st(2) by auto
next
  case (Process_message buffer proto cid)
  then obtain S1 where "processMessage E buffer proto cid S = Inr S1"
    using assms(1) orderly_processed[of E buffer proto cid S] by auto
  with assms(3) Process_message show ?thesis by simp
qed (use assms(3) in \<open>auto simp: on_inventory_def split: prod.splits\<close>)

section \<open>The handling of an orderly message is calm\<close>

text \<open>A rejection and an alert are texts, not exceptions.\<close>

lemma calm_reject [calm_intros]:
  "\<lbrakk>jsoncpp_ok J; \<And>t. calm G (f (False, t)) Q\<rbrakk> \<Longrightarrow> calm G (attempt (reject J code m d) f) Q"
  using reject_text[of J code m d] by auto

lemma calm_alert [calm_intros]:
  "\<lbrakk>jsoncpp_ok J; \<And>t. calm G (f t) Q\<rbrakk> \<Longrightarrow> calm G (attempt (generateAlert J name m i p) f) Q"
  using generateAlert_text[of J name m i p] by auto

lemma calm_available:
  assumes "jsoncpp_ok J" and "\<And>v. calm G (f v) Q"
  shows "calm G (attempt (check_available J q n e) f) Q"
proof -
  obtain v where "check_available J q n e = Inr v"
  proof (cases "n < 0 \<or> n < q")
    case True
    then obtain m d where "check_available J q n e = reject J ERROR_INSUFFICIENT_STOCK m d"
      by (cases "n < 0") (simp_all add: check_available_def)
    with reject_text[OF assms(1), of ERROR_INSUFFICIENT_STOCK m d] that show ?thesis by auto
  qed (use that in \<open>simp add: check_available_def\<close>)
  with assms(2) show ?thesis by simp
qed

text \<open>The four functions on the database, on an order whose fields can be read.\<close>

lemma calm_check:
  assumes J: "jsoncpp_ok J" and r: "order_reads J root r"
  shows "calm (tame J) (checkProductStock_steps J root e) (\<lambda>v. fst v \<longrightarrow> 0 < o_quantity r)"
proof -
  obtain g s a p where n: "jv_index J root ''general_info'' = Inr g" "\<not> jv_isNull J g"
    "jv_index J g ''source'' = Inr s" "jv_index J g ''action'' = Inr a" "\<not> jv_isNull J a"
    "jv_index J a ''product'' = Inr p" "jv_isMember J a ''product'' = Inr True"
    by (rule order_reads_nodes[OF r]) (rule that)
  have "json_string J s [''type''] = Inr (o_source_type r)"
    "json_string J s [''location''] = Inr (to_string (o_source_location r))"
    "json_string J p [''name''] = Inr (o_product_name r)"
    "json_int J p [''quantity''] = Inr (o_quantity r)"
    using order_readsD[OF r] n by (simp_all add: json_string_def json_int_def)
  with n J show ?thesis
    by (auto simp: checkProductStock_steps_def stoi_to_string order_readsD(10)[OF r] simp del: calm.simps(1,3)
        intro!: calm_intros calm_available tame_database)
qed

lemma calm_transfer:
  assumes r: "order_reads J root r" and q: "0 < o_quantity r"
  shows "calm (tame J) (realTimeUpdate_steps J root) (\<lambda>_. True)"
  using q in_int32_neg[OF q order_readsD(12)[OF r]]
  by (auto simp: realTimeUpdate_steps_def order_readsD[OF r] int32_neg_def)

lemma calm_low_stock_alert:
  assumes "jsoncpp_ok J" and r: "order_reads J root r" and "stoi (o_product_id r) = Inr i"
  shows "calm (tame J) (checkLowStockAlert_steps J root e) (\<lambda>_. True)"
proof -
  obtain g s where n: "jv_index J root ''general_info'' = Inr g" "jv_index J g ''source'' = Inr s"
    by (rule order_reads_nodes[OF r]) (rule that)
  have "json_string J s [''type''] = Inr (o_source_type r)"
    "json_string J s [''location''] = Inr (to_string (o_source_location r))"
    using order_readsD[OF r] n by (simp_all add: json_string_def)
  with n assms show ?thesis
    by (auto simp: checkLowStockAlert_steps_def stoi_to_string order_readsD[OF r] simp del: calm.simps(1,3)
        intro!: calm_intros tame_database)
qed

lemma calm_refill:
  assumes "jsoncpp_ok J" and r: "order_reads J root r" and "stoi (o_product_id r) = Inr i"
  shows "calm (tame J) (reStock_steps J root e) (\<lambda>_. True)"
proof -
  obtain g s where n: "jv_index J root ''general_info'' = Inr g" "jv_index J g ''source'' = Inr s"
    by (rule order_reads_nodes[OF r]) (rule that)
  have "json_string J s [''type''] = Inr (o_source_type r)"
    "json_string J s [''location''] = Inr (to_string (o_source_location r))"
    using order_readsD[OF r] n by (simp_all add: json_string_def)
  moreover have "int32_sub MAX_CAPACITY l = Inr (MAX_CAPACITY - l)" if "- 1 \<le> l" "l \<le> INT_MAX" for l
    using that by (simp add: int32_sub_def in_int32_def MAX_CAPACITY_def)
  ultimately show ?thesis using n assms
    by (auto simp: reStock_steps_def stoi_to_string order_readsD[OF r] simp del: calm.simps(1,3)
        intro!: calm_intros tame_database)
qed

text \<open>The stages.  A reply sends one message, and does nothing that could throw.\<close>

definition calm_replies :: "replier \<Rightarrow> bool" where
  "calm_replies reply \<longleftrightarrow> (\<forall>G m. (\<forall>ev. G (Transmit ev)) \<longrightarrow> calm G (reply m) (\<lambda>_. True))"

lemma calm_udp: "calm_replies (udp_reply_steps a)"
  by (simp add: calm_replies_def udp_reply_steps_def)

lemma calm_tcp: "calm_replies (tcp_reply_steps fd)"
  by (simp add: calm_replies_def tcp_reply_steps_def)

lemma calm_reply [calm_intros]:
  "\<lbrakk>calm_replies reply; \<And>f. Q (f, s)\<rbrakk> \<Longrightarrow> calm (tame J) (reply_steps reply m s) Q"
  unfolding reply_steps_def by (rule calm_bindI[where R = "\<lambda>_. True"]) (simp_all add: calm_replies_def)

lemma proper_validated:
  assumes "jsoncpp_ok J" and r: "order_reads J root r" and "known_product (o_product_name r)"
  obtains v where "validateOrderLimits J root e = Inr v"
proof (cases "order_allowed r")
  case True
  from validate_accepts[OF r assms(3), of e] True that show ?thesis by auto
next
  case False
  from validate_rejects[OF r assms(3) False, of e] reject_text[OF assms(1)] that show ?thesis by metis
qed

lemma calm_order:
  assumes reply: "calm_replies reply" and J: "jsoncpp_ok J" and r: "order_reads J root r"
    and known: "known_product (o_product_name r)" and i: "stoi (o_product_id r) = Inr i"
  shows "calm (tame J) (run_steps (order_steps J reply root) s) (\<lambda>_. True)"
proof -
  let ?q = "\<lambda>v. productStock (snd v) \<longrightarrow> 0 < o_quantity r"
  have validate: "calm (tame J) (validate_steps J reply root s) (\<lambda>_. True)" for s
  proof -
    obtain v where "validateOrderLimits J root (errorMessage s) = Inr v" using proper_validated[OF J r known] .
    then show ?thesis
      using reply by (auto simp: validate_steps_def Let_def intro!: calm_intros split: prod.split simp del: calm.simps)
  qed
  have stock: "calm (tame J) (stock_steps J reply root s) ?q" for s
    unfolding stock_steps_def
    by (rule calm_bindI[OF calm_check[OF J r]]) (use reply in \<open>auto simp: Let_def intro!: calm_intros simp del: calm.simps\<close>)
  have transfer: "calm (tame J) (transfer_steps J reply root s) (\<lambda>_. True)" if "?q (f, s)" for f :: flow and s
    unfolding transfer_steps_def
    by (intro calm_intros calm_bindI[OF calm_transfer[OF r]]) (use that reply in \<open>auto intro!: calm_intros simp del: calm.simps\<close>)
  have low: "calm (tame J) (low_stock_steps J reply root s) (\<lambda>_. True)" for s
    unfolding low_stock_steps_def
    by (rule calm_bindI[OF calm_low_stock_alert[OF J r i]]) (use reply in \<open>auto simp: Let_def intro!: calm_intros simp del: calm.simps\<close>)
  have restock: "calm (tame J) (restock_steps J reply root s) (\<lambda>_. True)" for s
    unfolding restock_steps_def
    by (rule calm_bindI[OF calm_refill[OF J r i]]) (use reply in \<open>auto simp: Let_def intro!: calm_intros simp del: calm.simps\<close>)
  show ?thesis
    unfolding order_steps_def
    by (intro calm_Cons[OF validate] calm_Cons[OF stock] calm_Cons[OF transfer] calm_Cons[OF low] calm_Cons[OF restock])
      simp_all
qed

lemma calm_message:
  assumes reply: "calm_replies reply" and J: "jsoncpp_ok J" and msg: "orderly J buffer"
  shows "calm (tame J) (run_steps (message_steps J reply response proto buffer) s) (\<lambda>_. True)"
proof -
  have ack: "calm (tame J) (reply_steps reply response s) (\<lambda>_. True)" for s
    using reply by (intro calm_intros) simp_all
  have process: "calm (tame J) (process_steps buffer proto s) (\<lambda>_. True)" for s
    using msg by (simp add: process_steps_def)
  have parse: "calm (tame J) (parse_steps J reply buffer s) (\<lambda>_. True)" if start: "buffer \<noteq> []" "hd buffer = CHR ''{''" for s
  proof -
    consider "jv_parse J True buffer = Inr None" | "proper_order J buffer"
      using msg start by (auto simp: orderly_def)
    then show ?thesis
    proof cases
      case 2
      then obtain root r p n where m: "order_message J buffer root r p"
        and "known_product (o_product_name r)" "stoi (o_product_id r) = Inr n"
        by (auto simp: proper_order_def)
      with calm_order[OF reply J order_messageD(5)[OF m]] order_messageD(1)[OF m] show ?thesis
        by (simp add: parse_steps_def)
    qed (simp add: parse_steps_def)
  qed
  show ?thesis
  proof (cases "buffer \<noteq> [] \<and> hd buffer = CHR ''{''")
    case True
    then have store: "calm (tame J) (store_steps buffer s) (\<lambda>_. True)" for s
      using msg by (simp add: store_steps_def)
    show ?thesis
      unfolding message_steps_def if_P[OF True] append.simps
      by (intro calm_Cons[OF ack] calm_Cons[OF store] calm_Cons[OF parse] calm_Cons[OF process]) (use True in simp_all)
  next
    case False
    show ?thesis
      unfolding message_steps_def if_not_P[OF False] append.simps
      by (intro calm_Cons[OF ack] calm_Cons[OF process]) simp_all
  qed
qed

section \<open>Polite steps\<close>

text \<open>
  The steps of a server whose clients send orderly messages, each of which arrives in one datagram or
  one read, or the announcement of a process id that is not registered.  Everything else is as in
  \<open>step\<close>: the order of the steps, failed calls of the network and of the database, connections that
  end while the server writes to them, data races.  \<open>db_port\<close> is the port in the environment.
\<close>

definition welcome_udp :: "'j jsoncpp \<Rightarrow> registry \<Rightarrow> udp_input \<Rightarrow> bool" where
  "welcome_udp J R input = (case input of
     Recvfrom_error \<Rightarrow> True
   | Datagram bytes cli_addr \<Rightarrow> let buffer = recv_buffer BUFFER_SIZE_SERVER bytes in
       map_of (clientMapUdp R) (atoi buffer) = None \<and> atoi buffer \<noteq> 0 \<or> orderly J buffer)"

definition welcome_tcp :: "'j jsoncpp \<Rightarrow> tcp_thread \<Rightarrow> tcp_input \<Rightarrow> bool" where
  "welcome_tcp J t input \<longleftrightarrow> t_pid t = None \<or> bytes_read input = []
     \<or> orderly J (recv_buffer BUFFER_SIZE_SERVER (bytes_read input))"

inductive polite :: "string option \<Rightarrow> 'j env \<Rightarrow> system \<Rightarrow> system \<Rightarrow> bool" for db_port E where
  polite_time: "\<lbrakk>crashed c = None; clock c \<le> now\<rbrakk> \<Longrightarrow> polite db_port E c (c\<lparr>clock := now\<rparr>)"
| polite_datagram: "\<lbrakk>crashed c = None; udp c = Waiting s; welcome_udp (env_json E) (tables (server c)) input\<rbrakk>
    \<Longrightarrow> polite db_port E c (udp_goes (udp_receive E (clock c) input s (server c)) c)"
| polite_udp_act: "\<lbrakk>crashed c = None; udp c = Working p\<rbrakk>
    \<Longrightarrow> polite db_port E c (udp_goes (advance E p (server c)) c)"
| polite_accept: "\<lbrakk>crashed c = None; tcp c fd = None\<rbrakk>
    \<Longrightarrow> polite db_port E c (accept_step db_port accepts fd cli_addr c)"
| polite_stream: "\<lbrakk>crashed c = None; tcp c fd = Some t; t_activity t = Waiting s; welcome_tcp (env_json E) t input\<rbrakk>
    \<Longrightarrow> polite db_port E c (tcp_goes fd (tcp_receive E (clock c) fd input t s (server c)) (departs t input c))"
| polite_erases: "\<lbrakk>crashed c = None; pid \<in> set (leaving c)\<rbrakk> \<Longrightarrow> polite db_port E c (erase_step pid c)"
| polite_tcp_act: "\<lbrakk>crashed c = None; tcp c fd = Some t; t_activity t = Working p\<rbrakk>
    \<Longrightarrow> polite db_port E c (tcp_goes fd (tcp_advance E t p (server c)) c)"
| polite_cleanup: "\<lbrakk>crashed c = None; last_cleanup c + CHRONO_TIMEOUT_SECONDS * NANOS_PER_SECOND \<le> clock c\<rbrakk>
    \<Longrightarrow> polite db_port E c (cleanup_step c)"
| polite_udp_sigpipe: "\<lbrakk>crashed c = None; udp c = Working p; writes_tcp E p (server c)\<rbrakk>
    \<Longrightarrow> polite db_port E c (c\<lparr>crashed := Some Sigpipe\<rparr>)"
| polite_tcp_sigpipe: "\<lbrakk>crashed c = None; tcp c fd = Some t; t_activity t = Working p; writes_tcp E p (server c)\<rbrakk>
    \<Longrightarrow> polite db_port E c (c\<lparr>crashed := Some Sigpipe\<rparr>)"
| polite_race: "\<lbrakk>crashed c = None; racing c x y\<rbrakk> \<Longrightarrow> polite db_port E c (c\<lparr>crashed := Some Data_race\<rparr>)"

lemma polite_is_step: "polite db_port E c c' \<Longrightarrow> step E c c'"
  by (induction rule: polite.induct) (auto intro: step.intros)

text \<open>A step that is not polite receives a message that is not orderly; nothing else is left out.\<close>

lemma step_is_polite:
  assumes "step E c c'"
  shows "(\<exists>db_port. polite db_port E c c')
    \<or> (\<exists>s input. udp c = Waiting s \<and> \<not> welcome_udp (env_json E) (tables (server c)) input)
    \<or> (\<exists>fd t input. tcp c fd = Some t \<and> \<not> welcome_tcp (env_json E) t input)"
  using assms by cases (blast intro: polite.intros)+

text \<open>
  What uses the server up: a total of the report, or a counter of client numbers, has no successor in
  an \<open>int\<close>.
\<close>

definition used_up :: "'j env \<Rightarrow> server_state \<Rightarrow> bool" where
  "used_up E S \<longleftrightarrow> (\<exists>p. INT_MAX < total_ordered (env_json E) p (storedOrders (orders S)))
     \<or> next_id ''UDP'' (tables S) = INT_MAX \<or> next_id ''TCP'' (tables S) = INT_MAX"

definition serene_thread :: "'j env \<Rightarrow> activity \<Rightarrow> bool" where
  "serene_thread E a \<longleftrightarrow> (case a of Waiting _ \<Rightarrow> True | Working p \<Rightarrow> calm (tame (env_json E)) p (\<lambda>_. True))"

text \<open>What ends a polite run: a message never throws, so that it is not an exception of a message.\<close>

definition writing_tcp :: "'j env \<Rightarrow> system \<Rightarrow> bool" where
  "writing_tcp E c \<longleftrightarrow> (\<exists>p. writes_tcp E p (server c) \<and>
     (udp c = Working p \<or> (\<exists>fd t. tcp c fd = Some t \<and> t_activity t = Working p)))"

definition serene :: "'j env \<Rightarrow> system \<Rightarrow> bool" where
  "serene E c \<longleftrightarrow> serene_thread E (udp c) \<and> (\<forall>fd t. tcp c fd = Some t \<longrightarrow> serene_thread E (t_activity t))"

definition ended_by :: "string option \<Rightarrow> 'j env \<Rightarrow> system \<Rightarrow> system \<Rightarrow> cpp_exn \<Rightarrow> bool" where
  "ended_by db_port E c c' e \<longleftrightarrow>
     e = Sigpipe \<and> writing_tcp E c
     \<or> e = Data_race \<and> (\<exists>x y. racing c x y)
     \<or> (\<exists>accepts fd cli_addr. tcp c fd = None \<and> connectToDb db_port accepts = Inl e
          \<and> c' = accept_step db_port accepts fd cli_addr c)
     \<or> e = Signed_overflow \<and> used_up E (server c')"

lemma serene_thread_simps [simp]:
  "serene_thread E (Waiting s)" "serene_thread E (Working p) \<longleftrightarrow> calm (tame (env_json E)) p (\<lambda>_. True)"
  by (simp_all add: serene_thread_def)

text \<open>A good outcome of an action or a read of a thread.\<close>

definition serene_outcome :: "'j env \<Rightarrow> activity result \<times> server_state \<Rightarrow> bool" where
  "serene_outcome E x \<longleftrightarrow> (case x of
     (Inl e, S) \<Rightarrow> e = Signed_overflow \<and> used_up E S
   | (Inr a, S) \<Rightarrow> serene_thread E a)"

lemma advance_serene:
  assumes "state_ok E Next S" and "calm (tame (env_json E)) p (\<lambda>_. True)"
  shows "serene_outcome E (advance E p S)"
proof (cases p)
  case (Return v)
  then show ?thesis by (cases v) (simp add: serene_outcome_def)
next
  case (Act a k)
  have db: "db_ok (env_mysql E) (inventory S)" and st: "store_ok (env_json E) (orders S)"
    using assms(1) by (simp_all add: state_ok_def)
  have a: "tame (env_json E) a" and k: "\<And>n. possible a n \<Longrightarrow> calm (tame (env_json E)) (k n) (\<lambda>_. True)"
    using assms(2) Act by simp_all
  obtain r S' where run: "perform E a S = (r, S')" by fastforce
  show ?thesis
  proof (cases r)
    case (Inl e)
    with tame_perform[OF a st] run Act show ?thesis by (auto simp: serene_outcome_def used_up_def)
  next
    case (Inr n)
    with perform_possible[OF db] k run Act show ?thesis by (simp add: serene_outcome_def)
  qed
qed (use assms(2) in simp)

lemma registerClient_throws:
  assumes "registry_ok R" and "known_protocol proto" and "registerClient pid proto a fd now R = Inl e"
  shows "e = Signed_overflow \<and> next_id proto R = INT_MAX"
proof -
  have "1 \<le> next_id proto R" "next_id proto R \<le> INT_MAX"
    using assms(1) by (auto simp: registry_ok_def next_id_def in_int32_def dest: table_okD(2,3))
  with assms(2,3) show ?thesis
    by (auto simp: registerClient_def known_protocol_def next_id_def int32_add_def int32_check_def in_int32_def rbind_def Let_def
        split: if_splits sum.splits)
qed

lemma udp_receive_serene:
  assumes J: "jsoncpp_ok (env_json E)" and ok: "state_ok E Next S" and "welcome_udp (env_json E) (tables S) input"
  shows "serene_outcome E (udp_receive E now input s S)"
proof (cases input)
  case Recvfrom_error
  then show ?thesis by (simp add: udp_receive_unfold serene_outcome_def)
next
  case (Datagram bytes a)
  let ?b = "recv_buffer BUFFER_SIZE_SERVER bytes"
  show ?thesis
  proof (cases "map_of (clientMapUdp (tables S)) (atoi ?b) = None \<and> atoi ?b \<noteq> 0")
    case True
    have "registry_ok (tables S)" using ok by (simp add: state_ok_def)
    from registerClient_throws[OF this, of "''UDP''" "atoi ?b" a 0 now] True Datagram show ?thesis
      by (auto simp: udp_receive_unfold serene_outcome_def used_up_def known_protocol_def Let_def split: sum.split)
  next
    case False
    with assms(3) Datagram have "orderly (env_json E) ?b" by (auto simp: welcome_udp_def Let_def)
    from calm_message[OF calm_udp J this] False Datagram show ?thesis
      by (auto simp: udp_receive_unfold serene_outcome_def Let_def)
  qed
qed

text \<open>The same of a TCP thread, whose activity is that of the thread that remains, if any.\<close>

definition serene_tcp :: "'j env \<Rightarrow> tcp_thread option result \<times> server_state \<Rightarrow> bool" where
  "serene_tcp E x \<longleftrightarrow> (case x of
     (Inl e, S) \<Rightarrow> e = Signed_overflow \<and> used_up E S
   | (Inr t, S) \<Rightarrow> (case t of None \<Rightarrow> True | Some t \<Rightarrow> serene_thread E (t_activity t)))"

lemma tcp_receive_serene:
  assumes J: "jsoncpp_ok (env_json E)" and ok: "state_ok E Next S" and "welcome_tcp (env_json E) t input"
  shows "serene_tcp E (tcp_receive E now fd input t s S)"
proof (cases "t_pid t")
  case None
  have reg: "registry_ok (tables S)" using ok by (simp add: state_ok_def)
  obtain f pid s' S' where run: "tcp_first E now fd (t_addr t) input (s, S) = (f, pid, s', S')" by (rule prod_cases4)
  have "e = Signed_overflow \<and> used_up E S'" if "f = Throw e" for e
    using run that registerClient_throws[OF reg, of "''TCP''" "atoi (recv_buffer BUFFER_SIZE_SERVER (bytes_read input))" "t_addr t" fd now]
    by (auto simp: tcp_first_def used_up_def known_protocol_def Let_def split: if_splits sum.splits prod.splits)
  then show ?thesis by (cases f) (simp_all add: tcp_receive_unfold serene_tcp_def None run)
next
  case (Some p)
  show ?thesis
  proof (cases "bytes_read input = []")
    case False
    with assms(3) Some have "orderly (env_json E) (recv_buffer BUFFER_SIZE_SERVER (bytes_read input))"
      by (simp add: welcome_tcp_def)
    from calm_message[OF calm_tcp J this] False Some show ?thesis
      by (simp add: tcp_receive_unfold serene_tcp_def)
  qed (simp add: tcp_receive_unfold serene_tcp_def Some Let_def)
qed

lemma tcp_advance_serene:
  assumes "state_ok E Next S" and "calm (tame (env_json E)) p (\<lambda>_. True)"
  shows "serene_tcp E (tcp_advance E t p S)"
  using advance_serene[OF assms]
  by (auto simp: serene_tcp_def serene_outcome_def tcp_advance_def split: prod.splits sum.splits)

lemma serene_departs [simp]: "serene E (departs t input c) \<longleftrightarrow> serene E c"
  by (simp add: serene_def)

lemma serene_udp_goes:
  "\<lbrakk>serene E c; crashed c = None; serene_outcome E x\<rbrakk> \<Longrightarrow>
   serene E (udp_goes x c) \<and> (\<forall>e. crashed (udp_goes x c) = Some e \<longrightarrow> ended_by db_port E c (udp_goes x c) e)"
  by (auto simp: serene_def serene_outcome_def udp_goes_def ended_by_def split: prod.splits sum.splits)

lemma serene_tcp_goes:
  "\<lbrakk>serene E c; crashed c = None; serene_tcp E x\<rbrakk> \<Longrightarrow>
   serene E (tcp_goes fd x c) \<and> (\<forall>e. crashed (tcp_goes fd x c) = Some e \<longrightarrow> ended_by db_port E c0 (tcp_goes fd x c) e)"
  by (auto simp: serene_def serene_tcp_def tcp_goes_def ended_by_def split: prod.splits sum.splits option.splits)

lemma polite_serene:
  assumes J: "jsoncpp_ok (env_json E)" and "polite db_port E c c'" and ok: "system_ok E c" and calm: "serene E c"
  shows "serene E c' \<and> (\<forall>e. crashed c' = Some e \<longrightarrow> ended_by db_port E c c' e)"
  using assms(2)
proof cases
  case (polite_datagram s input)
  then show ?thesis using calm udp_receive_serene[OF J system_okD[OF ok]] by (simp add: serene_udp_goes)
next
  case (polite_udp_act p)
  then have "calm (tame (env_json E)) p (\<lambda>_. True)" using calm by (simp add: serene_def)
  with polite_udp_act calm advance_serene[OF system_okD[OF ok]] show ?thesis by (simp add: serene_udp_goes)
next
  case (polite_accept fd accepts cli_addr)
  show ?thesis
  proof (cases "connectToDb db_port accepts")
    case (Inl e)
    then have "crashed c' = Some e" "serene E c'" using polite_accept calm by (simp_all add: serene_def accept_step_def)
    moreover have "ended_by db_port E c c' e" unfolding ended_by_def using polite_accept(1,3) Inl by blast
    ultimately show ?thesis by simp
  next
    case (Inr u)
    with polite_accept calm show ?thesis by (auto simp: serene_def accept_step_def)
  qed
next
  case (polite_stream fd t s input)
  then show ?thesis using calm tcp_receive_serene[OF J system_okD[OF ok]] by (simp add: serene_tcp_goes)
next
  case (polite_tcp_act fd t p)
  then have "calm (tame (env_json E)) p (\<lambda>_. True)" using calm unfolding serene_def by force
  with polite_tcp_act calm tcp_advance_serene[OF system_okD[OF ok]] show ?thesis by (simp add: serene_tcp_goes)
next
  case (polite_udp_sigpipe p)
  with calm show ?thesis by (auto simp: serene_def ended_by_def writing_tcp_def)
next
  case (polite_tcp_sigpipe fd t p)
  with calm show ?thesis by (auto simp: serene_def ended_by_def writing_tcp_def)
next
  case (polite_race x y)
  with calm show ?thesis by (auto simp: serene_def ended_by_def)
qed (use calm in \<open>auto simp: serene_def cleanup_step_def erase_step_def\<close>)

lemma polite_run:
  assumes "(polite db_port E)\<^sup>*\<^sup>* (initial d now) c" and "jsoncpp_ok (env_json E)" and "db_ok (env_mysql E) d"
  shows "reachable E d c \<and> serene E c \<and> (\<forall>e. crashed c = Some e \<longrightarrow>
    (\<exists>c0. (polite db_port E)\<^sup>*\<^sup>* (initial d now) c0 \<and> crashed c0 = None \<and> ended_by db_port E c0 c e))"
  using assms(1)
proof induction
  case base
  have "serene E (initial d now)" "crashed (initial d now) = None" by (simp_all add: serene_def initial_def)
  with reach_start show ?case by auto
next
  case (step c c')
  have next_step: "serene E c' \<and> (\<forall>e. crashed c' = Some e \<longrightarrow> ended_by db_port E c c' e)"
    using polite_serene[OF assms(2) step.hyps(2)] reachable_system_ok assms(3) step.IH by blast
  have "crashed c = None" using crash_is_final[of c] polite_is_step[OF step.hyps(2)] by blast
  with next_step step.hyps(1) reach_step[OF _ polite_is_step[OF step.hyps(2)]] step.IH show ?case by blast
qed

section \<open>Property\<close>

text \<open>
  C8: orderly messages never make the server throw.  As long as it receives nothing else, in whatever
  order its threads work and whichever calls of the network and the database fail, either the server
  runs, or its last step was one of these: a write to a TCP connection whose other end is closed
  (\<open>SIGPIPE\<close>); a data race of two threads on the tables of clients; a new TCP thread whose
  \<open>connectToDb\<close> threw; or an overflow, when the orders received for one product add up to more than an
  \<open>int\<close> holds, or a counter of client numbers has reached the largest \<open>int\<close>.
\<close>

theorem orderly_messages_never_throw:
  assumes "(polite db_port E)\<^sup>*\<^sup>* (initial d now) c" and "jsoncpp_ok (env_json E)" and "db_ok (env_mysql E) d"
  shows "crashed c = None \<or> (\<exists>e c0. crashed c = Some e
    \<and> (polite db_port E)\<^sup>*\<^sup>* (initial d now) c0 \<and> crashed c0 = None
    \<and> (e = Sigpipe \<and> writing_tcp E c0
     \<or> e = Data_race \<and> (\<exists>x y. racing c0 x y)
     \<or> (\<exists>accepts fd cli_addr. tcp c0 fd = None \<and> connectToDb db_port accepts = Inl e
          \<and> c = accept_step db_port accepts fd cli_addr c0)
     \<or> e = Signed_overflow \<and>
         ((\<exists>p. INT_MAX < total_ordered (env_json E) p (storedOrders (orders (server c))))
          \<or> nextClientId_udp (tables (server c)) = INT_MAX \<or> nextClientId_tcp (tables (server c)) = INT_MAX)))"
proof (cases "crashed c")
  case (Some e)
  with polite_run[OF assms] obtain c0 where "(polite db_port E)\<^sup>*\<^sup>* (initial d now) c0" "crashed c0 = None"
    "ended_by db_port E c0 c e" by blast
  with Some show ?thesis
    by (intro disjI2 exI[of _ e] exI[of _ c0]) (simp add: ended_by_def used_up_def next_id_def)
qed simp

section \<open>Witness\<close>

text \<open>The UDP thread alone, with orderly work.\<close>

lemma polite_solo:
  "run E p S = (Inr v, S') \<Longrightarrow> (polite P E)\<^sup>*\<^sup>* (udp_working (bind_program p k) S c) (udp_working (k v) S' c)"
proof (induction p arbitrary: S)
  case (Act a g)
  obtain r S1 where r: "perform E a S = (r, S1)" by fastforce
  with Act.prems obtain n where n: "r = Inr n" "run E (g n) S1 = (Inr v, S')" by (cases r) auto
  have "polite P E (udp_working (bind_program (Act a g) k) S c)
      (udp_goes (advance E (bind_program (Act a g) k) S) (udp_working (bind_program (Act a g) k) S c))"
    using polite_udp_act[of "udp_working (bind_program (Act a g) k) S c" "bind_program (Act a g) k" P E]
    by (simp add: udp_working_def del: advance.simps bind_program.simps)
  moreover have "udp_goes (advance E (bind_program (Act a g) k) S) (udp_working (bind_program (Act a g) k) S c)
      = udp_working (bind_program (g n) k) S1 c"
    using r n(1) by (simp add: udp_working_def udp_goes_def)
  ultimately have "polite P E (udp_working (bind_program (Act a g) k) S c) (udp_working (bind_program (g n) k) S1 c)" by simp
  with Act.IH[OF rangeI n(2)] show ?case by (rule converse_rtranclp_into_rtranclp[rotated])
qed simp_all

lemma agrees_completed: "agrees x (Next, s, S) \<Longrightarrow> x = (Inr (Next, s), S)"
  by (cases x; cases "fst x") (auto simp: agrees_def)

text \<open>A hub orders from another one, from the start of the server.\<close>

lemma proper_sample: "proper_order (env_json (sample_env (hub_order 50))) (recv_buffer 2048 ''{A'')"
proof -
  have "order_message (env_json (sample_env (hub_order 50))) (recv_buffer 2048 ''{A'') (hub_order 50) (hub_fields 50) ''TCP''"
    by (rule order_message_sample) (simp_all add: in_int32_def)
  moreover have "known_product (o_product_name (hub_fields 50))" "stoi (o_product_id (hub_fields 50)) = Inr 2"
    by code_simp+
  ultimately show ?thesis unfolding proper_order_def by blast
qed

theorem orderly_messages_never_throw_witness:
  "\<exists>c. (polite None (sample_env (hub_order 50)))\<^sup>*\<^sup>* (initial (seed_db 1000) 0) c \<and> crashed c = None
     \<and> stock_at sample_mysql (inventory (server c)) Hub 2 ''Water'' = Some 1050"
proof -
  let ?E = "sample_env (hub_order 50)" and ?c0 = "initial (seed_db 1000) 0" and ?b = "recv_buffer 2048 ''{A''"
  let ?p = "run_steps (message_steps (env_json ?E) (udp_reply_steps (sample_addr 7000)) ''UDP Server received your message.'' ''UDP'' ?b) new_session"
  have c0: "crashed ?c0 = None" "udp ?c0 = Waiting new_session" and t0: "tables (server ?c0) = empty_registry"
    by (simp_all add: initial_def)
  have ok: "state_ok ?E Next (server ?c0)"
    by (rule system_okD[OF initial_system_ok c0(1)]) (simp add: db_ok_seed)
  have "moved_stock sample_mysql (hub_fields 50) (seed_db 1000) Hub 2 ''Water'' = Some 1050" by code_simp
  then obtain s' S' where pass: "udp_pass ?E 0 (Datagram ''{A'' (sample_addr 7000)) (new_session, server ?c0) = (Next, s', S')"
      "stock_at sample_mysql (inventory S') Hub 2 ''Water'' = Some 1050" "storedOrders (orders S') = [''{A'']"
    using udp_hub_order_pass[where now = 0 and cli = "sample_addr 7000" and s = new_session
        and a = 1000, OF quiet_sample ok _ hub_sample] hub_order_ready
    by (auto simp: sample_facts initial_def empty_store_def total_ordered_def)
  have "atoi ''{A'' = 0" by code_simp
  then have new: "atoi ?b = 0" by simp
  have "run_stages (message_stages ?E (udp_reply ?E (sample_addr 7000)) ''UDP Server received your message.'' ''UDP'' ?b)
      (new_session, server ?c0) = (Next, s', S')"
    using pass(1) new by (simp add: udp_pass_unfold Let_def BUFFER_SIZE_SERVER_def del: sample_buffer)
  then have "agrees (run ?E ?p (server ?c0)) (Next, s', S')"
    using implements_message[OF sends_udp, of ?E "sample_addr 7000" "''UDP Server received your message.''" "''UDP''" ?b]
    unfolding implements_def by metis
  then have "run ?E ?p (server ?c0) = (Inr (Next, s'), S')" by (rule agrees_completed)
  from polite_solo[OF this, of None Return ?c0]
  have work: "(polite None ?E)\<^sup>*\<^sup>* (udp_working ?p (server ?c0) ?c0) (udp_working (Return (Next, s')) S' ?c0)" by simp
  have "polite None ?E ?c0 (udp_goes (udp_receive ?E (clock ?c0) (Datagram ''{A'' (sample_addr 7000)) new_session (server ?c0)) ?c0)"
    by (rule polite_datagram[OF c0]) (use proper_sample in \<open>simp add: welcome_udp_def orderly_def BUFFER_SIZE_SERVER_def Let_def\<close>)
  moreover have "udp_goes (udp_receive ?E (clock ?c0) (Datagram ''{A'' (sample_addr 7000)) new_session (server ?c0)) ?c0
      = udp_working ?p (server ?c0) ?c0"
    using new c0 by (simp add: udp_receive_unfold udp_goes_def udp_working_def Let_def BUFFER_SIZE_SERVER_def del: sample_buffer)
  ultimately have "(polite None ?E)\<^sup>*\<^sup>* ?c0 (udp_working (Return (Next, s')) S' ?c0)"
    using work by (simp add: converse_rtranclp_into_rtranclp)
  moreover from orderly_messages_never_throw[OF this]
  have "crashed (udp_working (Return (Next, s')) S' ?c0) = None"
    by (simp add: jsoncpp_ok_sample db_ok_seed udp_working_def)
  ultimately show ?thesis
    using pass(2) by (intro exI[of _ "udp_working (Return (Next, s')) S' ?c0"]) (simp add: udp_working_def)
qed

end
