(* ===== verification/Typed_Orders.thy ===== *)
theory Typed_Orders
  imports Client_Server Server_Survival
begin

text \<open>
  The prompts of the client against what the server survives: of the eleven answers two decide
  whether the order is orderly input, the product id and the product name, and the client checks
  neither.
\<close>

section \<open>Which orders are orderly\<close>

text \<open>The fields of an order are determined by its document.\<close>

lemma order_reads_unique: "\<lbrakk>order_reads J root r; order_reads J root r'\<rbrakk> \<Longrightarrow> r = r'"
  by (rule order.equality) (use order_readsD[of J root r] order_readsD[of J root r'] in simp_all)

lemma order_orderly:
  assumes "order_message J buffer root r p"
  shows "orderly J buffer \<longleftrightarrow> known_product (o_product_name r) \<and> (\<exists>n. stoi (o_product_id r) = Inr n)"
proof
  note m = order_messageD[OF assms]
  assume "orderly J buffer"
  moreover have "buffer \<noteq> ''LIST_CLIENTS''" "buffer \<noteq> ''SHOW_REPORT''" using m(4) by auto
  ultimately have "proper_order J buffer" using m(1) by (simp add: orderly_def)
  then obtain root' r' p' n where m': "order_message J buffer root' r' p'"
    and r': "known_product (o_product_name r')" "stoi (o_product_id r') = Inr n"
    unfolding proper_order_def by blast
  have "root' = root" using m(1) order_messageD(1)[OF m'] by simp
  then have "r' = r" using order_reads_unique order_messageD(5)[OF m'] m(5) by metis
  with r' show "known_product (o_product_name r) \<and> (\<exists>n. stoi (o_product_id r) = Inr n)" by blast
next
  assume "known_product (o_product_name r) \<and> (\<exists>n. stoi (o_product_id r) = Inr n)"
  with assms have "proper_order J buffer" unfolding proper_order_def by blast
  then show "orderly J buffer" by (simp add: orderly_def)
qed

section \<open>Property\<close>

text \<open>
  C26: What a user of the program's own client may type, with a template in the spelling of the request
  format.  Each copy of an order that the client sends, if it has fewer than 2048 characters and fewer
  than 1000 opening brackets, is orderly input of the server exactly if the product name was one of the
  five and the product id a number.  If the action is \<open>request\<close> and the quantity positive, one copy with
  any other product name is enough to end the server, after it was acknowledged and stored.
\<close>

theorem typed_product_decides:
  assumes client: "cjson_ok C" "cjson_keys_ok C" "read_json_from_file C (oo_template os) = Some json"
      "\<forall>p \<in> request_paths. exact_at C p json" "no_nul (oo_uuid os)" "no_nul (oo_date os)"
    and typed: "length ls = length order_fields" "list_all entry_ok ls"
    and sends: "client_communicate_udp C os (input_lines ls @ rest) = Some (ex, rest')" "d \<in> set (ex_sent ex)"
      "length (c_str d) < 2048" "brackets (c_str d) < STACK_LIMIT"
    and agree: "libraries_agree C (env_json E)"
    and server: "quiet E" "state_ok E Next S"
      "total_ordered (env_json E) (ls ! 6) (storedOrders (orders S)) + atoi (ls ! 7) \<le> INT_MAX"
  shows "(orderly (env_json E) (recv_buffer BUFFER_SIZE_SERVER d) \<longleftrightarrow> known_product (ls ! 6) \<and> (\<exists>n. stoi (ls ! 5) = Inr n))
    \<and> (ls ! 4 = ''request'' \<and> 0 < atoi (ls ! 7) \<and> \<not> known_product (ls ! 6) \<longrightarrow>
        (\<exists>s' S'. udp_pass E now (Datagram d cli) (s, S) = (Throw Std_out_of_range, s', S')
          \<and> sent S' = sent S @ [Sendto cli ''UDP Server received your message.'']
          \<and> storedOrders (orders S') = storedOrders (orders S) @ [c_str d]))"
proof -
  obtain root where b: "recv_buffer 2048 d = c_str d"
    and m: "order_message (env_json E) (c_str d) root (entered_order ls) (ls ! 10)"
    by (rule typed_copy[OF client typed sends agree]) (rule that)
  have entries: "ls ! 2 \<noteq> []" "ls ! 6 \<noteq> []"
    using typed by (auto simp: list_all_length entry_ok_def order_fields_def)
  have r: "o_product_name (entered_order ls) = ls ! 6" "o_product_id (entered_order ls) = ls ! 5"
    "o_quantity (entered_order ls) = atoi (ls ! 7)" "o_action_type (entered_order ls) = ls ! 4"
    "o_destination_type (entered_order ls) = ls ! 2"
    by (simp_all add: entered_order_def)
  from udp_unknown_product_terminates[OF server(1,2), of d root "entered_order ls" "ls ! 10" now cli s]
  show ?thesis
    using order_orderly[OF m] m entries server(3) by (simp add: b r BUFFER_SIZE_SERVER_def)
qed

section \<open>Witness\<close>

theorem typed_product_decides_witness:
  "\<exists>s' S'. udp_pass wire_env 0 (Datagram (send_buffer (typed_order ''Fuel'')) (sample_addr 7000))
     (new_session, sample_server 1000) = (Throw Std_out_of_range, s', S')"
proof -
  note fuel = typed_entry_ok(2)
  obtain ex where sends: "client_communicate_udp wire_cjson typed_os (input_lines (typed_entries ''Fuel'') @ []) = Some (ex, [])"
    "send_buffer (typed_order ''Fuel'') \<in> set (ex_sent ex)"
    using typed_sends[OF fuel] by blast
  have short: "length (c_str (send_buffer (typed_order ''Fuel''))) < 2048"
    "brackets (c_str (send_buffer (typed_order ''Fuel''))) < STACK_LIMIT"
    unfolding typed_text[OF fuel typed_length(2)] by (rule typed_length)+
  have agree: "libraries_agree wire_cjson (env_json wire_env)" using wire_agrees by (simp add: wire_server)
  have q: "atoi (typed_entries ''Fuel'' ! 7) = 50"
    using typed_entered[of "''Fuel''"] by (simp add: entered_order_def sample_order_fields_def)
  have "typed_entries ''Fuel'' ! 4 = ''request''" "typed_entries ''Fuel'' ! 6 = ''Fuel''"
    by (simp_all add: typed_entries_def)
  with typed_product_decides[OF wire_ok template_read wire_template wire_server(5,6) typed_lines(2) typed_lines(1)[OF fuel]
      sends short agree wire_server(1,4) typed_fits, of 0 "sample_addr 7000" new_session] q
  show ?thesis using rejected_sample(5) by auto
qed

end
