(* ===== verification/Tcp_Stream.thy ===== *)
theory Tcp_Stream
  imports Server_Orders
begin

text \<open>
  TCP delivers a stream of bytes, not messages: one \<open>read\<close> may return a part of what one \<open>send\<close> wrote.
  The loop of \<open>handleTcpClient\<close> takes what a \<open>read\<close> returns for a message.
\<close>

section \<open>Pieces of the stream\<close>

lemma recv_piece: "\<lbrakk>CHR 0x00 \<notin> set b; length b < BUFFER_SIZE_SERVER\<rbrakk> \<Longrightarrow> recv_buffer BUFFER_SIZE_SERVER b = b"
  by (simp add: recv_buffer_def c_str_def takeWhile_eq_all_conv) (metis in_set_takeD)

text \<open>
  What JsonCpp documents of the two pieces of an object: the first is no document; the second does not
  start with a brace, so it is none either, or a value that is no object, of which \<open>isMember\<close> throws.
\<close>

definition head_piece :: "'j jsoncpp \<Rightarrow> string \<Rightarrow> bool" where
  "head_piece J u \<longleftrightarrow> (\<forall>c. jv_parse J c u = Inr None)"

definition tail_piece :: "'j jsoncpp \<Rightarrow> string \<Rightarrow> bool" where
  "tail_piece J v \<longleftrightarrow> hd v \<noteq> CHR ''{'' \<and> last v = CHR ''}''
     \<and> (jv_parse J True v = Inr None
        \<or> (\<exists>w. jv_parse J True v = Inr (Some w) \<and> (\<forall>k. jv_isMember J w k = Inl Json_LogicError)))"

abbreviation tcp_ack :: string where "tcp_ack \<equiv> ''TCP Server received your message.''"

lemma head_pass:
  assumes Q: "quiet E" and u: "u \<noteq> []" "hd u = CHR ''{''" "CHR 0x00 \<notin> set u" "length u < BUFFER_SIZE_SERVER"
    and J: "head_piece (env_json E) u"
  shows "tcp_pass E fd pid (Bytes u) (s, S) = (Skip, s, (said [Write fd tcp_ack] S)\<lparr>orders :=
    (orders S)\<lparr>storedOrders := storedOrders (orders S) @ [u]\<rparr>\<rparr>)"
  using u J tcp_reply_quiet[OF Q]
  by (simp add: tcp_pass_unfold recv_piece message_stages_def reply_with_def store_stage_def storeOrder_def parse_stage_def
      head_piece_def said_def Let_def)

lemma tail_pass:
  assumes Q: "quiet E" and v: "v \<noteq> []" "CHR 0x00 \<notin> set v" "length v < BUFFER_SIZE_SERVER"
    and J: "tail_piece (env_json E) v" and s: "isValid s" "productStock s"
  shows "tcp_pass E fd pid (Bytes v) (s, S) =
    (if jv_parse (env_json E) True v = Inr None then Next else Throw Json_LogicError, s, said [Write fd tcp_ack] S)"
proof -
  have "v \<noteq> ''LIST_CLIENTS''" "v \<noteq> ''SHOW_REPORT''" using J by (auto simp: tail_piece_def)
  with v J s tcp_reply_quiet[OF Q] show ?thesis
    by (auto simp: tcp_pass_unfold recv_piece message_stages_def reply_with_def process_stage_def processMessage_def
        tail_piece_def Let_def)
qed

section \<open>Property\<close>

text \<open>
  C21: An order that arrives over TCP in two pieces is lost, although it would be carried out as one
  datagram.  Both pieces are acknowledged, the first is stored in place of the order, no unit moves, and the
  client is told nothing; and where the second piece starts with a number, such as the quantity, the
  server ends.
\<close>

theorem split_tcp_order_is_lost:
  assumes server: "quiet E" "state_ok E Next S" "db_reliable (env_mysql E) (inventory S)"
    and order: "order_message (env_json E) (u @ v) root r p" "order_ready (env_mysql E) (inventory S) r Hub a"
      "total_ordered (env_json E) (o_product_name r) (storedOrders (orders S)) + o_quantity r \<le> INT_MAX"
    and stream: "CHR 0x00 \<notin> set (u @ v)" "length (u @ v) < BUFFER_SIZE_SERVER" "u \<noteq> []" "v \<noteq> []"
      "head_piece (env_json E) u" "tail_piece (env_json E) v"
    and session: "isValid s" "productStock s"
  shows "(\<exists>s' S'. udp_pass E now (Datagram (u @ v) cli) (s, S) = (Next, s', S')
      \<and> stock_at (env_mysql E) (inventory S') = moved_stock (env_mysql E) r (inventory S))
    \<and> (\<exists>S1 S2. tcp_pass E fd pid (Bytes u) (s, S) = (Skip, s, S1)
      \<and> tcp_pass E fd pid (Bytes v) (s, S1) =
          (if jv_parse (env_json E) True v = Inr None then Next else Throw Json_LogicError, s, S2)
      \<and> inventory S2 = inventory S \<and> storedOrders (orders S2) = storedOrders (orders S) @ [u]
      \<and> sent S2 = sent S @ [Write fd tcp_ack, Write fd tcp_ack])"
proof -
  have whole: "recv_buffer 2048 (u @ v) = u @ v"
    using recv_piece[OF stream(1,2)] by (simp add: BUFFER_SIZE_SERVER_def)
  have "hd u = CHR ''{''" using order_messageD(4)[OF order(1)] stream(3) by simp
  then have one: "tcp_pass E fd pid (Bytes u) (s, S) = (Skip, s, (said [Write fd tcp_ack] S)\<lparr>orders :=
      (orders S)\<lparr>storedOrders := storedOrders (orders S) @ [u]\<rparr>\<rparr>)"
    using stream by (intro head_pass[OF server(1)]) simp_all
  have two: "tcp_pass E fd pid (Bytes v) (s, S1) =
      (if jv_parse (env_json E) True v = Inr None then Next else Throw Json_LogicError, s, said [Write fd tcp_ack] S1)" for S1
    using stream session by (intro tail_pass[OF server(1)]) simp_all
  have "\<exists>s' S'. udp_pass E now (Datagram (u @ v) cli) (s, S) = (Next, s', S')
      \<and> stock_at (env_mysql E) (inventory S') = moved_stock (env_mysql E) r (inventory S)"
    using udp_hub_order_pass[OF server, of "u @ v" root r p a now cli s] order by (auto simp: whole)
  then show ?thesis by (simp add: one two said_def)
qed

section \<open>Witness\<close>

text \<open>A document whose last part, cut off, is a number.\<close>

definition stream_env :: "sample_json env" where
  "stream_env = (sample_env SNull)\<lparr>env_json := sample [(''{5}'', hub_order 50), (''5}'', SInt 5)]\<rparr>"

theorem split_tcp_order_is_lost_witness:
  "\<exists>S1 S2. tcp_pass stream_env 4 88 (Bytes ''{'') (new_session, sample_server 1000) = (Skip, new_session, S1)
     \<and> tcp_pass stream_env 4 88 (Bytes ''5}'') (new_session, S1) = (Throw Json_LogicError, new_session, S2)"
proof -
  have J: "env_json stream_env = sample [(''{5}'', hub_order 50), (''5}'', SInt 5)]" "env_mysql stream_env = sample_mysql"
    by (simp_all add: stream_env_def)
  have "quiet stream_env" by (simp add: quiet_def stream_env_def sample_env_def)
  moreover have "state_ok stream_env Next (sample_server 1000)"
    by (simp add: state_ok_def sample_registry_ok db_ok_seed store_ok_empty J)
  moreover have "order_message (env_json stream_env) (''{'' @ ''5}'') (hub_order 50) (hub_fields 50) ''TCP''"
    using order_reads_sample[of 1 2 50 "[(''{5}'', hub_order 50), (''5}'', SInt 5)]"]
    by (simp add: order_message_def J json_string_def sample_order_def in_int32_def)
  moreover have "head_piece (env_json stream_env) ''{''" "tail_piece (env_json stream_env) ''5}''"
    by (simp_all add: head_piece_def tail_piece_def J)
  ultimately show ?thesis
    using split_tcp_order_is_lost[of stream_env "sample_server 1000" "''{''" "''5}''" "hub_order 50" "hub_fields 50" "''TCP''" 1000
        new_session 0 "sample_addr 5000" 4 88] hub_order_ready
    by (auto simp: J BUFFER_SIZE_SERVER_def new_session_def sample_order_fields_def sample_facts)
qed

end
