(* ===== verification/Client_Threads.thy ===== *)
theory Client_Threads
  imports Client_Server
begin

text \<open>
  The two threads of a connected client: the main thread sends an order and waits for the response,
  and the receiver thread of \<open>start_message_receiver\<close> reads from the same socket.  A step is one
  system call of one thread, or an arrival from the network.  The retry loops of \<open>Client_Request\<close>
  describe the main thread whatever the receiver does; which messages are left for it is another
  matter.
\<close>

section \<open>States and steps\<close>

text \<open>
  The main thread before \<open>sendto\<close> or \<open>send\<close>, before \<open>select\<close> (UDP), before \<open>recvfrom\<close> or \<open>recv\<close>, and at the
  end, with its return value and the response it shows; the number counts the timeouts.
\<close>

datatype main_thread =
    Sending nat
  | Selecting nat
  | Receiving nat
  | Ended int "string option"

text \<open>
  \<open>pending\<close>: what arrived and was not read yet.  \<open>receives\<close>: what the receiver thread has read, which
  determines what it printed; \<open>receiving\<close>: it is still running.
\<close>

record connection =
  main :: main_thread
  copies :: "string list"
  pending :: "string list"
  peer_closed :: bool
  receiving :: bool
  receives :: "receive list"

text \<open>
  A read takes the next datagram, cut to the size of the buffer; or a part of the stream, which is
  empty only when the server has closed the connection and everything was read.
\<close>

fun takes :: "protocol \<Rightarrow> nat \<Rightarrow> connection \<Rightarrow> string \<Rightarrow> string list \<Rightarrow> bool" where
  "takes UDP n c bytes rest \<longleftrightarrow> pending c \<noteq> [] \<and> bytes = take n (hd (pending c)) \<and> rest = tl (pending c)"
| "takes TCP n c bytes rest \<longleftrightarrow> length bytes \<le> n \<and> concat (pending c) = bytes @ concat rest
     \<and> (bytes = [] \<longrightarrow> peer_closed c \<and> concat rest = [])"

fun nothing_to_read :: "protocol \<Rightarrow> connection \<Rightarrow> bool" where
  "nothing_to_read UDP c \<longleftrightarrow> pending c = []"
| "nothing_to_read TCP c \<longleftrightarrow> concat (pending c) = [] \<and> \<not> peer_closed c"

text \<open>The response the main thread shows: the UDP loop reads without leaving room for a NUL.\<close>

fun read_size :: "protocol \<Rightarrow> nat" where
  "read_size UDP = BUFFER_SIZE_CLIENT"
| "read_size TCP = BUFFER_SIZE_CLIENT - 1"

definition ends :: "int \<Rightarrow> string option \<Rightarrow> connection \<Rightarrow> connection" where
  "ends result response c = c\<lparr>main := Ended result response\<rparr>"

definition after_send :: "protocol \<Rightarrow> nat \<Rightarrow> main_thread" where
  "after_send proto r = (if proto = UDP then Selecting r else Receiving r)"

text \<open>
  The receiver thread set a timeout of one second on a UDP socket, so the \<open>recvfrom\<close> of the main thread
  fails when nothing is left to read; the TCP loop takes a timeout of its \<open>recv\<close> for silence.
\<close>

definition after_timeout :: "protocol \<Rightarrow> nat \<Rightarrow> main_thread" where
  "after_timeout proto r = (if proto = UDP then Ended (- 1) None else Sending (r + 1))"

inductive main_step :: "protocol \<Rightarrow> string \<Rightarrow> connection \<Rightarrow> connection \<Rightarrow> bool" for proto :: protocol and msg :: string where
  sends: "\<lbrakk>main c = Sending r; r \<le> MAX_RETRIES\<rbrakk>
    \<Longrightarrow> main_step proto msg c (c\<lparr>main := after_send proto r, copies := copies c @ [msg]\<rparr>)"
| send_fails: "\<lbrakk>main c = Sending r; r \<le> MAX_RETRIES\<rbrakk> \<Longrightarrow> main_step proto msg c (ends (- 1) None c)"
| gives_up: "\<lbrakk>main c = Sending r; \<not> r \<le> MAX_RETRIES\<rbrakk> \<Longrightarrow> main_step proto msg c (ends 1 None c)"
| ready: "\<lbrakk>main c = Selecting r; \<not> nothing_to_read proto c\<rbrakk> \<Longrightarrow> main_step proto msg c (c\<lparr>main := Receiving r\<rparr>)"
| not_ready: "\<lbrakk>main c = Selecting r; nothing_to_read proto c\<rbrakk> \<Longrightarrow> main_step proto msg c (c\<lparr>main := Sending (r + 1)\<rparr>)"
| select_fails: "main c = Selecting r \<Longrightarrow> main_step proto msg c (ends (- 1) None c)"
| response: "\<lbrakk>main c = Receiving r; takes proto (read_size proto) c bytes rest\<rbrakk>
    \<Longrightarrow> main_step proto msg c (ends 0 (Some (c_str bytes)) (c\<lparr>pending := rest\<rparr>))"
| no_response: "\<lbrakk>main c = Receiving r; nothing_to_read proto c\<rbrakk>
    \<Longrightarrow> main_step proto msg c (c\<lparr>main := after_timeout proto r\<rparr>)"
| receive_fails: "main c = Receiving r \<Longrightarrow> main_step proto msg c (ends (- 1) None c)"

inductive receiver_step :: "protocol \<Rightarrow> connection \<Rightarrow> connection \<Rightarrow> bool" for proto :: protocol where
  message: "\<lbrakk>receiving c; takes proto (BUFFER_SIZE_CLIENT - 1) c bytes rest\<rbrakk>
    \<Longrightarrow> receiver_step proto c (c\<lparr>pending := rest, receives := receives c @ [Received bytes],
          receiving := \<not> (proto = TCP \<and> bytes = [])\<rparr>)"
| idle: "\<lbrakk>receiving c; nothing_to_read proto c\<rbrakk>
    \<Longrightarrow> receiver_step proto c (c\<lparr>receives := receives c @ [Receive_timeout]\<rparr>)"
| fails: "receiving c \<Longrightarrow> receiver_step proto c (c\<lparr>receives := receives c @ [Receive_error], receiving := False\<rparr>)"

definition arrive :: "string list \<Rightarrow> connection \<Rightarrow> connection" where
  "arrive msgs c = c\<lparr>pending := pending c @ msgs\<rparr>"

inductive client_step :: "protocol \<Rightarrow> string \<Rightarrow> connection \<Rightarrow> connection \<Rightarrow> bool" for proto :: protocol and msg :: string where
  main_thread: "main_step proto msg c c' \<Longrightarrow> client_step proto msg c c'"
| receiver_thread: "receiver_step proto c c' \<Longrightarrow> client_step proto msg c c'"
| arrival: "client_step proto msg c (arrive msgs c)"
| closing: "client_step proto msg c (c\<lparr>peer_closed := True\<rparr>)"

abbreviation client_steps :: "protocol \<Rightarrow> string \<Rightarrow> connection \<Rightarrow> connection \<Rightarrow> bool" where
  "client_steps proto msg \<equiv> (client_step proto msg)\<^sup>*\<^sup>*"

section \<open>The retry loops describe the main thread\<close>

definition rounds :: "protocol \<Rightarrow> (nat \<Rightarrow> attempt) \<Rightarrow> string \<Rightarrow> nat \<Rightarrow> string list \<Rightarrow> exchange" where
  "rounds proto os msg r copied = (if proto = UDP then udp_rounds os msg r copied else tcp_rounds os msg r copied)"

text \<open>A round without a response, and the results of the calls up to round \<open>r\<close>, which is \<open>a\<close>.\<close>

definition silent_round :: attempt where
  "silent_round = \<lparr>at_send = 0, at_select = 0, at_setsockopt = 0, at_recv = - 1, at_timeout = True, at_data = []\<rparr>"

definition rounds_until :: "nat \<Rightarrow> attempt \<Rightarrow> nat \<Rightarrow> attempt" where
  "rounds_until r a i = (if i < r then silent_round else a)"

lemma rounds_silent:
  "r \<le> Suc MAX_RETRIES \<Longrightarrow> rounds proto (rounds_until r a) msg 0 [] = rounds proto (rounds_until r a) msg r (replicate r msg)"
proof -
  have "rounds proto (rounds_until r a) msg 0 [] = rounds proto (rounds_until r a) msg k (replicate k msg)"
    if "k \<le> r" "r \<le> Suc MAX_RETRIES" for k
    using that
  proof (induction k)
    case (Suc k)
    then have "rounds proto (rounds_until r a) msg k (replicate k msg)
        = rounds proto (rounds_until r a) msg (Suc k) (replicate (Suc k) msg)"
      unfolding rounds_def
      by (subst udp_rounds.simps, subst tcp_rounds.simps)
        (simp add: rounds_until_def silent_round_def replicate_append_same)
    with Suc show ?case by simp
  qed simp
  then show "r \<le> Suc MAX_RETRIES \<Longrightarrow> ?thesis" by simp
qed

text \<open>The round that decides, after \<open>r\<close> silent ones.\<close>

lemma round_decides:
  assumes "r \<le> MAX_RETRIES" and "rounds proto (rounds_until r a) msg r (replicate r msg) = x"
  shows "\<exists>os. rounds proto os msg 0 [] = x"
  using assms rounds_silent[of r proto a msg] by auto

lemma deciding_rounds:
  assumes "r \<le> MAX_RETRIES"
  shows "rounds proto (rounds_until r (silent_round\<lparr>at_send := - 1\<rparr>)) msg r (replicate r msg)
      = \<lparr>ex_result = - 1, ex_sent = replicate r msg, ex_response = None\<rparr>"
    and "rounds proto (rounds_until r (silent_round\<lparr>at_select := - 1, at_timeout := False\<rparr>)) msg r (replicate r msg)
      = \<lparr>ex_result = - 1, ex_sent = replicate (Suc r) msg, ex_response = None\<rparr>"
    and "length bytes \<le> read_size proto \<Longrightarrow>
      rounds proto (rounds_until r (silent_round\<lparr>at_select := 1, at_recv := 0, at_data := bytes\<rparr>)) msg r (replicate r msg)
      = \<lparr>ex_result = 0, ex_sent = replicate (Suc r) msg, ex_response = Some (c_str bytes)\<rparr>"
proof -
  note unfold = rounds_def udp_rounds.simps[of _ msg r] tcp_rounds.simps[of _ msg r] rounds_until_def silent_round_def
  show "rounds proto (rounds_until r (silent_round\<lparr>at_send := - 1\<rparr>)) msg r (replicate r msg)
      = \<lparr>ex_result = - 1, ex_sent = replicate r msg, ex_response = None\<rparr>"
    and "rounds proto (rounds_until r (silent_round\<lparr>at_select := - 1, at_timeout := False\<rparr>)) msg r (replicate r msg)
      = \<lparr>ex_result = - 1, ex_sent = replicate (Suc r) msg, ex_response = None\<rparr>"
    using assms by (simp_all add: unfold replicate_append_same)
  show "rounds proto (rounds_until r (silent_round\<lparr>at_select := 1, at_recv := 0, at_data := bytes\<rparr>)) msg r (replicate r msg)
      = \<lparr>ex_result = 0, ex_sent = replicate (Suc r) msg, ex_response = Some (c_str bytes)\<rparr>"
    if "length bytes \<le> read_size proto"
    using assms that by (cases proto) (simp_all add: unfold replicate_append_same recv_buffer_def)
qed

lemma rounds_give_up: "\<exists>os. rounds proto os msg 0 [] = \<lparr>ex_result = 1, ex_sent = replicate (Suc MAX_RETRIES) msg, ex_response = None\<rparr>"
proof -
  have "rounds proto (rounds_until (Suc MAX_RETRIES) silent_round) msg (Suc MAX_RETRIES) (replicate (Suc MAX_RETRIES) msg)
      = \<lparr>ex_result = 1, ex_sent = replicate (Suc MAX_RETRIES) msg, ex_response = None\<rparr>"
    unfolding rounds_def by (subst udp_rounds.simps, subst tcp_rounds.simps) simp
  then show ?thesis using rounds_silent[of "Suc MAX_RETRIES" proto silent_round msg] by auto
qed

definition main_ok :: "protocol \<Rightarrow> string \<Rightarrow> connection \<Rightarrow> bool" where
  "main_ok proto msg c \<longleftrightarrow> (case main c of
     Sending r \<Rightarrow> r \<le> Suc MAX_RETRIES \<and> copies c = replicate r msg
   | Selecting r \<Rightarrow> proto = UDP \<and> r \<le> MAX_RETRIES \<and> copies c = replicate (Suc r) msg
   | Receiving r \<Rightarrow> r \<le> MAX_RETRIES \<and> copies c = replicate (Suc r) msg
   | Ended n shown \<Rightarrow> \<exists>os. rounds proto os msg 0 [] = \<lparr>ex_result = n, ex_sent = copies c, ex_response = shown\<rparr>)"

lemma takes_length: "takes proto n c bytes rest \<Longrightarrow> length bytes \<le> n"
  by (cases proto) simp_all

lemma main_ok_response:
  assumes "r \<le> MAX_RETRIES" and "copies c = replicate (Suc r) msg" and "takes proto (read_size proto) c bytes rest"
  shows "main_ok proto msg (ends 0 (Some (c_str bytes)) (c\<lparr>pending := rest\<rparr>))"
  using round_decides[OF assms(1) deciding_rounds(3)[OF assms(1) takes_length[OF assms(3)]]] assms(2)
  by (simp add: main_ok_def ends_def)

lemma main_ok_failed:
  assumes "r \<le> MAX_RETRIES" and "copies c = replicate (Suc r) msg"
  shows "main_ok proto msg (ends (- 1) None c)"
  using round_decides[OF assms(1) deciding_rounds(2)[OF assms(1)]] assms(2) by (simp add: main_ok_def ends_def)

lemma main_step_ok:
  assumes "main_step proto msg c c'" and ok: "main_ok proto msg c"
  shows "main_ok proto msg c'"
  using assms(1)
proof cases
  case (sends r)
  with ok show ?thesis by (simp add: main_ok_def after_send_def replicate_append_same)
next
  case (send_fails r)
  with ok round_decides[OF send_fails(3) deciding_rounds(1)[OF send_fails(3)]] show ?thesis
    by (simp add: main_ok_def ends_def)
next
  case (gives_up r)
  with ok have "r = Suc MAX_RETRIES" by (simp add: main_ok_def)
  with gives_up ok rounds_give_up show ?thesis by (simp add: main_ok_def ends_def)
next
  case (ready r)
  with ok show ?thesis by (simp add: main_ok_def)
next
  case (not_ready r)
  with ok show ?thesis by (simp add: main_ok_def)
next
  case (select_fails r)
  with ok main_ok_failed[of r c] show ?thesis by (simp add: main_ok_def)
next
  case (response r bytes rest)
  with ok main_ok_response[of r c] show ?thesis by (simp add: main_ok_def)
next
  case (no_response r)
  with ok main_ok_failed[of r c] show ?thesis by (auto simp: main_ok_def after_timeout_def ends_def)
next
  case (receive_fails r)
  with ok main_ok_failed[of r c] show ?thesis by (simp add: main_ok_def)
qed

lemma main_ok_same: "\<lbrakk>main_ok proto msg c; main c' = main c; copies c' = copies c\<rbrakk> \<Longrightarrow> main_ok proto msg c'"
  unfolding main_ok_def by (simp only:)

lemma client_step_ok:
  assumes "client_step proto msg c c'" and ok: "main_ok proto msg c"
  shows "main_ok proto msg c'"
  using assms(1)
proof cases
  case main_thread
  then show ?thesis using ok by (rule main_step_ok)
next
  case receiver_thread
  then show ?thesis by (cases rule: receiver_step.cases) (auto intro: main_ok_same[OF ok])
qed (auto simp: arrive_def intro: main_ok_same[OF ok])

lemma client_steps_ok: "\<lbrakk>client_steps proto msg c c'; main_ok proto msg c\<rbrakk> \<Longrightarrow> main_ok proto msg c'"
  by (induction rule: rtranclp_induct) (auto intro: client_step_ok)

section \<open>Every exchange of the retry loops happens\<close>

definition ends_as :: "protocol \<Rightarrow> string \<Rightarrow> connection \<Rightarrow> exchange \<Rightarrow> bool" where
  "ends_as proto msg c x \<longleftrightarrow> (\<exists>c'. client_steps proto msg c c'
     \<and> main c' = Ended (ex_result x) (ex_response x) \<and> copies c' = ex_sent x)"

lemma ends_as_after: "\<lbrakk>client_steps proto msg c c1; ends_as proto msg c1 x\<rbrakk> \<Longrightarrow> ends_as proto msg c x"
  unfolding ends_as_def by (blast intro: rtranclp_trans)

lemma ends_as_step: "\<lbrakk>main_step proto msg c c1; ends_as proto msg c1 x\<rbrakk> \<Longrightarrow> ends_as proto msg c x"
  by (rule ends_as_after) (auto intro: client_step.main_thread)

lemma ends_as_ended: "main_step proto msg c (ends n shown c1) \<Longrightarrow> copies c1 = sent_copies \<Longrightarrow>
   ends_as proto msg c \<lparr>ex_result = n, ex_sent = sent_copies, ex_response = shown\<rparr>"
  unfolding ends_as_def by (intro exI[of _ "ends n shown c1"]) (auto simp: ends_def intro: client_step.main_thread)

definition drained :: "connection \<Rightarrow> bool" where
  "drained c \<longleftrightarrow> pending c = [] \<and> \<not> peer_closed c"

lemma drained_nothing: "drained c \<Longrightarrow> nothing_to_read proto c"
  by (cases proto) (simp_all add: drained_def)

text \<open>A response arrives and the main thread reads it.\<close>

lemma reads_response:
  assumes "main c = (if proto = UDP then Selecting r else Receiving r)" and "drained c"
  shows "ends_as proto msg c \<lparr>ex_result = 0, ex_sent = copies c, ex_response = Some (c_str (take (read_size proto) bytes))\<rparr>"
proof (cases proto)
  case UDP
  have "client_step UDP msg c (arrive [bytes] c)" by (rule client_step.arrival)
  moreover have "main_step UDP msg (arrive [bytes] c) ((arrive [bytes] c)\<lparr>main := Receiving r\<rparr>)"
    using assms UDP by (intro main_step.ready) (simp_all add: arrive_def)
  moreover have "ends_as UDP msg ((arrive [bytes] c)\<lparr>main := Receiving r\<rparr>)
      \<lparr>ex_result = 0, ex_sent = copies c, ex_response = Some (c_str (take (read_size UDP) bytes))\<rparr>"
    using assms by (intro ends_as_ended[OF main_step.response[where r = r and rest = "[]"]]) (simp_all add: arrive_def drained_def)
  ultimately show ?thesis unfolding UDP by (blast intro: ends_as_after ends_as_step)
next
  case TCP
  show ?thesis
  proof (cases "bytes = []")
    case True
    have "client_step TCP msg c (c\<lparr>peer_closed := True\<rparr>)" by (rule client_step.closing)
    moreover have "ends_as TCP msg (c\<lparr>peer_closed := True\<rparr>)
        \<lparr>ex_result = 0, ex_sent = copies c, ex_response = Some (c_str (take (read_size TCP) bytes))\<rparr>"
      using assms TCP True
      by (intro ends_as_ended[OF main_step.response[where r = r and rest = "[]"]]) (simp_all add: drained_def)
    ultimately show ?thesis unfolding TCP by (blast intro: ends_as_after)
  next
    case False
    have "client_step TCP msg c (arrive [bytes] c)" by (rule client_step.arrival)
    moreover have "ends_as TCP msg (arrive [bytes] c)
        \<lparr>ex_result = 0, ex_sent = copies c, ex_response = Some (c_str (take (read_size TCP) bytes))\<rparr>"
      using assms TCP False
      by (intro ends_as_ended[OF main_step.response[where r = r and rest = "[drop (read_size TCP) bytes]"]])
        (simp_all add: drained_def arrive_def BUFFER_SIZE_CLIENT_def)
    ultimately show ?thesis unfolding TCP by (blast intro: ends_as_after)
  qed
qed

text \<open>One round, and by it the rest of the loop.\<close>

lemma udp_round_happens:
  assumes c: "main c = Sending r" "r \<le> MAX_RETRIES" "drained c"
    and later: "\<And>c'. \<lbrakk>main c' = Sending (r + 1); copies c' = copies c @ [msg]; drained c'\<rbrakk> \<Longrightarrow>
      ends_as UDP msg c' (udp_rounds os msg (r + 1) (copies c @ [msg]))"
  shows "ends_as UDP msg c (udp_rounds os msg r (copies c))"
proof -
  let ?a = "os r" and ?c1 = "c\<lparr>main := Selecting r, copies := copies c @ [msg]\<rparr>"
  have c1: "main_step UDP msg c ?c1" using main_step.sends[OF c(1,2), of UDP msg] by (simp add: after_send_def)
  let ?rest = "(if at_select ?a = - 1 then \<lparr>ex_result = - 1, ex_sent = copies ?c1, ex_response = None\<rparr>
      else if at_select ?a = 0 then udp_rounds os msg (r + 1) (copies ?c1)
      else if at_recv ?a < 0 then \<lparr>ex_result = - 1, ex_sent = copies ?c1, ex_response = None\<rparr>
      else \<lparr>ex_result = 0, ex_sent = copies ?c1, ex_response = Some (c_str (take BUFFER_SIZE_CLIENT (at_data ?a)))\<rparr>)"
  have rest: "ends_as UDP msg ?c1 ?rest"
  proof -
    have failed: "ends_as UDP msg ?c1 \<lparr>ex_result = - 1, ex_sent = copies ?c1, ex_response = None\<rparr>"
      by (rule ends_as_ended[OF main_step.select_fails]) simp_all
    have silent: "main_step UDP msg ?c1 (?c1\<lparr>main := Sending (r + 1)\<rparr>)"
      using c(3) by (intro main_step.not_ready) (simp_all add: drained_def)
    have "ends_as UDP msg (?c1\<lparr>main := Sending (r + 1)\<rparr>) (udp_rounds os msg (r + 1) (copies ?c1))"
      using later[of "?c1\<lparr>main := Sending (r + 1)\<rparr>"] c(3) by (simp add: drained_def)
    with silent failed reads_response[of ?c1 UDP r msg "at_data ?a"] c(3) show ?thesis
      by (auto simp: drained_def intro: ends_as_step)
  qed
  show ?thesis
  proof (cases "at_send ?a < 0")
    case True
    with c(2) ends_as_ended[OF main_step.send_fails[OF c(1,2)]] show ?thesis by (subst udp_rounds.simps) simp
  next
    case False
    with c(2) have "udp_rounds os msg r (copies c) = ?rest" by (subst udp_rounds.simps) (simp add: Let_def)
    with ends_as_step[OF c1 rest] show ?thesis by simp
  qed
qed

lemma tcp_round_happens:
  assumes c: "main c = Sending r" "r \<le> MAX_RETRIES" "drained c"
    and later: "\<And>c'. \<lbrakk>main c' = Sending (r + 1); copies c' = copies c @ [msg]; drained c'\<rbrakk> \<Longrightarrow>
      ends_as TCP msg c' (tcp_rounds os msg (r + 1) (copies c @ [msg]))"
  shows "ends_as TCP msg c (tcp_rounds os msg r (copies c))"
proof -
  let ?a = "os r" and ?c1 = "c\<lparr>main := Receiving r, copies := copies c @ [msg]\<rparr>"
  have c1: "main_step TCP msg c ?c1" using main_step.sends[OF c(1,2), of TCP msg] by (simp add: after_send_def)
  let ?rest = "(if at_setsockopt ?a < 0 then \<lparr>ex_result = - 1, ex_sent = copies ?c1, ex_response = None\<rparr>
      else if at_recv ?a < 0 then
        if at_timeout ?a then tcp_rounds os msg (r + 1) (copies ?c1)
        else \<lparr>ex_result = - 1, ex_sent = copies ?c1, ex_response = None\<rparr>
      else \<lparr>ex_result = 0, ex_sent = copies ?c1, ex_response = Some (recv_buffer BUFFER_SIZE_CLIENT (at_data ?a))\<rparr>)"
  have rest: "ends_as TCP msg ?c1 ?rest"
  proof -
    have failed: "ends_as TCP msg ?c1 \<lparr>ex_result = - 1, ex_sent = copies ?c1, ex_response = None\<rparr>"
      by (rule ends_as_ended[OF main_step.receive_fails]) simp_all
    have silent: "main_step TCP msg ?c1 (?c1\<lparr>main := Sending (r + 1)\<rparr>)"
      using c(3) main_step.no_response[of ?c1 r TCP msg] by (simp add: drained_def after_timeout_def)
    have "ends_as TCP msg (?c1\<lparr>main := Sending (r + 1)\<rparr>) (tcp_rounds os msg (r + 1) (copies ?c1))"
      using later[of "?c1\<lparr>main := Sending (r + 1)\<rparr>"] c(3) by (simp add: drained_def)
    with silent failed reads_response[of ?c1 TCP r msg "at_data ?a"] c(3) show ?thesis
      by (auto simp: drained_def recv_buffer_def intro: ends_as_step)
  qed
  show ?thesis
  proof (cases "at_send ?a < 0")
    case True
    with c(2) ends_as_ended[OF main_step.send_fails[OF c(1,2)]] show ?thesis by (subst tcp_rounds.simps) simp
  next
    case False
    with c(2) have "tcp_rounds os msg r (copies c) = ?rest" by (subst tcp_rounds.simps) (simp add: Let_def)
    with ends_as_step[OF c1 rest] show ?thesis by simp
  qed
qed

lemma rounds_happen:
  assumes "r \<le> Suc MAX_RETRIES" and "main c = Sending r" and "drained c"
  shows "ends_as proto msg c (rounds proto os msg r (copies c))"
  using assms
proof (induction r arbitrary: c rule: inc_induct)
  case base
  then have "ends_as proto msg c \<lparr>ex_result = 1, ex_sent = copies c, ex_response = None\<rparr>"
    by (intro ends_as_ended[OF main_step.gives_up[where r = "Suc MAX_RETRIES"]]) simp_all
  moreover have "rounds proto os msg (Suc MAX_RETRIES) (copies c) = \<lparr>ex_result = 1, ex_sent = copies c, ex_response = None\<rparr>"
    unfolding rounds_def by (subst udp_rounds.simps, subst tcp_rounds.simps) simp
  ultimately show ?case by simp
next
  case (step r)
  then have r: "r \<le> MAX_RETRIES" by simp
  have later: "ends_as proto msg c' (rounds proto os msg (r + 1) (copies c @ [msg]))"
    if "main c' = Sending (r + 1)" "copies c' = copies c @ [msg]" "drained c'" for c'
    using step.IH[of c'] that by simp
  show ?case
  proof (cases proto)
    case UDP
    with udp_round_happens[OF step.prems(1) r step.prems(2)] later show ?thesis by (simp add: rounds_def)
  next
    case TCP
    with tcp_round_happens[OF step.prems(1) r step.prems(2)] later show ?thesis by (simp add: rounds_def)
  qed
qed

lemma threads_as_rounds:
  assumes "main c = Sending 0" and "copies c = []" and "pending c = []" and "\<not> peer_closed c"
  shows "(\<exists>c'. client_steps proto msg c c' \<and> main c' = Ended n shown \<and> copies c' = sent_copies) \<longleftrightarrow>
    (\<exists>os. rounds proto os msg 0 [] = \<lparr>ex_result = n, ex_sent = sent_copies, ex_response = shown\<rparr>)"
proof -
  have "main_ok proto msg c" using assms(1,2) by (simp add: main_ok_def)
  then have "\<exists>os. rounds proto os msg 0 [] = \<lparr>ex_result = n, ex_sent = copies c', ex_response = shown\<rparr>"
    if "client_steps proto msg c c'" "main c' = Ended n shown" for c'
    using client_steps_ok[OF that(1)] that(2) by (simp add: main_ok_def)
  moreover have "ends_as proto msg c (rounds proto os msg 0 [])" for os
    using rounds_happen[of 0 c proto msg os] assms by (simp add: drained_def)
  then have "\<exists>c'. client_steps proto msg c c' \<and> main c' = Ended n shown \<and> copies c' = sent_copies"
    if "rounds proto os msg 0 [] = \<lparr>ex_result = n, ex_sent = sent_copies, ex_response = shown\<rparr>" for os
    using that[symmetric] by (metis ends_as_def exchange.select_convs)
  ultimately show ?thesis by blast
qed

section \<open>How an exchange can end\<close>

text \<open>
  The return value \<open>n\<close> after \<open>k\<close> copies: a response after one to four copies, silence after four, and
  any other failure at any point.
\<close>

definition possible_end :: "protocol \<Rightarrow> int \<Rightarrow> nat \<Rightarrow> string option \<Rightarrow> bool" where
  "possible_end proto n k shown \<longleftrightarrow>
     n = 0 \<and> 1 \<le> k \<and> k \<le> 4
       \<and> (\<exists>bytes. length bytes \<le> (if proto = UDP then 4096 else 4095) \<and> shown = Some (c_str bytes))
   \<or> n = 1 \<and> k = 4 \<and> shown = None
   \<or> n = - 1 \<and> k \<le> 4 \<and> shown = None"

lemma exchange_spec_ends:
  assumes heard: "\<And>a. length (heard a) \<le> (if proto = UDP then 4096 else 4095)"
    and run: "exchange_spec silent answered (\<lambda>a. c_str (heard a)) os msg 0
      = \<lparr>ex_result = n, ex_sent = copies_sent, ex_response = shown\<rparr>"
  shows "\<exists>k. copies_sent = replicate k msg \<and> possible_end proto n k shown"
proof (cases "find (\<lambda>i. \<not> silent (os i)) [0..<4]")
  case None
  with run show ?thesis by (intro exI[of _ 4]) (auto simp: exchange_spec_def possible_end_def)
next
  case (Some i)
  then have i: "i < 4" by (auto simp: find_Some_iff)
  show ?thesis
  proof (cases "answered (os i)")
    case True
    with Some run have "n = 0" "copies_sent = replicate (i + 1) msg" "shown = Some (c_str (heard (os i)))"
      by (auto simp: exchange_spec_def)
    with i heard[of "os i"] show ?thesis unfolding possible_end_def by (intro exI[of _ "i + 1"]) auto
  next
    case False
    with Some run have "n = - 1" "copies_sent = replicate (if at_send (os i) < 0 then i else i + 1) msg" "shown = None"
      by (simp_all add: exchange_spec_def)
    with i show ?thesis
      unfolding possible_end_def by (intro exI[of _ "if at_send (os i) < 0 then i else i + 1"]) auto
  qed
qed

lemma rounds_end_possibly:
  assumes "rounds proto os msg 0 [] = \<lparr>ex_result = n, ex_sent = copies_sent, ex_response = shown\<rparr>"
  shows "\<exists>k. copies_sent = replicate k msg \<and> possible_end proto n k shown"
proof (cases proto)
  case UDP
  with assms udp_rounds_from[of 0 os msg] show ?thesis
    by (intro exchange_spec_ends[where heard = "\<lambda>a. take BUFFER_SIZE_CLIENT (at_data a)"])
      (simp_all add: rounds_def BUFFER_SIZE_CLIENT_def)
next
  case TCP
  with assms tcp_rounds_from[of 0 os msg] show ?thesis
    by (intro exchange_spec_ends[where heard = "\<lambda>a. take (BUFFER_SIZE_CLIENT - 1) (at_data a)"])
      (simp_all add: rounds_def recv_buffer_def BUFFER_SIZE_CLIENT_def)
qed

lemma possible_end_happens:
  assumes "possible_end proto n k shown"
  shows "\<exists>os. rounds proto os msg 0 [] = \<lparr>ex_result = n, ex_sent = replicate k msg, ex_response = shown\<rparr>"
proof -
  from assms consider (answered) bytes r where "n = 0" "k = Suc r" "r \<le> MAX_RETRIES" "length bytes \<le> read_size proto"
      "shown = Some (c_str bytes)"
    | (silent) "n = 1" "k = Suc MAX_RETRIES" "shown = None"
    | (unsent) "n = - 1" "k = 0" "shown = None"
    | (failed) r where "n = - 1" "k = Suc r" "r \<le> MAX_RETRIES" "shown = None"
    by (cases k; cases proto) (auto simp: possible_end_def MAX_RETRIES_def BUFFER_SIZE_CLIENT_def)
  then show ?thesis
  proof cases
    case (answered bytes r)
    with round_decides[OF answered(3) deciding_rounds(3)[OF answered(3,4)]] show ?thesis by simp
  next
    case silent
    with rounds_give_up show ?thesis by simp
  next
    case unsent
    with round_decides[OF _ deciding_rounds(1)[of 0]] show ?thesis by simp
  next
    case (failed r)
    with round_decides[OF failed(3) deciding_rounds(2)[OF failed(3)]] show ?thesis by simp
  qed
qed

section \<open>Property\<close>


section \<open>Witness\<close>

definition waiting_client :: connection where
  "waiting_client = \<lparr>main = Sending 0, copies = [], pending = [], peer_closed = False, receiving = True, receives = []\<rparr>"

lemma waiting_client_simps [simp]:
  "main waiting_client = Sending 0" "copies waiting_client = []" "pending waiting_client = []"
  "\<not> peer_closed waiting_client" "receiving waiting_client" "receives waiting_client = []"
  by (simp_all add: waiting_client_def)


end
