(* ===== verification/Client_Races.thy ===== *)
theory Client_Races
  imports Client_Threads
begin

text \<open>
  A client and the UDP thread of the server, connected: the server handles the copies of the order one
  by one, and what it sends to the client arrives there.  The receiver thread of the client can take
  every answer before the main thread looks, which then sends the order again.
\<close>

section \<open>A client and the server\<close>

record link =
  end_client :: connection
  end_thread :: thread
  handled :: nat

text \<open>The datagrams that go to an address.\<close>

fun datagrams_to :: "sockaddr_in \<Rightarrow> net_event list \<Rightarrow> string list" where
  "datagrams_to a [] = []"
| "datagrams_to a (Sendto b m # evs) = (if b = a then m # datagrams_to a evs else datagrams_to a evs)"
| "datagrams_to a (_ # evs) = datagrams_to a evs"

inductive link_step :: "'j env \<Rightarrow> sockaddr_in \<Rightarrow> string \<Rightarrow> link \<Rightarrow> link \<Rightarrow> bool" for E cli msg where
  main_acts: "main_step UDP msg (end_client l) c \<Longrightarrow> link_step E cli msg l (l\<lparr>end_client := c\<rparr>)"
| receiver_acts: "receiver_step UDP (end_client l) c \<Longrightarrow> link_step E cli msg l (l\<lparr>end_client := c\<rparr>)"
| server_acts: "\<lbrakk>handled l < length (copies (end_client l));
      udp_pass E now (Datagram (copies (end_client l) ! handled l) cli) (end_thread l) = (f, x); \<forall>e. f \<noteq> Throw e\<rbrakk>
    \<Longrightarrow> link_step E cli msg l (l\<lparr>end_client := arrive (datagrams_to cli
          (drop (length (sent (snd (end_thread l)))) (sent (snd x)))) (end_client l),
        end_thread := x, handled := handled l + 1\<rparr>)"

abbreviation link_steps :: "'j env \<Rightarrow> sockaddr_in \<Rightarrow> string \<Rightarrow> link \<Rightarrow> link \<Rightarrow> bool" where
  "link_steps E cli msg \<equiv> (link_step E cli msg)\<^sup>*\<^sup>*"

lemma datagrams_to_append: "datagrams_to a (xs @ ys) = datagrams_to a xs @ datagrams_to a ys"
  by (induction xs rule: datagrams_to.induct) simp_all

text \<open>The receiver thread reads everything that has arrived.\<close>

definition drain :: "connection \<Rightarrow> connection" where
  "drain c = c\<lparr>pending := [], receives := receives c @ map (\<lambda>m. Received (take (BUFFER_SIZE_CLIENT - 1) m)) (pending c)\<rparr>"

lemma receiver_drains:
  "receiving (end_client l) \<Longrightarrow> link_steps E cli msg l (l\<lparr>end_client := drain (end_client l)\<rparr>)"
proof (induction "pending (end_client l)" arbitrary: l)
  case Nil
  then have "l\<lparr>end_client := drain (end_client l)\<rparr> = l" by (simp add: drain_def)
  then show ?case by simp
next
  case (Cons m ms)
  let ?c = "end_client l" and ?m = "take (BUFFER_SIZE_CLIENT - 1) m"
  let ?c1 = "?c\<lparr>pending := ms, receives := receives ?c @ [Received ?m], receiving := True\<rparr>"
  have first: "link_step E cli msg l (l\<lparr>end_client := ?c1\<rparr>)"
    using Cons(3) Cons(2)[symmetric] receiver_step.message[of ?c UDP ?m ms]
    by (intro link_step.receiver_acts) simp
  have "link_steps E cli msg (l\<lparr>end_client := ?c1\<rparr>) (l\<lparr>end_client := drain ?c1\<rparr>)"
    using Cons(1)[of "l\<lparr>end_client := ?c1\<rparr>"] by simp
  moreover have "drain ?c1 = drain ?c"
    using Cons(3) Cons(2)[symmetric] by (simp add: drain_def)
  ultimately show ?case using first by (simp add: converse_rtranclp_into_rtranclp)
qed

section \<open>An order that is answered and sent again\<close>

definition successes :: "connection \<Rightarrow> nat" where
  "successes c = count_list (receives c) (Received ''Successful order!'')"

lemma server_round:
  assumes "quiet E" and "\<forall>n. \<not> my_fault (env_mysql E) n" and "state_ok E Next S"
    and "order_message (env_json E) (recv_buffer 2048 msg) root r p" and "site_of (o_destination_type r) = None"
    and "order_ready (env_mysql E) (inventory S) r Hub a"
    and "total_ordered (env_json E) (o_product_name r) (storedOrders (orders S)) + o_quantity r \<le> INT_MAX"
  obtains s' S' evs where "udp_pass E now (Datagram msg cli) (s, S) = (Next, s', S')" "state_ok E Next S'"
    "stock_at (env_mysql E) (inventory S') Hub (o_source_location r) (o_product_name r) = Some (a - o_quantity r)"
    "sent S' = sent S @ Sendto cli ''UDP Server received your message.'' # Sendto cli ''Successful order!'' # evs"
    "storedOrders (orders S') = storedOrders (orders S) @ [recv_buffer 2048 msg]"
proof -
  let ?M = "env_mysql E"
  have rel: "db_reliable ?M (inventory S)" using assms(2) by (simp add: db_reliable_def)
  obtain s' S' where pass: "udp_pass E now (Datagram msg cli) (s, S) = (Next, s', S')"
    "stock_at ?M (inventory S') = moved_stock ?M r (inventory S)"
    "sent S' = sent S @ [Sendto cli ''UDP Server received your message.'', Sendto cli ''Successful order!''] @
        forward_events (tables S) (forward_text r) (o_source_location r) (map c_tolower p)"
    "storedOrders (orders S') = storedOrders (orders S) @ [recv_buffer 2048 msg]"
    using udp_hub_order_pass[OF assms(1,3) rel assms(4,6,7)] by blast
  have "state_ok E Next S'" using keepsD[OF keeps_udp_pass _ pass(1)] assms(3) by simp
  moreover have "moved_stock ?M r (inventory S) Hub (o_source_location r) (o_product_name r) = Some (a - o_quantity r)"
    using assms(3) order_readyD[OF assms(6)] by (intro moved_stock_out assms(5)) (simp_all add: state_ok_def db_ok_def)
  ultimately show ?thesis using pass by (intro that[of s' S']) simp_all
qed

text \<open>
  One round: the copy is sent, the server carries it out, the receiver thread reads the answers, and
  \<open>select\<close> reports nothing.
\<close>

lemma link_round:
  assumes c: "main c = Sending k" "k \<le> MAX_RETRIES" "copies c = replicate k msg" "pending c = []" "receiving c"
    and run: "udp_pass E now (Datagram msg cli) (s, S) = (Next, s', S')"
      "sent S' = sent S @ Sendto cli ''UDP Server received your message.'' # Sendto cli ''Successful order!'' # evs"
  obtains c' where "link_steps E cli msg \<lparr>end_client = c, end_thread = (s, S), handled = k\<rparr>
      \<lparr>end_client = c', end_thread = (s', S'), handled = Suc k\<rparr>"
    "main c' = Sending (Suc k)" "copies c' = replicate (Suc k) msg" "pending c' = []" "receiving c'"
    "Suc (successes c) \<le> successes c'"
proof -
  let ?l = "\<lambda>c x k. \<lparr>end_client = c, end_thread = x, handled = k\<rparr>"
  let ?answers = "''UDP Server received your message.'' # ''Successful order!'' # datagrams_to cli evs"
  define c1 where "c1 = c\<lparr>main := Selecting k, copies := copies c @ [msg]\<rparr>"
  define c2 where "c2 = arrive ?answers c1"
  define c3 where "c3 = drain c2"
  have "main_step UDP msg c c1"
    using main_step.sends[OF c(1,2), of UDP msg] by (simp add: c1_def after_send_def)
  then have 1: "link_step E cli msg (?l c (s, S) k) (?l c1 (s, S) k)"
    using link_step.main_acts[of msg "?l c (s, S) k" c1] by simp
  have "copies c1 ! k = msg" "k < length (copies c1)" using c(3) by (simp_all add: c1_def nth_append)
  then have 2: "link_step E cli msg (?l c1 (s, S) k) (?l c2 (s', S') (Suc k))"
    using link_step.server_acts[of "?l c1 (s, S) k" E now cli Next "(s', S')" msg] run by (simp add: c2_def)
  have 3: "link_steps E cli msg (?l c2 (s', S') (Suc k)) (?l c3 (s', S') (Suc k))"
    using receiver_drains[of "?l c2 (s', S') (Suc k)"] c(5) by (simp add: c3_def c2_def c1_def arrive_def)
  have "main_step UDP msg c3 (c3\<lparr>main := Sending (k + 1)\<rparr>)"
    by (rule main_step.not_ready) (simp_all add: c3_def c2_def c1_def arrive_def drain_def)
  then have 4: "link_step E cli msg (?l c3 (s', S') (Suc k)) (?l (c3\<lparr>main := Sending (k + 1)\<rparr>) (s', S') (Suc k))"
    using link_step.main_acts[of msg "?l c3 (s', S') (Suc k)"] by simp
  have steps: "link_steps E cli msg (?l c (s, S) k) (?l (c3\<lparr>main := Sending (k + 1)\<rparr>) (s', S') (Suc k))"
    by (rule rtranclp.rtrancl_into_rtrancl[OF rtranclp_trans[OF _ 3] 4]) (blast intro: 1 2 converse_rtranclp_into_rtranclp)
  show ?thesis
    by (rule that[OF steps])
      (use c in \<open>simp_all add: c3_def c2_def c1_def arrive_def drain_def successes_def BUFFER_SIZE_CLIENT_def
        replicate_append_same\<close>)
qed

lemma total_ordered_copies:
  assumes "order_message J b root r p" and "o_product_name r \<noteq> []" and "0 < o_quantity r"
  shows "total_ordered J (o_product_name r) (texts @ replicate k b) = total_ordered J (o_product_name r) texts + int k * o_quantity r"
proof (induction k)
  case (Suc k)
  have "texts @ replicate (Suc k) b = (texts @ replicate k b) @ [b]" by (simp add: replicate_append_same)
  with Suc total_ordered_order[OF assms, of "texts @ replicate k b"] show ?case by (simp add: algebra_simps)
qed simp

lemma copies_carried_out:
  assumes "quiet E" and "\<forall>n. \<not> my_fault (env_mysql E) n" and "state_ok E Next S"
    and m: "order_message (env_json E) (recv_buffer 2048 msg) root r p" and out: "site_of (o_destination_type r) = None"
    and ready: "order_ready (env_mysql E) (inventory S) r Hub a" and "4 * o_quantity r \<le> a"
    and fits: "total_ordered (env_json E) (o_product_name r) (storedOrders (orders S)) + 4 * o_quantity r \<le> INT_MAX"
    and c: "main c = Sending 0" "copies c = []" "pending c = []" "receiving c"
    and "k \<le> 4"
  shows "\<exists>c' s' S'. link_steps E cli msg \<lparr>end_client = c, end_thread = (s, S), handled = 0\<rparr>
      \<lparr>end_client = c', end_thread = (s', S'), handled = k\<rparr>
    \<and> main c' = Sending k \<and> copies c' = replicate k msg \<and> pending c' = [] \<and> receiving c'
    \<and> successes c + k \<le> successes c' \<and> state_ok E Next S'
    \<and> stock_at (env_mysql E) (inventory S') Hub (o_source_location r) (o_product_name r) = Some (a - int k * o_quantity r)
    \<and> storedOrders (orders S') = storedOrders (orders S) @ replicate k (recv_buffer 2048 msg)"
  using \<open>k \<le> 4\<close>
proof (induction k)
  case 0
  show ?case
    using c assms(3) order_readyD(4)[OF ready] by (intro exI[of _ c] exI[of _ s] exI[of _ S]) simp
next
  case (Suc k)
  let ?stock = "\<lambda>S. stock_at (env_mysql E) (inventory S) Hub (o_source_location r) (o_product_name r)"
  note r = order_readyD[OF ready]
  from Suc obtain c' s' S' where IH: "link_steps E cli msg \<lparr>end_client = c, end_thread = (s, S), handled = 0\<rparr>
      \<lparr>end_client = c', end_thread = (s', S'), handled = k\<rparr>"
    "main c' = Sending k" "copies c' = replicate k msg" "pending c' = []" "receiving c'"
    "successes c + k \<le> successes c'" "state_ok E Next S'" "?stock S' = Some (a - int k * o_quantity r)"
    "storedOrders (orders S') = storedOrders (orders S) @ replicate k (recv_buffer 2048 msg)" by auto
  have "(int k + 1) * o_quantity r \<le> 4 * o_quantity r" using Suc(2) r(8) by (intro mult_right_mono) simp_all
  then have room: "(int k + 1) * o_quantity r \<le> a" "(int k + 1) * o_quantity r \<le> 4 * o_quantity r" using assms(7) by simp_all
  have ready': "order_ready (env_mysql E) (inventory S') r Hub (a - int k * o_quantity r)"
    using room(1) by (intro order_ready_left[OF ready out IH(8)]) (simp add: algebra_simps)
  have "total_ordered (env_json E) (o_product_name r) (storedOrders (orders S')) + o_quantity r \<le> INT_MAX"
    using fits room(2) total_ordered_copies[OF m r(7,8), of "storedOrders (orders S)" k] by (simp add: IH(9) algebra_simps)
  then obtain s2 S2 evs where pass: "udp_pass E 0 (Datagram msg cli) (s', S') = (Next, s2, S2)" "state_ok E Next S2"
    "?stock S2 = Some (a - int k * o_quantity r - o_quantity r)"
    "sent S2 = sent S' @ Sendto cli ''UDP Server received your message.'' # Sendto cli ''Successful order!'' # evs"
    "storedOrders (orders S2) = storedOrders (orders S') @ [recv_buffer 2048 msg]"
    by (rule server_round[OF assms(1,2) IH(7) m out ready']) (rule that)
  have "k \<le> MAX_RETRIES" using Suc(2) by (simp add: MAX_RETRIES_def)
  then obtain c2 where c2: "link_steps E cli msg \<lparr>end_client = c', end_thread = (s', S'), handled = k\<rparr>
      \<lparr>end_client = c2, end_thread = (s2, S2), handled = Suc k\<rparr>"
    "main c2 = Sending (Suc k)" "copies c2 = replicate (Suc k) msg" "pending c2 = []" "receiving c2"
    "Suc (successes c') \<le> successes c2"
    by (rule link_round[OF IH(2) _ IH(3-5) pass(1,4)]) (rule that)
  show ?case
    using rtranclp_trans[OF IH(1) c2(1)] c2(2-6) IH(6) pass
    by (intro exI[of _ c2] exI[of _ s2] exI[of _ S2]) (simp add: IH(9) algebra_simps replicate_append_same)
qed

section \<open>Property\<close>

text \<open>
  C27: the receiver thread reads from the socket on which the main thread waits for its response.  There
  is a schedule in which the server carries out and confirms every copy of one order, the receiver
  thread takes the confirmations, and the main thread sends the order four times and reports that the
  server does not answer: four times the quantity ordered has left the hub.
\<close>

theorem confirmed_order_carried_out_four_times:
  assumes "quiet E" and "\<forall>n. \<not> my_fault (env_mysql E) n" and "state_ok E Next S"
    and "order_message (env_json E) (recv_buffer 2048 msg) root r p" and "site_of (o_destination_type r) = None"
    and "order_ready (env_mysql E) (inventory S) r Hub a" and "4 * o_quantity r \<le> a"
    and "total_ordered (env_json E) (o_product_name r) (storedOrders (orders S)) + 4 * o_quantity r \<le> INT_MAX"
    and "main c = Sending 0" and "copies c = []" and "pending c = []" and "receiving c"
  shows "\<exists>l. link_steps E cli msg \<lparr>end_client = c, end_thread = (s, S), handled = 0\<rparr> l
    \<and> main (end_client l) = Ended 1 None \<and> copies (end_client l) = replicate 4 msg \<and> handled l = 4
    \<and> successes c + 4 \<le> successes (end_client l)
    \<and> stock_at (env_mysql E) (inventory (snd (end_thread l))) Hub (o_source_location r) (o_product_name r)
        = Some (a - 4 * o_quantity r)
    \<and> storedOrders (orders (snd (end_thread l))) = storedOrders (orders S) @ replicate 4 (recv_buffer 2048 msg)"
proof -
  from copies_carried_out[OF assms order.refl, of cli s] obtain c' s' S' where
    4: "link_steps E cli msg \<lparr>end_client = c, end_thread = (s, S), handled = 0\<rparr>
      \<lparr>end_client = c', end_thread = (s', S'), handled = 4\<rparr>"
    "main c' = Sending 4" "copies c' = replicate 4 msg" "successes c + 4 \<le> successes c'"
    "stock_at (env_mysql E) (inventory S') Hub (o_source_location r) (o_product_name r) = Some (a - 4 * o_quantity r)"
    "storedOrders (orders S') = storedOrders (orders S) @ replicate 4 (recv_buffer 2048 msg)" by auto
  have "main_step UDP msg c' (ends 1 None c')"
    using 4(2) by (rule main_step.gives_up) (simp add: MAX_RETRIES_def)
  then have "link_step E cli msg \<lparr>end_client = c', end_thread = (s', S'), handled = 4\<rparr>
      \<lparr>end_client = ends 1 None c', end_thread = (s', S'), handled = 4\<rparr>"
    using link_step.main_acts[of msg "\<lparr>end_client = c', end_thread = (s', S'), handled = 4\<rparr>"] by simp
  with 4 show ?thesis
    by (intro exI[of _ "\<lparr>end_client = ends 1 None c', end_thread = (s', S'), handled = 4\<rparr>"])
      (auto simp: ends_def successes_def intro: rtranclp.rtrancl_into_rtrancl)
qed

section \<open>Witness\<close>

text \<open>One order of 20 units from a hub that holds 1000.\<close>

abbreviation small_order :: sample_json where
  "small_order \<equiv> sample_order ''hub'' 1 ''external'' 2 ''request'' ''2'' ''Water'' 20"
abbreviation small_fields :: order where
  "small_fields \<equiv> sample_order_fields ''hub'' 1 ''external'' 2 ''request'' ''2'' ''Water'' 20"

lemma small_order_ready: "order_ready sample_mysql (seed_db 1000) small_fields Hub 1000"
  by code_simp

theorem confirmed_order_carried_out_four_times_witness:
  "\<exists>l :: link. main (end_client l) = Ended 1 None \<and> 4 \<le> successes (end_client l)
     \<and> stock_at sample_mysql (inventory (snd (end_thread l))) Hub 1 ''Water'' = Some 920"
proof -
  have "\<forall>n. \<not> my_fault (env_mysql (sample_env small_order)) n" by simp
  from confirmed_order_carried_out_four_times[OF quiet_sample this, of "sample_server 1000" "''{A''" small_order small_fields
      "''TCP''" 1000 waiting_client "sample_addr 7000" new_session]
    order_message_sample[of 1 2 20 "''hub''" "''external''" "''request''" "''2''" "''Water''"] small_order_ready
  show ?thesis by (simp add: sample_facts state_ok_sample successes_def) blast
qed

end
